theory Spec2Isabelle
  imports Main "HOL-Library.Word"
begin

section \<open>Hex geometry (hive_hexboard.h)\<close>

text \<open>
  The coordinates of a \<open>HivePosition\<close> are \<open>int8_t\<close>: they are modelled as 8-bit words,
  read as signed numbers with \<open>sint\<close>. Sums of coordinates are computed in \<open>int\<close> by the
  C++ code and narrowed back to \<open>int8_t\<close> by the constructor, which is addition of words.
\<close>

type_synonym int8 = "8 word"

datatype HivePosition = HivePosition (Q: int8) (R: int8) (H: int8)

text \<open>\<open>enum Direction : uint8_t\<close>; \<open>kNumCardinalDirections\<close> is an alias of \<open>kAbove\<close>.\<close>

type_synonym Direction = nat

abbreviation (input) kNE :: Direction where "kNE \<equiv> 0"
abbreviation (input) kE :: Direction where "kE \<equiv> 1"
abbreviation (input) kSE :: Direction where "kSE \<equiv> 2"
abbreviation (input) kSW :: Direction where "kSW \<equiv> 3"
abbreviation (input) kW :: Direction where "kW \<equiv> 4"
abbreviation (input) kNW :: Direction where "kNW \<equiv> 5"
abbreviation (input) kAbove :: Direction where "kAbove \<equiv> 6"
abbreviation (input) kNumCardinalDirections :: Direction where "kNumCardinalDirections \<equiv> 6"
abbreviation (input) kNumAllDirections :: Direction where "kNumAllDirections \<equiv> 7"

datatype Colour = kWhite | kBlack

datatype BugType =
  kQueen | kAnt | kGrasshopper | kSpider | kBeetle | kMosquito | kLadybug | kPillbug | kNone

definition kOriginPosition :: HivePosition where
  "kOriginPosition = HivePosition 0 0 0"

definition kNullPosition :: HivePosition where
  "kNullPosition = HivePosition 0 0 (- 1)"

definition pos_add :: "HivePosition \<Rightarrow> HivePosition \<Rightarrow> HivePosition" where
  "pos_add a b = HivePosition (Q a + Q b) (R a + R b) (H a + H b)"

definition pos_sub :: "HivePosition \<Rightarrow> HivePosition \<Rightarrow> HivePosition" where
  "pos_sub a b = HivePosition (Q a - Q b) (R a - R b) (H a - H b)"

text \<open>\<open>DistanceTo\<close>: the difference is a \<open>HivePosition\<close> (narrowed), the sum is an \<open>int\<close>.\<close>

definition DistanceTo :: "HivePosition \<Rightarrow> HivePosition \<Rightarrow> int" where
  "DistanceTo a other =
     (let diff = pos_sub a other
      in (\<bar>sint (Q diff)\<bar> + \<bar>sint (Q diff) + sint (R diff)\<bar> + \<bar>sint (R diff)\<bar>) div 2)"

text \<open>\<open>Neighbours()\<close> builds the six positions with the default height 0.\<close>

definition Neighbours :: "HivePosition \<Rightarrow> HivePosition list" where
  "Neighbours p =
     [HivePosition (Q p + 1) (R p - 1) 0,
      HivePosition (Q p + 1) (R p) 0,
      HivePosition (Q p) (R p + 1) 0,
      HivePosition (Q p - 1) (R p + 1) 0,
      HivePosition (Q p - 1) (R p) 0,
      HivePosition (Q p) (R p - 1) 0]"

definition Grounded :: "HivePosition \<Rightarrow> HivePosition" where
  "Grounded p = HivePosition (Q p) (R p) 0"

text \<open>\<open>kNeighbourOffsets\<close>, an array of 7 offsets indexed by direction.\<close>

definition kNeighbourOffsets :: "HivePosition list" where
  "kNeighbourOffsets =
     [HivePosition 1 (- 1) 0, HivePosition 1 0 0, HivePosition 0 1 0,
      HivePosition (- 1) 1 0, HivePosition (- 1) 0 0, HivePosition 0 (- 1) 0,
      HivePosition 0 0 1]"

definition NeighbourAt :: "HivePosition \<Rightarrow> Direction \<Rightarrow> HivePosition" where
  "NeighbourAt p dir = pos_add p (kNeighbourOffsets ! dir)"

definition kMaxTileCount :: int where "kMaxTileCount = 28"
definition kMaxBoardRadius :: int where "kMaxBoardRadius = 14"
definition kDefaultBoardRadius :: int where "kDefaultBoardRadius = 8"

definition kBugCounts :: "BugType \<Rightarrow> nat" where
  "kBugCounts t = (case t of kQueen \<Rightarrow> 1 | kAnt \<Rightarrow> 3 | kGrasshopper \<Rightarrow> 3 | kSpider \<Rightarrow> 2
     | kBeetle \<Rightarrow> 2 | kMosquito \<Rightarrow> 1 | kLadybug \<Rightarrow> 1 | kPillbug \<Rightarrow> 1 | kNone \<Rightarrow> 0)"

type_synonym Player = int

abbreviation (input) kPlayerWhite :: Player where "kPlayerWhite \<equiv> 0"
abbreviation (input) kPlayerBlack :: Player where "kPlayerBlack \<equiv> 1"

definition OtherColour :: "Colour \<Rightarrow> Colour" where
  "OtherColour c = (if c = kWhite then kBlack else kWhite)"

definition PlayerToColour :: "Player \<Rightarrow> Colour" where
  "PlayerToColour p = (if p = kPlayerWhite then kWhite else kBlack)"

definition OppositeDirection :: "nat \<Rightarrow> Direction" where
  "OppositeDirection d = (d + 3) mod 6"

definition ClockwiseDirection :: "nat \<Rightarrow> Direction" where
  "ClockwiseDirection d = (d + 1) mod 6"

definition CounterClockwiseDirection :: "nat \<Rightarrow> Direction" where
  "CounterClockwiseDirection d = (d + 5) mod 6"

section \<open>Tile identity (class NewHiveTile)\<close>

text \<open>
  \<open>enum Value : uint8_t\<close>: a tile is the number of its enumerator, \<open>wQ = 0\<close> up to
  \<open>bP = 27\<close>, and \<open>kNoneTile = kNumTiles = 28\<close>.
\<close>

type_synonym NewHiveTile = nat

abbreviation (input) wQ :: NewHiveTile where "wQ \<equiv> 0"
abbreviation (input) wA1 :: NewHiveTile where "wA1 \<equiv> 1"
abbreviation (input) wA2 :: NewHiveTile where "wA2 \<equiv> 2"
abbreviation (input) wA3 :: NewHiveTile where "wA3 \<equiv> 3"
abbreviation (input) wG1 :: NewHiveTile where "wG1 \<equiv> 4"
abbreviation (input) wG2 :: NewHiveTile where "wG2 \<equiv> 5"
abbreviation (input) wG3 :: NewHiveTile where "wG3 \<equiv> 6"
abbreviation (input) wS1 :: NewHiveTile where "wS1 \<equiv> 7"
abbreviation (input) wS2 :: NewHiveTile where "wS2 \<equiv> 8"
abbreviation (input) wB1 :: NewHiveTile where "wB1 \<equiv> 9"
abbreviation (input) wB2 :: NewHiveTile where "wB2 \<equiv> 10"
abbreviation (input) wM :: NewHiveTile where "wM \<equiv> 11"
abbreviation (input) wL :: NewHiveTile where "wL \<equiv> 12"
abbreviation (input) wP :: NewHiveTile where "wP \<equiv> 13"
abbreviation (input) bQ :: NewHiveTile where "bQ \<equiv> 14"
abbreviation (input) bA1 :: NewHiveTile where "bA1 \<equiv> 15"
abbreviation (input) bA2 :: NewHiveTile where "bA2 \<equiv> 16"
abbreviation (input) bA3 :: NewHiveTile where "bA3 \<equiv> 17"
abbreviation (input) bG1 :: NewHiveTile where "bG1 \<equiv> 18"
abbreviation (input) bG2 :: NewHiveTile where "bG2 \<equiv> 19"
abbreviation (input) bG3 :: NewHiveTile where "bG3 \<equiv> 20"
abbreviation (input) bS1 :: NewHiveTile where "bS1 \<equiv> 21"
abbreviation (input) bS2 :: NewHiveTile where "bS2 \<equiv> 22"
abbreviation (input) bB1 :: NewHiveTile where "bB1 \<equiv> 23"
abbreviation (input) bB2 :: NewHiveTile where "bB2 \<equiv> 24"
abbreviation (input) bM :: NewHiveTile where "bM \<equiv> 25"
abbreviation (input) bL :: NewHiveTile where "bL \<equiv> 26"
abbreviation (input) bP :: NewHiveTile where "bP \<equiv> 27"
abbreviation (input) kNumTiles :: NewHiveTile where "kNumTiles \<equiv> 28"
abbreviation (input) kNoneTile :: NewHiveTile where "kNoneTile \<equiv> 28"

definition HasValue :: "NewHiveTile \<Rightarrow> bool" where
  "HasValue t \<longleftrightarrow> t < kNoneTile"

definition GetTilesForColour :: "Colour \<Rightarrow> NewHiveTile list" where
  "GetTilesForColour c = (case c of
       kWhite \<Rightarrow> [wQ, wA1, wA2, wA3, wG1, wG2, wG3, wS1, wS2, wB1, wB2, wM, wL, wP]
     | kBlack \<Rightarrow> [bQ, bA1, bA2, bA3, bG1, bG2, bG3, bS1, bS2, bB1, bB2, bM, bL, bP])"

text \<open>
  \<open>GetTileFrom\<close>: the \<open>switch\<close> falls through from the bug type down to the Queen, adding
  the count of every type that precedes it to a \<open>uint8_t\<close>. The tile returned is
  \<open>retval + ordinal - 1\<close>, computed as an \<open>int\<close> and narrowed to the 8 bits of the tile.
\<close>

definition tiles_before :: "BugType \<Rightarrow> nat" where
  "tiles_before t = (case t of
       kPillbug \<Rightarrow> kBugCounts kLadybug + kBugCounts kMosquito + kBugCounts kBeetle
         + kBugCounts kSpider + kBugCounts kGrasshopper + kBugCounts kAnt + kBugCounts kQueen
     | kLadybug \<Rightarrow> kBugCounts kMosquito + kBugCounts kBeetle + kBugCounts kSpider
         + kBugCounts kGrasshopper + kBugCounts kAnt + kBugCounts kQueen
     | kMosquito \<Rightarrow> kBugCounts kBeetle + kBugCounts kSpider + kBugCounts kGrasshopper
         + kBugCounts kAnt + kBugCounts kQueen
     | kBeetle \<Rightarrow> kBugCounts kSpider + kBugCounts kGrasshopper + kBugCounts kAnt
         + kBugCounts kQueen
     | kSpider \<Rightarrow> kBugCounts kGrasshopper + kBugCounts kAnt + kBugCounts kQueen
     | kGrasshopper \<Rightarrow> kBugCounts kAnt + kBugCounts kQueen
     | kAnt \<Rightarrow> kBugCounts kQueen
     | kQueen \<Rightarrow> 0
     | kNone \<Rightarrow> 0)"

definition GetTileFrom :: "Colour \<Rightarrow> BugType \<Rightarrow> nat \<Rightarrow> NewHiveTile" where
  "GetTileFrom c type ordinal =
     (let retval = ((if c = kWhite then wQ else bQ) + tiles_before type) mod 256
      in nat ((int retval + int ordinal - 1) mod 256))"

definition GetBugType :: "NewHiveTile \<Rightarrow> BugType" where
  "GetBugType t =
     (if t = wQ \<or> t = bQ then kQueen
      else if (wA1 \<le> t \<and> t \<le> wA3) \<or> (bA1 \<le> t \<and> t \<le> bA3) then kAnt
      else if (wG1 \<le> t \<and> t \<le> wG3) \<or> (bG1 \<le> t \<and> t \<le> bG3) then kGrasshopper
      else if (wS1 \<le> t \<and> t \<le> wS2) \<or> (bS1 \<le> t \<and> t \<le> bS2) then kSpider
      else if (wB1 \<le> t \<and> t \<le> wB2) \<or> (bB1 \<le> t \<and> t \<le> bB2) then kBeetle
      else if t = wM \<or> t = bM then kMosquito
      else if t = wL \<or> t = bL then kLadybug
      else if t = wP \<or> t = bP then kPillbug
      else kNone)"

text \<open>
  \<open>GetColour\<close> ends the program (\<open>SpielFatalError\<close>) on a value that is no tile; every call
  in the code modelled here is on a tile that has a value, and the model leaves the result
  of the aborting branch unspecified.
\<close>

definition GetColour :: "NewHiveTile \<Rightarrow> Colour" where
  "GetColour t =
     (if t \<le> wP then kWhite else if bQ \<le> t \<and> t \<le> bP then kBlack else undefined)"

definition GetOrdinal :: "NewHiveTile \<Rightarrow> nat" where
  "GetOrdinal t =
     (if t = kNoneTile then 0
      else if t \<in> {wA2, wG2, wS2, wB2, bA2, bG2, bS2, bB2} then 2
      else if t \<in> {wA3, wG3, bA3, bG3} then 3
      else 1)"

record Move =
  from_tile :: NewHiveTile
  to_tile :: NewHiveTile
  direction :: Direction

definition IsPass :: "Move \<Rightarrow> bool" where
  "IsPass m \<longleftrightarrow> \<not> HasValue (from_tile m)"

section \<open>The board (class HexBoard)\<close>

text \<open>
  The hash sets of positions (\<open>absl::flat_hash_set\<close>) are lists without duplicates, in the
  order of insertion: the order in which a hash set is traversed is not specified by the
  library, and the legal actions are sorted before they leave the state.
\<close>

definition hs_contains :: "'a list \<Rightarrow> 'a \<Rightarrow> bool" where
  "hs_contains s x \<longleftrightarrow> x \<in> set s"

definition hs_insert :: "'a \<Rightarrow> 'a list \<Rightarrow> 'a list" where
  "hs_insert x s = (if x \<in> set s then s else s @ [x])"

definition hs_erase :: "'a \<Rightarrow> 'a list \<Rightarrow> 'a list" where
  "hs_erase x s = removeAll x s"

record HexBoard =
  hex_radius :: int
  num_tiles :: int
  tile_grid :: "NewHiveTile list"
  played_tiles :: "NewHiveTile list"
  tile_positions :: "HivePosition list"
  covered_tiles :: "NewHiveTile list"
  articulation_points :: "HivePosition list"
  largest_radius :: int
  last_moved :: NewHiveTile
  last_moved_from :: HivePosition
  colour_influence :: "HivePosition list list"

definition Radius :: "HexBoard \<Rightarrow> int" where
  "Radius b = hex_radius b"

definition SquareDimensions :: "HexBoard \<Rightarrow> int" where
  "SquareDimensions b = Radius b * 2 + 1"

text \<open>
  The constructor: the radius is capped at \<open>kMaxBoardRadius\<close>, the grid has
  \<open>SquareDimensions() * SquareDimensions()\<close> cells, and every member is default-initialised
  (no tile, the null position, empty sets).
\<close>

definition HexBoard_new :: "int \<Rightarrow> bool \<Rightarrow> bool \<Rightarrow> bool \<Rightarrow> HexBoard" where
  "HexBoard_new board_radius uses_mosquito uses_ladybug uses_pillbug =
     (let r = min board_radius kMaxBoardRadius;
          sd = r * 2 + 1
      in \<lparr> hex_radius = r,
           num_tiles = kMaxTileCount,
           tile_grid = replicate (nat (sd * sd)) kNoneTile,
           played_tiles = [],
           tile_positions = replicate 28 kNullPosition,
           covered_tiles = replicate 7 kNoneTile,
           articulation_points = [],
           largest_radius = 0,
           last_moved = kNoneTile,
           last_moved_from = kNullPosition,
           colour_influence = [[], []] \<rparr>)"

text \<open>
  \<open>AxialToIndex\<close> computes in \<open>int\<close> and returns a \<open>size_t\<close>: a negative value wraps
  around modulo \<open>2^64\<close>.
\<close>

definition AxialToIndex :: "HexBoard \<Rightarrow> HivePosition \<Rightarrow> nat" where
  "AxialToIndex b pos =
     nat ((sint (Q pos) + Radius b + (sint (R pos) + Radius b) * SquareDimensions b) mod 2 ^ 64)"

text \<open>\<open>GetTopTileAt\<close>, the tile accessor with bounds checking.\<close>

definition GetTopTileAt :: "HexBoard \<Rightarrow> HivePosition \<Rightarrow> NewHiveTile" where
  "GetTopTileAt b pos =
     (if DistanceTo pos kOriginPosition > Radius b then kNoneTile
      else tile_grid b ! AxialToIndex b pos)"

definition GetPositionOf :: "HexBoard \<Rightarrow> NewHiveTile \<Rightarrow> HivePosition" where
  "GetPositionOf b tile = (if HasValue tile then tile_positions b ! tile else kNullPosition)"

definition IsInPlay :: "HexBoard \<Rightarrow> NewHiveTile \<Rightarrow> bool" where
  "IsInPlay b tile \<longleftrightarrow> HasValue tile \<and> tile_positions b ! tile \<noteq> kNullPosition"

text \<open>
  The grid of a board is created once by the constructor and never resized: a board keeps
  the capped radius and the size of its grid.
\<close>

definition grid_shape :: "HexBoard \<Rightarrow> bool" where
  "grid_shape b \<longleftrightarrow> hex_radius b \<le> kMaxBoardRadius \<and>
     length (tile_grid b) = nat (SquareDimensions b * SquareDimensions b)"

text \<open>
  \<open>NeighboursOf\<close>: the top tiles of the six neighbouring cells. The parameter
  \<open>to_ignore\<close> is not used by the body.
\<close>

definition NeighboursOf :: "HexBoard \<Rightarrow> HivePosition \<Rightarrow> HivePosition \<Rightarrow> NewHiveTile list" where
  "NeighboursOf b pos to_ignore = filter HasValue (map (GetTopTileAt b) (Neighbours pos))"

definition IsGated :: "HexBoard \<Rightarrow> HivePosition \<Rightarrow> Direction \<Rightarrow> HivePosition \<Rightarrow> bool" where
  "IsGated b pos d to_ignore =
     (let cw = pos_add pos (kNeighbourOffsets ! ClockwiseDirection d);
          ccw = pos_add pos (kNeighbourOffsets ! CounterClockwiseDirection d);
          cw_exists = (cw \<noteq> to_ignore
                       \<and> sint (H (GetPositionOf b (GetTopTileAt b cw))) \<ge> sint (H pos));
          ccw_exists = (ccw \<noteq> to_ignore
                       \<and> sint (H (GetPositionOf b (GetTopTileAt b ccw))) \<ge> sint (H pos))
      in if H pos = 0 then cw_exists = ccw_exists else cw_exists \<and> ccw_exists)"

definition IsConnected :: "HexBoard \<Rightarrow> HivePosition \<Rightarrow> HivePosition \<Rightarrow> bool" where
  "IsConnected b pos to_ignore \<longleftrightarrow> length (NeighboursOf b pos to_ignore) > 0"

text \<open>
  Iterators of \<open>std::array\<close> are pointers into the array (libstdc++, libc++).
  \<open>std::find_if\<close> and \<open>std::find\<close> return the pointer to the first element that
  matches, or the past-the-end pointer; they never return the null pointer. A pointer
  converts to \<open>bool\<close> as \<open>true\<close> unless it is null.
\<close>

datatype iterator = NullPtr | ArrayPtr nat

fun iterator_to_bool :: "iterator \<Rightarrow> bool" where
  "iterator_to_bool NullPtr = False"
| "iterator_to_bool (ArrayPtr off) = True"

definition find_if :: "('a \<Rightarrow> bool) \<Rightarrow> 'a list \<Rightarrow> iterator" where
  "find_if pred xs = ArrayPtr (length (takeWhile (\<lambda>x. \<not> pred x) xs))"

definition array_end :: "'a list \<Rightarrow> iterator" where
  "array_end xs = ArrayPtr (length xs)"

text \<open>\<open>IsCovered(HivePosition)\<close> returns the iterator itself, converted to \<open>bool\<close>.\<close>

definition IsCovered_pos :: "HexBoard \<Rightarrow> HivePosition \<Rightarrow> bool" where
  "IsCovered_pos b pos =
     iterator_to_bool (find_if (\<lambda>tile. GetPositionOf b tile = pos) (covered_tiles b))"

text \<open>\<open>IsCovered(NewHiveTile)\<close> compares the iterator with \<open>end()\<close>.\<close>

definition IsCovered :: "HexBoard \<Rightarrow> NewHiveTile \<Rightarrow> bool" where
  "IsCovered b tile \<longleftrightarrow>
     HasValue tile \<and> find_if (\<lambda>t. t = tile) (covered_tiles b) \<noteq> array_end (covered_tiles b)"

definition IsPinned_pos :: "HexBoard \<Rightarrow> HivePosition \<Rightarrow> bool" where
  "IsPinned_pos b pos = hs_contains (articulation_points b) pos"

definition IsPinned :: "HexBoard \<Rightarrow> NewHiveTile \<Rightarrow> bool" where
  "IsPinned b tile \<longleftrightarrow> HasValue tile \<and> IsPinned_pos b (tile_positions b ! tile)"

definition colour_idx :: "Colour \<Rightarrow> nat" where
  "colour_idx c = (case c of kWhite \<Rightarrow> 0 | kBlack \<Rightarrow> 1)"

definition IsPlaceable :: "HexBoard \<Rightarrow> Colour \<Rightarrow> HivePosition \<Rightarrow> bool" where
  "IsPlaceable b c pos \<longleftrightarrow>
     hs_contains (colour_influence b ! colour_idx c) pos
     \<and> \<not> hs_contains (colour_influence b ! colour_idx (OtherColour c)) pos
     \<and> \<not> IsInPlay b (GetTopTileAt b pos)"

definition GetTileBelow :: "HexBoard \<Rightarrow> HivePosition \<Rightarrow> NewHiveTile" where
  "GetTileBelow b pos =
     (let below = pos_sub pos (kNeighbourOffsets ! kAbove)
      in if GetPositionOf b (GetTopTileAt b below) = below then GetTopTileAt b below
         else (case filter (\<lambda>tile. HasValue tile \<and> tile_positions b ! tile = below)
                      (covered_tiles b) of
                 tile # _ \<Rightarrow> tile
               | [] \<Rightarrow> kNoneTile))"

text \<open>\<open>UpdateInfluence\<close>: clear and recalculate the influence of one colour.\<close>

definition UpdateInfluence :: "HexBoard \<Rightarrow> Colour \<Rightarrow> HexBoard" where
  "UpdateInfluence b c =
     b\<lparr>colour_influence := (colour_influence b)[colour_idx c :=
         fold (\<lambda>tile inf.
                 if GetColour tile \<noteq> c then inf
                 else if IsCovered b tile then inf
                 else fold (\<lambda>pos. hs_insert (Grounded pos)) (Neighbours (tile_positions b ! tile)) inf)
              (played_tiles b) []]\<rparr>"

subsection \<open>Finitely many positions\<close>

lemma finite_HivePosition: "finite (A :: HivePosition set)"
proof -
  have "(UNIV :: HivePosition set) \<subseteq> (\<lambda>(q, r, h). HivePosition q r h) ` UNIV"
  proof
    fix p :: HivePosition
    show "p \<in> (\<lambda>(q, r, h). HivePosition q r h) ` UNIV"
      by (cases p) (auto intro: image_eqI [where x = "(Q p, R p, H p)"])
  qed
  then have "finite (UNIV :: HivePosition set)"
    by (rule finite_subset) simp
  then show ?thesis by (rule rev_finite_subset) simp
qed

definition unvisited :: "HivePosition list \<Rightarrow> nat" where
  "unvisited vs = card (UNIV - set vs)"

lemma unvisited_mono: "set vs \<subseteq> set ws \<Longrightarrow> unvisited ws \<le> unvisited vs"
  unfolding unvisited_def by (intro card_mono finite_HivePosition) auto

lemma unvisited_insert:
  "x \<notin> set vs \<Longrightarrow> unvisited (hs_insert x vs) < unvisited vs"
proof -
  assume a: "x \<notin> set vs"
  have "UNIV - set (hs_insert x vs) = (UNIV - set vs) - {x}" by (auto simp: hs_insert_def)
  moreover have "x \<in> UNIV - set vs" using a by simp
  ultimately show ?thesis
    unfolding unvisited_def using card_Diff1_less [OF finite_HivePosition, of x "UNIV - set vs"] by simp
qed

lemma set_hs_insert [simp]: "set (hs_insert x s) = insert x (set s)"
  by (auto simp: hs_insert_def)

subsection \<open>Articulation points\<close>

text \<open>
  The variables captured by the \<open>dfs\<close> closure of \<open>UpdateArticulationPoints\<close>. The two
  hash maps are total functions: \<open>operator[]\<close> creates a missing entry with the value 0.
\<close>

record ap_state =
  visit_order :: int
  ap_visited :: "HivePosition list"
  entry_point :: "HivePosition \<Rightarrow> int"
  low_point :: "HivePosition \<Rightarrow> int"
  ap_found :: "HivePosition list"

function ap_dfs :: "HexBoard \<Rightarrow> ap_state \<Rightarrow> HivePosition \<Rightarrow> HivePosition \<Rightarrow> bool \<Rightarrow> ap_state"
  and ap_loop :: "HexBoard \<Rightarrow> ap_state \<Rightarrow> HivePosition \<Rightarrow> HivePosition \<Rightarrow> bool \<Rightarrow> int \<Rightarrow> nat
                    \<Rightarrow> ap_state \<times> int"
where
  "ap_dfs b st vertex parent is_root =
     (let st1 = st\<lparr> ap_visited := hs_insert vertex (ap_visited st),
                   entry_point := (entry_point st)(vertex := visit_order st),
                   low_point := (low_point st)(vertex := visit_order st),
                   visit_order := visit_order st + 1 \<rparr>
      in case ap_loop b st1 vertex parent is_root 0 0 of
           (st2, children) \<Rightarrow>
             if is_root \<and> children > 1
             then st2\<lparr>ap_found := hs_insert vertex (ap_found st2)\<rparr>
             else st2)"
| "ap_loop b st vertex parent is_root children dir =
     (if dir \<ge> kNumCardinalDirections then (st, children)
      else
        let to_vertex = pos_add vertex (kNeighbourOffsets ! dir)
        in if \<not> HasValue (GetTopTileAt b to_vertex)
           then ap_loop b st vertex parent is_root children (dir + 1)
           else if to_vertex = parent
           then ap_loop b st vertex parent is_root children (dir + 1)
           else if hs_contains (ap_visited st) to_vertex
           then ap_loop b
                  (st\<lparr>low_point := (low_point st)
                        (vertex := min (low_point st vertex) (entry_point st to_vertex))\<rparr>)
                  vertex parent is_root children (dir + 1)
           else
             let st1 = ap_dfs b st to_vertex vertex False;
                 st2 = st1\<lparr>low_point := (low_point st1)
                         (vertex := min (low_point st1 vertex) (low_point st1 to_vertex))\<rparr>;
                 st3 = (if low_point st2 to_vertex \<ge> entry_point st2 vertex \<and> \<not> is_root
                        then st2\<lparr>ap_found := hs_insert vertex (ap_found st2)\<rparr>
                        else st2)
             in ap_loop b st3 vertex parent is_root (children + 1) (dir + 1))"
  by pat_completeness auto

termination
proof -
  have ap_visited_grows:
    "ap_dfs_ap_loop_dom (Inl (b, st, vertex, parent, is_root)) \<Longrightarrow>
       set (ap_visited st) \<subseteq> set (ap_visited (ap_dfs b st vertex parent is_root))"
    "ap_dfs_ap_loop_dom (Inr (b, st, vertex, parent, is_root, children, dir)) \<Longrightarrow>
       set (ap_visited st)
         \<subseteq> set (ap_visited (fst (ap_loop b st vertex parent is_root children dir)))"
    for b st vertex parent is_root children dir
  proof (induction rule: ap_dfs_ap_loop.pinduct)
    case (1 b st vertex parent is_root)
    then show ?case
      by (auto simp: ap_dfs.psimps Let_def split: prod.splits)
  next
    case (2 b st vertex parent is_root children dir)
    note eq = ap_loop.psimps [OF "2.hyps"]
    show ?case
    proof (cases "6 \<le> dir")
      case True
      then show ?thesis by (simp add: eq)
    next
      case nd: False
      define x where "x = pos_add vertex (kNeighbourOffsets ! dir)"
      show ?thesis
      proof (cases "HasValue (GetTopTileAt b x)")
        case False
        with "2.IH"(1) [OF nd x_def] show ?thesis using nd by (simp add: eq x_def Let_def)
      next
        case hv: True
        show ?thesis
        proof (cases "x = parent")
          case True
          with "2.IH"(2) [OF nd x_def] hv show ?thesis using nd by (simp add: eq x_def Let_def)
        next
          case np: False
          show ?thesis
          proof (cases "hs_contains (ap_visited st) x")
            case True
            with "2.IH"(3) [OF nd x_def _ np] hv show ?thesis using nd np
              by (simp add: eq x_def [symmetric] Let_def)
          next
            case nv: False
            have a: "set (ap_visited st) \<subseteq> set (ap_visited (ap_dfs b st x vertex False))"
              using "2.IH"(4) [OF nd x_def _ np nv] hv by simp
            from "2.IH"(5) [OF nd x_def _ np nv refl refl refl] hv a
            show ?thesis using nd np nv hv
              by (simp add: eq x_def [symmetric] Let_def split: if_splits) blast+
          qed
        qed
      qed
    qed
  qed
  show ?thesis
  proof (relation "measure (\<lambda>x. case x of
            Inl (b, st, vertex, parent, is_root) \<Rightarrow>
              16 * unvisited (hs_insert vertex (ap_visited st)) + 8
          | Inr (b, st, vertex, parent, is_root, children, dir) \<Rightarrow>
              16 * unvisited (ap_visited st) + (7 - dir))", goal_cases)
    case 1
    then show ?case by simp
  next
    case (2 b st vertex parent is_root x)
    then show ?case by simp
  next
    case (3 b st vertex parent is_root children dir x)
    then show ?case by simp
  next
    case (4 b st vertex parent is_root children dir x)
    then show ?case by simp
  next
    case (5 b st vertex parent is_root children dir x)
    then show ?case by simp
  next
    case (6 b st vertex parent is_root children dir x)
    then have "x \<notin> set (ap_visited st)" by (simp add: hs_contains_def)
    from unvisited_insert [OF this] show ?case using 6 by simp
  next
    case (7 b st vertex parent is_root children dir x xa xb xc)
    have "unvisited (ap_visited (ap_dfs b st x vertex False)) \<le> unvisited (ap_visited st)"
      using ap_visited_grows(1) 7 by (intro unvisited_mono) blast
    then show ?case using 7 by (auto simp: Let_def)
  qed
qed

text \<open>
  \<open>UpdateArticulationPoints\<close>: the search starts at the position of White's Queen,
  whether or not that tile is in play.
\<close>

definition UpdateArticulationPoints :: "HexBoard \<Rightarrow> HexBoard" where
  "UpdateArticulationPoints b =
     (let st0 = \<lparr> visit_order = 0, ap_visited = [], entry_point = (\<lambda>_. 0),
                  low_point = (\<lambda>_. 0), ap_found = [] \<rparr>;
          st = ap_dfs b st0 (tile_positions b ! wQ) kNullPosition True
      in b\<lparr>articulation_points := ap_found st\<rparr>)"

subsection \<open>Moving a tile\<close>

text \<open>
  The position a move leads to: the reference tile's position plus the offset of the
  direction; above the ground it is snapped to the top of the pile of that cell. A move
  without a reference tile is the opening move at the origin.
\<close>

definition MoveTile_new_pos :: "HexBoard \<Rightarrow> Move \<Rightarrow> HivePosition" where
  "MoveTile_new_pos b move =
     (if HasValue (to_tile move) then
        let new_pos = pos_add (tile_positions b ! to_tile move)
                              (kNeighbourOffsets ! direction move)
        in if sint (H new_pos) > 0 then
             let top_tile = GetTopTileAt b new_pos
             in if HasValue top_tile
                then HivePosition (Q new_pos) (R new_pos) (H (tile_positions b ! top_tile) + 1)
                else HivePosition (Q new_pos) (R new_pos) 0
           else new_pos
      else kOriginPosition)"

text \<open>The tile found at the new position goes into the first free slot of \<open>covered_tiles_\<close>.\<close>

fun cover_tile :: "NewHiveTile \<Rightarrow> NewHiveTile list \<Rightarrow> NewHiveTile list" where
  "cover_tile t [] = []"
| "cover_tile t (c # cs) = (if \<not> HasValue c then t # cs else c # cover_tile t cs)"

text \<open>
  The loop that reinstates a covered tile at the old position runs from the last slot of
  \<open>covered_tiles_\<close> down to the first; the argument counts the slots still to visit.
  \<open>std::rotate\<close> moves the emptied slot to the end of the array.
\<close>

fun reinstate_covered :: "HexBoard \<Rightarrow> HivePosition \<Rightarrow> nat \<Rightarrow> nat \<Rightarrow> HexBoard" where
  "reinstate_covered b old_pos old_idx 0 = b"
| "reinstate_covered b old_pos old_idx (Suc i) =
     (if covered_tiles b ! i = kNoneTile then reinstate_covered b old_pos old_idx i
      else if Grounded old_pos = Grounded (GetPositionOf b (covered_tiles b ! i))
      then b\<lparr> tile_grid := (tile_grid b)[old_idx := covered_tiles b ! i],
              covered_tiles :=
                (let cs = (covered_tiles b)[i := kNoneTile]
                 in take i cs @ rotate1 (drop i cs)) \<rparr>
      else reinstate_covered b old_pos old_idx i)"

text \<open>
  \<open>MoveTile\<close> returns whether the move was made, together with the board it leaves.
  \<open>None\<close> is the failure of \<open>SPIEL_CHECK_TRUE(move.from.HasValue())\<close>, which ends the
  program.
\<close>

definition MoveTile :: "HexBoard \<Rightarrow> Move \<Rightarrow> (bool \<times> HexBoard) option" where
  "MoveTile b move =
     (if \<not> HasValue (from_tile move) then None
      else
        let new_pos = MoveTile_new_pos b move;
            dist = DistanceTo new_pos kOriginPosition;
            b1 = b\<lparr>largest_radius := max (largest_radius b) dist\<rparr>
        in if dist > hex_radius b1 then Some (False, b1)
           else
             let old_pos = tile_positions b1 ! from_tile move;
                 b2 = (if old_pos = kNullPosition
                       then b1\<lparr>played_tiles := played_tiles b1 @ [from_tile move]\<rparr>
                       else b1);
                 b3 = (if new_pos \<noteq> old_pos then b2\<lparr>last_moved_from := old_pos\<rparr> else b2);
                 old_idx = AxialToIndex b3 old_pos;
                 new_idx = AxialToIndex b3 new_pos;
                 b4 = (if HasValue (tile_grid b3 ! new_idx)
                       then b3\<lparr>covered_tiles :=
                                cover_tile (tile_grid b3 ! new_idx) (covered_tiles b3)\<rparr>
                       else b3);
                 b5 = b4\<lparr> tile_grid := (tile_grid b4)[new_idx := from_tile move],
                          tile_positions := (tile_positions b4)[from_tile move := new_pos],
                          last_moved := from_tile move \<rparr>;
                 b6 = (if sint (H old_pos) > 0
                       then reinstate_covered b5 old_pos old_idx (length (covered_tiles b5))
                       else if old_pos \<noteq> kNullPosition
                       then b5\<lparr>tile_grid := (tile_grid b5)[old_idx := kNoneTile]\<rparr>
                       else b5);
                 b7 = UpdateInfluence b6 (GetColour (from_tile move));
                 b8 = (if sint (H old_pos) > 0 \<or> sint (H new_pos) > 0
                       then UpdateInfluence b7 (OtherColour (GetColour (from_tile move)))
                       else b7)
             in Some (True, UpdateArticulationPoints b8))"

definition Pass :: "HexBoard \<Rightarrow> HexBoard" where
  "Pass b = b\<lparr>last_moved := kNoneTile, last_moved_from := kNullPosition\<rparr>"

definition LastMovedTile :: "HexBoard \<Rightarrow> NewHiveTile" where
  "LastMovedTile b = last_moved b"

definition LastMovedFrom :: "HexBoard \<Rightarrow> HivePosition" where
  "LastMovedFrom b = last_moved_from b"

definition IsQueenSurrounded :: "HexBoard \<Rightarrow> Colour \<Rightarrow> bool" where
  "IsQueenSurrounded b c =
     (let queen = (if c = kWhite then wQ else bQ)
      in if \<not> IsInPlay b queen then False
         else list_all (\<lambda>neighbour_pos. GetTopTileAt b neighbour_pos \<noteq> kNoneTile)
                (Neighbours (tile_positions b ! queen)))"

section \<open>Move generation\<close>

subsection \<open>Slides\<close>

text \<open>
  The test made by both loops of the \<open>dfs\<close> closure of \<open>GenerateValidSlides\<close> on a
  direction: "all must be false to be a valid slide direction".
\<close>

definition slide_blocked :: "HexBoard \<Rightarrow> HivePosition \<Rightarrow> HivePosition \<Rightarrow> Direction \<Rightarrow> bool" where
  "slide_blocked b start_pos pos dir =
     (let to_test = pos_add pos (kNeighbourOffsets ! dir);
          test_tile = GetTopTileAt b to_test
      in HasValue test_tile \<or> IsGated b pos dir start_pos \<or> \<not> IsConnected b to_test start_pos)"

text \<open>The first loop of the closure ("validate positions breadth-first").\<close>

definition slide_scan ::
  "HexBoard \<Rightarrow> HivePosition \<Rightarrow> int \<Rightarrow> HivePosition list \<Rightarrow> HivePosition \<Rightarrow> Direction \<Rightarrow> int
     \<Rightarrow> HivePosition list \<Rightarrow> HivePosition list" where
  "slide_scan b start_pos distance visited pos from depth out =
     fold (\<lambda>dir out.
             let to_test = pos_add pos (kNeighbourOffsets ! dir)
             in if dir = from then out
                else if hs_contains visited to_test then out
                else if slide_blocked b start_pos pos dir then out
                else if depth = distance \<or> distance < 0 then hs_insert to_test out
                else out)
          [0 ..< kNumCardinalDirections] out"

text \<open>
  The closure \<open>dfs\<close> and its second loop ("traverse depth-first"). The pair is the state
  the closure captures by reference: the set \<open>out\<close> and the set \<open>visited\<close>.
  \<open>unlimited_distance\<close> is \<open>distance < 0\<close>.
\<close>

function slide_dfs ::
    "HexBoard \<Rightarrow> HivePosition \<Rightarrow> int \<Rightarrow> HivePosition list \<times> HivePosition list
       \<Rightarrow> HivePosition \<Rightarrow> Direction \<Rightarrow> int \<Rightarrow> HivePosition list \<times> HivePosition list"
  and slide_loop ::
    "HexBoard \<Rightarrow> HivePosition \<Rightarrow> int \<Rightarrow> HivePosition list \<times> HivePosition list
       \<Rightarrow> HivePosition \<Rightarrow> Direction \<Rightarrow> int \<Rightarrow> nat \<Rightarrow> HivePosition list \<times> HivePosition list"
where
  "slide_dfs b start_pos distance ov pos from depth =
     (if hs_contains (snd ov) pos \<or> (\<not> distance < 0 \<and> depth > distance) then ov
      else
        let out1 = slide_scan b start_pos distance (snd ov) pos from depth (fst ov)
        in if depth = distance then (out1, snd ov)
           else slide_loop b start_pos distance (out1, hs_insert pos (snd ov)) pos from depth 0)"
| "slide_loop b start_pos distance ov pos from depth dir =
     (if dir \<ge> kNumCardinalDirections then ov
      else
        let to_test = pos_add pos (kNeighbourOffsets ! dir)
        in if dir = from
           then slide_loop b start_pos distance ov pos from depth (dir + 1)
           else if hs_contains (snd ov) to_test
           then slide_loop b start_pos distance ov pos from depth (dir + 1)
           else if slide_blocked b start_pos pos dir
           then slide_loop b start_pos distance ov pos from depth (dir + 1)
           else
             let out1 = (if depth = distance \<or> distance < 0
                         then hs_insert to_test (fst ov) else fst ov);
                 ov2 = slide_dfs b start_pos distance (out1, snd ov) to_test
                         (OppositeDirection dir) (depth + 1);
                 visited3 = (if \<not> distance < 0 then hs_erase to_test (snd ov2) else snd ov2)
             in slide_loop b start_pos distance (fst ov2, visited3) pos from depth (dir + 1))"
  by pat_completeness auto

termination
proof -
  have slide_visited_grows:
    "slide_dfs_slide_loop_dom (Inl (b, start_pos, distance, ov, pos, from, depth)) \<Longrightarrow>
       distance < 0 \<Longrightarrow>
       set (snd ov) \<subseteq> set (snd (slide_dfs b start_pos distance ov pos from depth))"
    "slide_dfs_slide_loop_dom (Inr (b, start_pos, distance, ov, pos, from, depth, dir)) \<Longrightarrow>
       distance < 0 \<Longrightarrow>
       set (snd ov) \<subseteq> set (snd (slide_loop b start_pos distance ov pos from depth dir))"
    for b start_pos distance ov pos "from" depth dir
  proof (induction rule: slide_dfs_slide_loop.pinduct)
    case (1 b start_pos distance ov pos frm depth)
    then show ?case
      by (auto simp: slide_dfs.psimps Let_def)
  next
    case (2 b start_pos distance ov pos frm depth dir)
    note eq = slide_loop.psimps [OF "2.hyps"]
    note neg = \<open>distance < 0\<close>
    show ?case
    proof (cases "6 \<le> dir")
      case True
      then show ?thesis by (simp add: eq)
    next
      case nd: False
      define x where "x = pos_add pos (kNeighbourOffsets ! dir)"
      show ?thesis
      proof (cases "dir = frm")
        case True
        with "2.IH"(1) [OF nd x_def _ neg] show ?thesis
          using nd by (subst eq) (simp add: Let_def)
      next
        case nf: False
        show ?thesis
        proof (cases "hs_contains (snd ov) x")
          case True
          with "2.IH"(2) [OF nd x_def nf _ neg] show ?thesis
            using nd nf by (subst eq) (simp add: x_def [symmetric] Let_def)
        next
          case nv: False
          show ?thesis
          proof (cases "slide_blocked b start_pos pos dir")
            case True
            with "2.IH"(3) [OF nd x_def nf nv _ neg] show ?thesis
              using nd nf nv by (subst eq) (simp add: x_def [symmetric] Let_def)
          next
            case nb: False
            define out1 where
              "out1 = (if depth = distance \<or> distance < 0 then hs_insert x (fst ov) else fst ov)"
            define ov2 where
              "ov2 = slide_dfs b start_pos distance (out1, snd ov) x (OppositeDirection dir) (depth + 1)"
            have a: "set (snd ov) \<subseteq> set (snd ov2)"
              using "2.IH"(4) [OF nd x_def nf nv nb out1_def neg] by (simp add: ov2_def)
            have c: "set (snd ov2)
                    \<subseteq> set (snd (slide_loop b start_pos distance (fst ov2, snd ov2) pos frm depth (dir + 1)))"
              using "2.IH"(5) [OF nd x_def nf nv nb out1_def ov2_def refl neg] neg by simp
            have step: "slide_loop b start_pos distance ov pos frm depth dir
                    = slide_loop b start_pos distance (fst ov2, snd ov2) pos frm depth (dir + 1)"
              using nd nf nv nb neg
              by (subst eq) (simp add: Let_def x_def ov2_def out1_def)
            from a c show ?thesis unfolding step by (rule subset_trans)
          qed
        qed
      qed
    qed
  qed
  show ?thesis
  proof (relation "measure (\<lambda>x. case x of
            Inl (b, start_pos, distance, ov, pos, from, depth) \<Rightarrow>
              (if distance < 0 then 16 * unvisited (hs_insert pos (snd ov)) + 8
               else if distance \<le> depth then 0
               else 16 * nat (distance - depth) + 8)
          | Inr (b, start_pos, distance, ov, pos, from, depth, dir) \<Rightarrow>
              (if distance < 0 then 16 * unvisited (snd ov) + (7 - dir)
               else 16 * nat (distance - depth) + (7 - dir)))", goal_cases)
    case 1
    then show ?case by simp
  next
    case (2 b start_pos distance ov pos frm depth x)
    then show ?case by auto
  next
    case (3 b start_pos distance ov pos frm depth dir x)
    then show ?case by (simp; linarith)
  next
    case (4 b start_pos distance ov pos frm depth dir x)
    then show ?case by (simp; linarith)
  next
    case (5 b start_pos distance ov pos frm depth dir x)
    then show ?case by (simp; linarith)
  next
    case (6 b start_pos distance ov pos frm depth dir x xa)
    then have "x \<notin> set (snd ov)" by (simp add: hs_contains_def)
    from unvisited_insert [OF this] show ?case using 6 by auto
  next
    case (7 b start_pos distance ov pos frm depth dir x xa xb xc)
    show ?case
    proof (cases "distance < 0")
      case True
      have "unvisited (snd xb) \<le> unvisited (snd ov)"
        using slide_visited_grows(1) 7 True by (intro unvisited_mono) fastforce
      then show ?thesis using 7 True by (auto simp: Let_def)
    next
      case False
      then show ?thesis using 7 by simp
    qed
  qed
qed

text \<open>
  \<open>GenerateValidSlides\<close> adds the positions it finds to the set \<open>out\<close> of its caller.
\<close>

definition GenerateValidSlides ::
  "HexBoard \<Rightarrow> HivePosition list \<Rightarrow> NewHiveTile \<Rightarrow> HivePosition \<Rightarrow> int \<Rightarrow> HivePosition list" where
  "GenerateValidSlides b out tile start_pos distance =
     (if IsPinned b tile \<or> IsCovered b tile then out
      else fst (slide_dfs b start_pos distance (out, []) start_pos kNumAllDirections 1))"

subsection \<open>Climbs, jumps and the expansion pieces\<close>

definition GenerateValidClimbs ::
  "HexBoard \<Rightarrow> HivePosition list \<Rightarrow> NewHiveTile \<Rightarrow> HivePosition \<Rightarrow> HivePosition list" where
  "GenerateValidClimbs b out tile start_pos =
     (if IsPinned b tile \<or> IsCovered b tile then out
      else
        let ground_pos = Grounded start_pos
        in fold (\<lambda>d out.
             let neighbour = GetTopTileAt b (pos_add ground_pos (kNeighbourOffsets ! d))
             in if HasValue neighbour then
                  let to_pos = NeighbourAt (tile_positions b ! neighbour) kAbove
                  in if sint (H to_pos) > sint (H start_pos)
                        \<and> \<not> IsGated b (HivePosition (Q start_pos) (R start_pos) (H to_pos)) d
                              kNullPosition
                     then hs_insert to_pos out
                     else if sint (H to_pos) \<le> sint (H start_pos)
                        \<and> \<not> IsGated b start_pos d kNullPosition
                     then hs_insert to_pos out
                     else out
                else
                  let to_pos = pos_add ground_pos (kNeighbourOffsets ! d)
                  in if sint (H to_pos) < sint (H start_pos)
                        \<and> \<not> IsGated b start_pos d kNullPosition
                     then hs_insert to_pos out
                     else out)
           [0 ..< kNumCardinalDirections] out)"

text \<open>
  The \<open>while\<close> loop of the grasshopper walks over occupied cells in one direction. The
  first argument bounds the number of cells it looks at: after 256 steps an \<open>int8_t\<close>
  position is back where the walk started, so a walk that has found 256 occupied cells in
  a row never ends, which is the result \<open>None\<close>.
\<close>

fun grasshopper_walk ::
  "nat \<Rightarrow> HexBoard \<Rightarrow> HivePosition \<Rightarrow> Direction \<Rightarrow> bool \<Rightarrow> (HivePosition \<times> bool) option" where
  "grasshopper_walk 0 b to_test d found = None"
| "grasshopper_walk (Suc n) b to_test d found =
     (if HasValue (GetTopTileAt b to_test)
      then grasshopper_walk n b (pos_add to_test (kNeighbourOffsets ! d)) d True
      else Some (to_test, found))"

fun fold_option :: "('a \<Rightarrow> 'b \<Rightarrow> 'b option) \<Rightarrow> 'a list \<Rightarrow> 'b \<Rightarrow> 'b option" where
  "fold_option f [] acc = Some acc"
| "fold_option f (x # xs) acc =
     (case f x acc of None \<Rightarrow> None | Some acc' \<Rightarrow> fold_option f xs acc')"

lemma fold_option_cong [fundef_cong]:
  "xs = ys \<Longrightarrow> a = c \<Longrightarrow> (\<And>x acc. x \<in> set ys \<Longrightarrow> f x acc = g x acc)
     \<Longrightarrow> fold_option f xs a = fold_option g ys c"
  by (induction ys arbitrary: xs a c) (auto split: option.splits)

definition GenerateValidGrasshopperPositions ::
  "HexBoard \<Rightarrow> HivePosition list \<Rightarrow> NewHiveTile \<Rightarrow> HivePosition \<Rightarrow> HivePosition list option" where
  "GenerateValidGrasshopperPositions b out tile start_pos =
     (if IsPinned b tile \<or> IsCovered b tile then Some out
      else fold_option (\<lambda>d out.
             case grasshopper_walk 256 b (pos_add start_pos (kNeighbourOffsets ! d)) d False of
               None \<Rightarrow> None
             | Some (to_test, found) \<Rightarrow> Some (if found then hs_insert to_test out else out))
           [0 ..< kNumCardinalDirections] out)"

definition GenerateValidLadybugPositions ::
  "HexBoard \<Rightarrow> HivePosition list \<Rightarrow> NewHiveTile \<Rightarrow> HivePosition \<Rightarrow> HivePosition list" where
  "GenerateValidLadybugPositions b out tile start_pos =
     (if IsPinned b tile \<or> IsCovered b tile then out
      else
        let intermediates1 = GenerateValidClimbs b [] tile start_pos;
            intermediates2 =
              fold (\<lambda>pos acc. GenerateValidClimbs b acc tile pos) intermediates1 [];
            intermediates3 =
              fold (\<lambda>pos acc.
                      if H pos = 0 \<or> pos = pos_add start_pos (kNeighbourOffsets ! kAbove)
                      then acc
                      else GenerateValidClimbs b acc tile pos)
                   intermediates2 []
        in fold (\<lambda>pos out. if H pos = 0 then hs_insert pos out else out) intermediates3 out)"

definition GenerateValidPillbugSpecials ::
  "HexBoard \<Rightarrow> Move list \<Rightarrow> NewHiveTile \<Rightarrow> HivePosition \<Rightarrow> Move list" where
  "GenerateValidPillbugSpecials b out tile start_pos =
     (if IsCovered b tile then out
      else
        let (valid_targets, valid_positions) =
              fold (\<lambda>dir (valid_targets, valid_positions).
                      if IsGated b (pos_add start_pos (kNeighbourOffsets ! kAbove)) dir
                           kNullPosition
                      then (valid_targets, valid_positions)
                      else
                        let test_pos = pos_add start_pos (kNeighbourOffsets ! dir);
                            test_tile = GetTopTileAt b (pos_add start_pos (kNeighbourOffsets ! dir))
                        in if HasValue test_tile then
                             if \<not> IsPinned b test_tile \<and> \<not> IsCovered b test_tile
                                \<and> test_tile \<noteq> LastMovedTile b
                                \<and> H (GetPositionOf b test_tile) = 0
                             then (valid_targets @ [test_tile], valid_positions)
                             else (valid_targets, valid_positions)
                           else (valid_targets, valid_positions @ [test_pos]))
                   [0 ..< kNumCardinalDirections] ([], [])
        in fold (\<lambda>target_tile out.
                   fold (\<lambda>target_pos out.
                           fold (\<lambda>dir out.
                                   let ref_tile = GetTopTileAt b
                                         (pos_add target_pos (kNeighbourOffsets ! dir))
                                   in if HasValue ref_tile \<and> ref_tile \<noteq> target_tile
                                      then out @ [\<lparr> from_tile = target_tile, to_tile = ref_tile,
                                                     direction = OppositeDirection dir \<rparr>]
                                      else out)
                                [0 ..< kNumCardinalDirections] out)
                        valid_positions out)
                valid_targets out)"

text \<open>
  The last loop of \<open>GenerateMovesFor\<close>: "turn each position into moves by finding
  neighbouring tiles as reference".
\<close>

definition position_to_moves ::
  "HexBoard \<Rightarrow> NewHiveTile \<Rightarrow> HivePosition \<Rightarrow> HivePosition \<Rightarrow> Move list \<Rightarrow> Move list" where
  "position_to_moves b tile start_pos to_pos out =
     (if sint (H to_pos) > 0
      then out @ [\<lparr> from_tile = tile, to_tile = GetTopTileAt b to_pos, direction = kAbove \<rparr>]
      else fold (\<lambda>dir out.
             let neighbour = GetTopTileAt b (pos_add to_pos (kNeighbourOffsets ! dir))
             in if HasValue neighbour then
                  if sint (H start_pos) > 0 \<and> neighbour = tile
                  then out @ [\<lparr> from_tile = tile, to_tile = GetTileBelow b start_pos,
                                 direction = OppositeDirection dir \<rparr>]
                  else if neighbour \<noteq> tile
                  then out @ [\<lparr> from_tile = tile, to_tile = neighbour,
                                 direction = OppositeDirection dir \<rparr>]
                  else out
                else out)
           [0 ..< kNumCardinalDirections] out)"

text \<open>
  \<open>GenerateMovesFor\<close> and \<open>GenerateValidMosquitoPositions\<close> call each other: the
  Mosquito acts as the bug types of its neighbours, never as a Mosquito. The result is
  \<open>None\<close> when a grasshopper walk does not end.
\<close>

function GenerateMovesFor ::
    "HexBoard \<Rightarrow> Move list \<Rightarrow> NewHiveTile \<Rightarrow> BugType \<Rightarrow> Colour \<Rightarrow> Move list option"
  and GenerateValidMosquitoPositions ::
    "HexBoard \<Rightarrow> Move list \<Rightarrow> NewHiveTile \<Rightarrow> HivePosition \<Rightarrow> Colour \<Rightarrow> Move list option"
where
  "GenerateMovesFor b out tile acting_type to_move =
     (let start_pos = tile_positions b ! tile
      in case (case acting_type of
                 kQueen \<Rightarrow> Some (out, GenerateValidSlides b [] tile start_pos 1)
               | kAnt \<Rightarrow> Some (out, GenerateValidSlides b [] tile start_pos (- 1))
               | kGrasshopper \<Rightarrow>
                   map_option (Pair out) (GenerateValidGrasshopperPositions b [] tile start_pos)
               | kSpider \<Rightarrow> Some (out, GenerateValidSlides b [] tile start_pos 3)
               | kBeetle \<Rightarrow>
                   (let positions = GenerateValidClimbs b [] tile start_pos
                    in Some (out, if H start_pos = 0
                                  then GenerateValidSlides b positions tile start_pos 1
                                  else positions))
               | kMosquito \<Rightarrow>
                   map_option (\<lambda>out. (out, []))
                     (GenerateValidMosquitoPositions b out tile start_pos to_move)
               | kLadybug \<Rightarrow> Some (out, GenerateValidLadybugPositions b [] tile start_pos)
               | kPillbug \<Rightarrow>
                   (let positions = GenerateValidSlides b [] tile start_pos 1
                    in Some (GenerateValidPillbugSpecials b out tile start_pos, positions))
               | kNone \<Rightarrow> Some (out, []))
         of None \<Rightarrow> None
          | Some (out, positions) \<Rightarrow>
              Some (fold (position_to_moves b tile start_pos) positions out))"
| "GenerateValidMosquitoPositions b out tile start_pos to_move =
     (if IsCovered b tile then Some out
      else if sint (H start_pos) > 0 then GenerateMovesFor b out tile kBeetle to_move
      else
        map_option snd
          (fold_option (\<lambda>neighbour (types_seen, out).
               let type = GetBugType neighbour
               in if \<not> types_seen type then
                    if type = kMosquito then Some (types_seen(type := True), out)
                    else if (type = kQueen \<or> type = kSpider) \<and> (types_seen(type := True)) kAnt
                    then Some (types_seen(type := True), out)
                    else map_option (Pair (types_seen(type := True)))
                           (GenerateMovesFor b out tile type to_move)
                  else Some (types_seen, out))
             (NeighboursOf b start_pos kNullPosition) (\<lambda>_. False, out)))"
  by pat_completeness auto
termination
  by (relation "measure (\<lambda>x. case x of
          Inl (b, out, tile, acting_type, to_move) \<Rightarrow> (if acting_type = kMosquito then 2 else 0)
        | Inr (b, out, tile, start_pos, to_move) \<Rightarrow> 1)") auto

subsection \<open>Placements and the list of all moves\<close>

text \<open>
  The two inner loops of the placement of a tile after the second move: over the positions
  under the influence of the colour to move ("check all positions for validity"), and over
  the six neighbours of such a position ("any neighbouring tile can be used as the
  reference").
\<close>

definition placement_references ::
  "HexBoard \<Rightarrow> NewHiveTile \<Rightarrow> HivePosition \<Rightarrow> Move list \<Rightarrow> Move list" where
  "placement_references b tile pos out =
     fold (\<lambda>i out.
             let to_pos = pos_add pos (kNeighbourOffsets ! i);
                 neighbour = GetTopTileAt b to_pos
             in if HasValue neighbour
                then out @ [\<lparr> from_tile = tile, to_tile = neighbour,
                               direction = OppositeDirection i \<rparr>]
                else out)
          [0 ..< kNumCardinalDirections] out"

definition placement_positions ::
  "HexBoard \<Rightarrow> Colour \<Rightarrow> NewHiveTile \<Rightarrow> Move list \<Rightarrow> Move list" where
  "placement_positions b to_move tile out =
     fold (\<lambda>pos out.
             if HasValue (GetTopTileAt b pos) then out
             else if hs_contains (colour_influence b ! colour_idx (OtherColour to_move)) pos
             then out
             else placement_references b tile pos out)
          (colour_influence b ! colour_idx to_move) out"

definition GeneratePlacementMoves :: "HexBoard \<Rightarrow> Move list \<Rightarrow> Colour \<Rightarrow> nat \<Rightarrow> Move list" where
  "GeneratePlacementMoves b out to_move move_number =
     (if move_number = 0 then
        fold (\<lambda>tile out.
                if GetBugType tile = kQueen then out
                else out @ [\<lparr> from_tile = tile, to_tile = kNoneTile, direction = kAbove \<rparr>])
             (GetTilesForColour to_move) out
      else if move_number = 1 then
        fold (\<lambda>tile out.
                if GetBugType tile = kQueen then out
                else fold (\<lambda>i out. out @ [\<lparr> from_tile = tile, to_tile = hd (played_tiles b),
                                               direction = i \<rparr>])
                          [0 ..< kNumCardinalDirections] out)
             (GetTilesForColour to_move) out
      else
        let queen_placed = (move_number \<ge> 8 \<or> IsInPlay b (if to_move = kWhite then wQ else bQ))
        in fold (\<lambda>tile out.
                   if IsInPlay b tile then out
                   else if (move_number = 6 \<or> move_number = 7) \<and> \<not> queen_placed
                           \<and> GetBugType tile \<noteq> kQueen
                   then out
                   else placement_positions b to_move tile out)
                (GetTilesForColour to_move) out)"

definition GenerateAllMoves :: "HexBoard \<Rightarrow> Move list \<Rightarrow> Colour \<Rightarrow> nat \<Rightarrow> Move list option" where
  "GenerateAllMoves b out_vec to_move move_number =
     (let out_vec = GeneratePlacementMoves b out_vec to_move move_number
      in if IsInPlay b (GetTileFrom to_move kQueen 1)
         then fold_option (\<lambda>tile out_vec.
                  if GetColour tile = to_move \<and> tile \<noteq> last_moved b
                  then GenerateMovesFor b out_vec tile (GetBugType tile) to_move
                  else Some out_vec)
                (played_tiles b) out_vec
         else Some out_vec)"

section \<open>UHP strings (hive_hexboard.cc, hive.cc)\<close>

text \<open>Decimal digits, as \<open>absl::StrAppend\<close> and \<open>%d\<close> print a non-negative number.\<close>

function show_nat :: "nat \<Rightarrow> string" where
  "show_nat n = (if n < 10 then [''0123456789'' ! n]
                 else show_nat (n div 10) @ [''0123456789'' ! (n mod 10)])"
  by pat_completeness auto
termination
  by (relation "measure id") auto

declare show_nat.simps [simp del]

text \<open>
  \<open>NewHiveTile::ToUHP\<close>; \<open>None\<close> is the failure of \<open>SPIEL_CHECK_TRUE(HasValue())\<close>.
\<close>

definition Tile_ToUHP :: "NewHiveTile \<Rightarrow> string option" where
  "Tile_ToUHP t =
     (if \<not> HasValue t then None
      else
        let type = GetBugType t
        in Some ((if GetColour t = kWhite then ''w'' else ''b'')
                 @ (case type of kQueen \<Rightarrow> ''Q'' | kAnt \<Rightarrow> ''A'' | kGrasshopper \<Rightarrow> ''G''
                      | kSpider \<Rightarrow> ''S'' | kBeetle \<Rightarrow> ''B'' | kLadybug \<Rightarrow> ''L''
                      | kMosquito \<Rightarrow> ''M'' | kPillbug \<Rightarrow> ''P'' | kNone \<Rightarrow> [])
                 @ (if type = kAnt \<or> type = kGrasshopper \<or> type = kSpider \<or> type = kBeetle
                    then show_nat (GetOrdinal t) else [])))"

abbreviation (input) backslash :: char where "backslash \<equiv> CHR 0x5C"

text \<open>
  \<open>Move::ToUHP\<close>; \<open>None\<close> is a failed check of a tile or the \<open>SpielFatalError\<close> of a
  direction that is none of the seven.
\<close>

definition Move_ToUHP :: "Move \<Rightarrow> string option" where
  "Move_ToUHP m =
     (if IsPass m then Some ''pass''
      else if \<not> HasValue (to_tile m) then Tile_ToUHP (from_tile m)
      else
        case Tile_ToUHP (to_tile m) of
          None \<Rightarrow> None
        | Some reference_tile_uhp \<Rightarrow>
            (case (if direction m = kNE then Some (reference_tile_uhp @ ''/'')
                   else if direction m = kE then Some (reference_tile_uhp @ ''-'')
                   else if direction m = kSE then Some (reference_tile_uhp @ [backslash])
                   else if direction m = kSW then Some (''/'' @ reference_tile_uhp)
                   else if direction m = kW then Some (''-'' @ reference_tile_uhp)
                   else if direction m = kNW then Some ([backslash] @ reference_tile_uhp)
                   else if direction m = kAbove then Some reference_tile_uhp
                   else None) of
               None \<Rightarrow> None
             | Some offset_formatted \<Rightarrow>
                 (case Tile_ToUHP (from_tile m) of
                    None \<Rightarrow> None
                  | Some from_uhp \<Rightarrow> Some (from_uhp @ '' '' @ offset_formatted))))"

text \<open>\<open>UHPToTile\<close> looks the name up in a table; a name that is not in it fails the check.\<close>

definition UHPToTile :: "string \<Rightarrow> NewHiveTile option" where
  "UHPToTile uhp = map_of
     [(''wQ'', wQ), (''wA1'', wA1), (''wA2'', wA2), (''wA3'', wA3),
      (''wG1'', wG1), (''wG2'', wG2), (''wG3'', wG3), (''wS1'', wS1), (''wS2'', wS2),
      (''wB1'', wB1), (''wB2'', wB2), (''wM'', wM), (''wL'', wL), (''wP'', wP),
      (''bQ'', bQ), (''bA1'', bA1), (''bA2'', bA2), (''bA3'', bA3),
      (''bG1'', bG1), (''bG2'', bG2), (''bG3'', bG3), (''bS1'', bS1), (''bS2'', bS2),
      (''bB1'', bB1), (''bB2'', bB2), (''bM'', bM), (''bL'', bL), (''bP'', bP)] uhp"

text \<open>\<open>absl::StrSplit\<close> on one character and \<open>absl::StrJoin\<close>.\<close>

fun StrSplit :: "string \<Rightarrow> char \<Rightarrow> string list" where
  "StrSplit [] c = [[]]"
| "StrSplit (x # xs) c =
     (if x = c then [] # StrSplit xs c
      else (x # hd (StrSplit xs c)) # tl (StrSplit xs c))"

fun StrJoin :: "string list \<Rightarrow> string \<Rightarrow> string" where
  "StrJoin [] sep = []"
| "StrJoin [x] sep = x"
| "StrJoin (x # y # ys) sep = x @ sep @ StrJoin (y # ys) sep"

section \<open>The game state (class HiveState) and the game (class HiveGame)\<close>

text \<open>
  \<open>Action\<close> is \<open>int64_t\<close>. The divisions of \<open>ActionToMove\<close> are those of C++,
  which round towards zero.
\<close>

type_synonym Action = int

definition c_div :: "int \<Rightarrow> int \<Rightarrow> int" where
  "c_div a b = sgn a * sgn b * (\<bar>a\<bar> div \<bar>b\<bar>)"

definition c_mod :: "int \<Rightarrow> int \<Rightarrow> int" where
  "c_mod a b = a - b * c_div a b"

definition kNumPlayers :: int where "kNumPlayers = 2"
definition kDefaultNumBugTypes :: int where "kDefaultNumBugTypes = 5"
definition kDefaultUHPGameType :: string where "kDefaultUHPGameType = ''Base+PLM''"
definition kUHPNotStarted :: string where "kUHPNotStarted = ''NotStarted''"
definition kUHPInProgress :: string where "kUHPInProgress = ''InProgress''"
definition kUHPWhiteWins :: string where "kUHPWhiteWins = ''WhiteWins''"
definition kUHPBlackWins :: string where "kUHPBlackWins = ''BlackWins''"
definition kUHPDraw :: string where "kUHPDraw = ''Draw''"

definition NumDistinctActions :: int where "NumDistinctActions = 5488 + 1"
definition MaxGameLength :: nat where "MaxGameLength = 1000"

definition PassAction :: Action where "PassAction = NumDistinctActions - 1"

record ExpansionInfo =
  uses_mosquito :: bool
  uses_ladybug :: bool
  uses_pillbug :: bool

text \<open>
  The members of \<open>HiveState\<close>, and the two members of the framework's \<open>State\<close> that
  the game reads: the number of actions applied so far and their list.
\<close>

record HiveState =
  current_player :: Player
  board :: HexBoard
  expansions :: ExpansionInfo
  num_bug_types :: int
  force_terminal :: bool
  move_number :: nat
  history :: "Action list"

definition HiveState_new :: "int \<Rightarrow> ExpansionInfo \<Rightarrow> int \<Rightarrow> HiveState" where
  "HiveState_new board_size exp_info n_bug_types =
     \<lparr> current_player = kPlayerWhite,
       board = HexBoard_new board_size (uses_mosquito exp_info) (uses_ladybug exp_info)
                 (uses_pillbug exp_info),
       expansions = exp_info,
       num_bug_types = n_bug_types,
       force_terminal = False,
       move_number = 0,
       history = [] \<rparr>"

definition MoveToAction :: "Move \<Rightarrow> Action" where
  "MoveToAction move =
     (if IsPass move then PassAction
      else
        let from = int (from_tile move)
        in if \<not> HasValue (to_tile move)
           then from * (28 * int kNumAllDirections) + from * int kNumAllDirections + int kAbove
           else from * (28 * int kNumAllDirections) + int (to_tile move) * int kNumAllDirections
                  + int (direction move))"

text \<open>
  \<open>ActionToMove\<close>: the three numbers are narrowed to \<open>uint8_t\<close> by the constructor of
  the move. The direction of the pass move is left uninitialised by the code.
\<close>

definition ActionToMove :: "Action \<Rightarrow> Move" where
  "ActionToMove action =
     (if action = PassAction
      then \<lparr> from_tile = kNoneTile, to_tile = kNoneTile, direction = undefined \<rparr>
      else
        let direction = c_mod action (int kNumAllDirections);
            to = c_mod (c_div action (int kNumAllDirections)) 28;
            from = c_div action (28 * int kNumAllDirections);
            to = (if from = to \<and> direction = int kAbove then int kNoneTile else to)
        in \<lparr> from_tile = nat (from mod 256), to_tile = nat (to mod 256),
             direction = nat (direction mod 256) \<rparr>)"

definition ActionToString :: "Player \<Rightarrow> Action \<Rightarrow> string option" where
  "ActionToString player action_id = Move_ToUHP (ActionToMove action_id)"

text \<open>
  \<open>StringToAction\<close>; \<open>None\<close> is a failed check, the fatal error, or the exception of
  \<open>substr\<close> on a reference that consists of direction characters only. Reading the first
  character of an empty reference is undefined in C++ and is a failure here.
\<close>

definition is_direction_char :: "char \<Rightarrow> bool" where
  "is_direction_char c \<longleftrightarrow> c = backslash \<or> c = CHR ''-'' \<or> c = CHR ''/''"

text \<open>
  "Get second bug and its relative direction": the first character of the reference
  decides, then the last one, and without either the direction is \<open>kAbove\<close>.
\<close>

definition reference_direction :: "string \<Rightarrow> Direction" where
  "reference_direction ref =
     (let c = hd ref;
          dir = (if c = backslash then kNW
                 else if c = CHR ''-'' then kW
                 else if c = CHR ''/'' then kSW
                 else kNumAllDirections);
          c = last ref;
          dir = (if dir = kNumAllDirections
                 then (if c = backslash then kSE
                       else if c = CHR ''-'' then kE
                       else if c = CHR ''/'' then kNE
                       else dir)
                 else dir)
      in if dir = kNumAllDirections then kAbove else dir)"

text \<open>
  "Now extract just the bug + ordinal from string": the text between the first and the
  last character that is no direction character (\<open>find_first_not_of\<close>,
  \<open>find_last_not_of\<close>, \<open>substr\<close>).
\<close>

definition reference_tile_name :: "string \<Rightarrow> string option" where
  "reference_tile_name ref =
     (let start_index = length (takeWhile is_direction_char ref);
          end_index = length ref - 1 - length (takeWhile is_direction_char (rev ref))
      in if start_index = length ref then None
         else Some (take (end_index - start_index + 1) (drop start_index ref)))"

definition StringToAction :: "Player \<Rightarrow> string \<Rightarrow> Action option" where
  "StringToAction player move_str =
     (if move_str = ''pass'' then Some PassAction
      else
        let bugs = StrSplit move_str (CHR '' '')
        in if \<not> length bugs > 0 then None
           else if \<not> length bugs \<le> 2 then None
           else
             case UHPToTile (bugs ! 0) of
               None \<Rightarrow> None
             | Some from \<Rightarrow>
                 if \<not> HasValue from then None
                 else if length bugs = 1
                 then Some (MoveToAction \<lparr> from_tile = from, to_tile = kNoneTile,
                                            direction = kNumAllDirections \<rparr>)
                 else if bugs ! 1 = [] then None
                 else
                   case reference_tile_name (bugs ! 1) of
                     None \<Rightarrow> None
                   | Some name \<Rightarrow>
                       (case UHPToTile name of
                          None \<Rightarrow> None
                        | Some to \<Rightarrow>
                            Some (MoveToAction \<lparr> from_tile = from, to_tile = to,
                                    direction = reference_direction (bugs ! 1) \<rparr>)))"

definition WinConditionMet :: "HiveState \<Rightarrow> Player \<Rightarrow> bool" where
  "WinConditionMet s player = IsQueenSurrounded (board s) (OtherColour (PlayerToColour player))"

definition IsTerminal :: "HiveState \<Rightarrow> bool" where
  "IsTerminal s \<longleftrightarrow>
     WinConditionMet s kPlayerWhite \<or> WinConditionMet s kPlayerBlack
     \<or> move_number s \<ge> MaxGameLength \<or> force_terminal s"

text \<open>\<open>Returns\<close>: the values are the \<open>double\<close>s 1, -1 and 0.\<close>

definition Returns :: "HiveState \<Rightarrow> int list" where
  "Returns s =
     (let white_winner = WinConditionMet s kPlayerWhite;
          black_winner = WinConditionMet s kPlayerBlack
      in if white_winner \<noteq> black_winner
         then [if white_winner then 1 else - 1, if black_winner then 1 else - 1]
         else [0, 0])"

text \<open>
  \<open>LegalActions\<close>: the actions of the generated moves go through a \<open>std::set\<close>, which
  sorts them and drops duplicates.
\<close>

definition LegalActions :: "HiveState \<Rightarrow> Action list option" where
  "LegalActions s =
     (case GenerateAllMoves (board s) [] (PlayerToColour (current_player s)) (move_number s) of
        None \<Rightarrow> None
      | Some moves \<Rightarrow>
          let actions = sort (remdups (map MoveToAction moves))
          in Some (if length actions = 0 then actions @ [PassAction] else actions))"

definition ProgressString :: "HiveState \<Rightarrow> string" where
  "ProgressString s =
     (if move_number s = 0 then kUHPNotStarted
      else if move_number s > MaxGameLength then kUHPDraw
      else
        let white_winner = WinConditionMet s kPlayerWhite;
            black_winner = WinConditionMet s kPlayerBlack
        in if white_winner \<noteq> black_winner
           then (if white_winner then kUHPWhiteWins else kUHPBlackWins)
           else if white_winner \<and> black_winner then kUHPDraw
           else kUHPInProgress)"

definition TurnString :: "HiveState \<Rightarrow> string" where
  "TurnString s =
     (if current_player s = kPlayerWhite then ''White'' else ''Black'')
     @ ''['' @ show_nat ((move_number s + 2) div 2) @ '']''"

text \<open>
  \<open>MovesString\<close> joins the strings of the actions of the history (the framework's
  \<open>ActionsToStrings\<close> calls \<open>ActionToString\<close> on each).
\<close>

fun ActionsToStrings :: "Action list \<Rightarrow> string list option" where
  "ActionsToStrings [] = Some []"
| "ActionsToStrings (a # as) =
     (case ActionToString kPlayerWhite a of
        None \<Rightarrow> None
      | Some str \<Rightarrow> map_option ((#) str) (ActionsToStrings as))"

definition MovesString :: "HiveState \<Rightarrow> string option" where
  "MovesString s = map_option (\<lambda>strs. StrJoin strs '';'') (ActionsToStrings (history s))"

definition Serialize :: "HiveState \<Rightarrow> string option" where
  "Serialize s =
     map_option (\<lambda>moves. StrJoin [kDefaultUHPGameType, ProgressString s, TurnString s, moves] '';'')
       (MovesString s)"

text \<open>\<open>DoApplyAction\<close>; \<open>None\<close> is the failed check of \<open>MoveTile\<close>.\<close>

definition DoApplyAction :: "HiveState \<Rightarrow> Action \<Rightarrow> HiveState option" where
  "DoApplyAction s action =
     map_option (\<lambda>s. s\<lparr>current_player := (current_player s + 1) mod kNumPlayers\<rparr>)
       (if action = PassAction then Some (s\<lparr>board := Pass (board s)\<rparr>)
        else
          case MoveTile (board s) (ActionToMove action) of
            None \<Rightarrow> None
          | Some (success, b) \<Rightarrow>
              Some (if \<not> success then s\<lparr>board := b, force_terminal := True\<rparr>
                    else s\<lparr>board := b\<rparr>))"

text \<open>
  Modelled from the spec: \<open>State::ApplyAction\<close> of the framework is not part of the
  sources of the game. It calls \<open>DoApplyAction\<close>, appends the action to the history and
  counts the move (\<open>move_number\<close> is the number of actions applied).
\<close>

definition ApplyAction :: "HiveState \<Rightarrow> Action \<Rightarrow> HiveState option" where
  "ApplyAction s action =
     map_option (\<lambda>s'. s'\<lparr>history := history s' @ [action], move_number := move_number s' + 1\<rparr>)
       (DoApplyAction s action)"

record GameParameters =
  param_board_size :: int
  param_m :: bool
  param_l :: bool
  param_p :: bool

record HiveGame =
  board_radius :: int
  game_num_bug_types :: int
  game_expansions :: ExpansionInfo

text \<open>The constructor of the game sets the radius to \<open>kDefaultBoardRadius\<close>.\<close>

definition HiveGame_new :: "GameParameters \<Rightarrow> HiveGame" where
  "HiveGame_new params =
     \<lparr> board_radius = kDefaultBoardRadius,
       game_num_bug_types = kDefaultNumBugTypes
         + (if param_m params then 1 else 0)
         + (if param_l params then 1 else 0)
         + (if param_p params then 1 else 0),
       game_expansions = \<lparr> uses_mosquito = param_m params, uses_ladybug = param_l params,
                            uses_pillbug = param_p params \<rparr> \<rparr>"

definition NewInitialState :: "HiveGame \<Rightarrow> HiveState" where
  "NewInitialState g = HiveState_new (board_radius g) (game_expansions g) (game_num_bug_types g)"

definition DeserializeState :: "HiveGame \<Rightarrow> string \<Rightarrow> HiveState" where
  "DeserializeState g str = NewInitialState g"

section \<open>Properties named by the specification\<close>

text \<open>
  A Queen is surrounded, in the words of the specification: the Queen of that colour is in
  play and all six cardinal neighbours of its cell are occupied.
\<close>

definition queen_surrounded :: "HexBoard \<Rightarrow> Colour \<Rightarrow> bool" where
  "queen_surrounded b c \<longleftrightarrow>
     (let queen = GetTileFrom c kQueen 1
      in GetPositionOf b queen \<noteq> kNullPosition
         \<and> (\<forall>d < kNumCardinalDirections.
               GetTopTileAt b (NeighbourAt (GetPositionOf b queen) d) \<noteq> kNoneTile))"

text \<open>
  The game-type string in the words of the specification: \<open>Base\<close>, optionally followed by
  \<open>+\<close> and the letters of the enabled expansions, \<open>M\<close> before \<open>L\<close> before \<open>P\<close>.
\<close>

definition spec_game_type_string :: "ExpansionInfo \<Rightarrow> string" where
  "spec_game_type_string e =
     ''Base''
     @ (if uses_mosquito e \<or> uses_ladybug e \<or> uses_pillbug e then ''+'' else [])
     @ (if uses_mosquito e then ''M'' else [])
     @ (if uses_ladybug e then ''L'' else [])
     @ (if uses_pillbug e then ''P'' else [])"

text \<open>The first of the fields of a session string: the text before the first \<open>;\<close>.\<close>

definition first_field :: "string \<Rightarrow> string" where
  "first_field str = takeWhile (\<lambda>c. c \<noteq> CHR '';'') str"

text \<open>
  What the round trip needs of the UHP name of a tile: the name exists, it is not empty,
  it holds neither a direction character nor a space, and the table maps it back to the
  tile.
\<close>

definition tile_name_ok :: "NewHiveTile \<Rightarrow> bool" where
  "tile_name_ok t =
     (case Tile_ToUHP t of
        None \<Rightarrow> False
      | Some n \<Rightarrow> n \<noteq> [] \<and> list_all (\<lambda>c. \<not> is_direction_char c \<and> c \<noteq> CHR '' '') n
                  \<and> n \<noteq> ''pass'' \<and> UHPToTile n = Some t)"

section \<open>A game of six moves\<close>

text \<open>
  The default game, and the states of the game \<open>wG1; bG1 wG1-; wA1 -wG1; bQ bG1-;
  wA2 -wA1; bG1 -wA2\<close> played from its initial state, written out: \<open>game_s1\<close> is the
  state after the first move and \<open>game_s6\<close> the state after the sixth. The cell \<open>(q, r)\<close>
  of the board of radius 8 has the index \<open>q + 8 + 17 * (r + 8)\<close> in the grid.
\<close>

definition default_game :: HiveGame where
  "default_game = HiveGame_new \<lparr> param_board_size = 8, param_m = True, param_l = True,
                                 param_p = True \<rparr>"

definition game_s1 :: HiveState where
  "game_s1 =
     \<lparr> current_player = 1,
       board =
         \<lparr> hex_radius = 8, num_tiles = 28,
           tile_grid = (replicate 289 kNoneTile)[144 := wG1],
           played_tiles = [wG1],
           tile_positions = (replicate 28 kNullPosition)[wG1 := HivePosition 0 0 0],
           covered_tiles = replicate 7 kNoneTile,
           articulation_points = [],
           largest_radius = 0,
           last_moved = wG1,
           last_moved_from = HivePosition 0 0 (- 1),
           colour_influence =
             [[HivePosition 1 (- 1) 0, HivePosition 1 0 0, HivePosition 0 1 0,
              HivePosition (- 1) 1 0, HivePosition (- 1) 0 0, HivePosition 0 (- 1) 0],
              []] \<rparr>,
       expansions = \<lparr> uses_mosquito = True, uses_ladybug = True,
         uses_pillbug = True \<rparr>,
       num_bug_types = 8,
       force_terminal = False,
       move_number = 1,
       history = [818] \<rparr>"

definition game_s2 :: HiveState where
  "game_s2 =
     \<lparr> current_player = 0,
       board =
         \<lparr> hex_radius = 8, num_tiles = 28,
           tile_grid = (replicate 289 kNoneTile)[144 := wG1, 145 := bG1],
           played_tiles = [wG1, bG1],
           tile_positions = (replicate 28 kNullPosition)[wG1 := HivePosition 0 0 0,
                             bG1 := HivePosition 1 0 0],
           covered_tiles = replicate 7 kNoneTile,
           articulation_points = [],
           largest_radius = 1,
           last_moved = bG1,
           last_moved_from = HivePosition 0 0 (- 1),
           colour_influence =
             [[HivePosition 1 (- 1) 0, HivePosition 1 0 0, HivePosition 0 1 0,
              HivePosition (- 1) 1 0, HivePosition (- 1) 0 0, HivePosition 0 (- 1) 0],
              [HivePosition 2 (- 1) 0, HivePosition 2 0 0, HivePosition 1 1 0,
               HivePosition 0 1 0, HivePosition 0 0 0, HivePosition 1 (- 1) 0]] \<rparr>,
       expansions = \<lparr> uses_mosquito = True, uses_ladybug = True,
         uses_pillbug = True \<rparr>,
       num_bug_types = 8,
       force_terminal = False,
       move_number = 2,
       history = [818, 3557] \<rparr>"

definition game_s3 :: HiveState where
  "game_s3 =
     \<lparr> current_player = 1,
       board =
         \<lparr> hex_radius = 8, num_tiles = 28,
           tile_grid = (replicate 289 kNoneTile)[143 := wA1, 144 := wG1, 145 := bG1],
           played_tiles = [wG1, bG1, wA1],
           tile_positions = (replicate 28 kNullPosition)[wA1 := HivePosition (- 1) 0 0,
                             wG1 := HivePosition 0 0 0, bG1 := HivePosition 1 0 0],
           covered_tiles = replicate 7 kNoneTile,
           articulation_points = [HivePosition 0 0 (- 1)],
           largest_radius = 1,
           last_moved = wA1,
           last_moved_from = HivePosition 0 0 (- 1),
           colour_influence =
             [[HivePosition 1 (- 1) 0, HivePosition 1 0 0, HivePosition 0 1 0,
              HivePosition (- 1) 1 0, HivePosition (- 1) 0 0, HivePosition 0 (- 1) 0,
              HivePosition 0 0 0, HivePosition (- 2) 1 0, HivePosition (- 2) 0 0,
              HivePosition (- 1) (- 1) 0],
              [HivePosition 2 (- 1) 0, HivePosition 2 0 0, HivePosition 1 1 0,
               HivePosition 0 1 0, HivePosition 0 0 0, HivePosition 1 (- 1) 0]] \<rparr>,
       expansions = \<lparr> uses_mosquito = True, uses_ladybug = True,
         uses_pillbug = True \<rparr>,
       num_bug_types = 8,
       force_terminal = False,
       move_number = 3,
       history = [818, 3557, 228] \<rparr>"

definition game_s4 :: HiveState where
  "game_s4 =
     \<lparr> current_player = 0,
       board =
         \<lparr> hex_radius = 8, num_tiles = 28,
           tile_grid = (replicate 289 kNoneTile)[143 := wA1, 144 := wG1, 145 := bG1, 146 := bQ],
           played_tiles = [wG1, bG1, wA1, bQ],
           tile_positions = (replicate 28 kNullPosition)[wA1 := HivePosition (- 1) 0 0,
                             wG1 := HivePosition 0 0 0, bQ := HivePosition 2 0 0,
                             bG1 := HivePosition 1 0 0],
           covered_tiles = replicate 7 kNoneTile,
           articulation_points = [HivePosition 1 0 (- 1), HivePosition 0 0 (- 1)],
           largest_radius = 2,
           last_moved = bQ,
           last_moved_from = HivePosition 0 0 (- 1),
           colour_influence =
             [[HivePosition 1 (- 1) 0, HivePosition 1 0 0, HivePosition 0 1 0,
              HivePosition (- 1) 1 0, HivePosition (- 1) 0 0, HivePosition 0 (- 1) 0,
              HivePosition 0 0 0, HivePosition (- 2) 1 0, HivePosition (- 2) 0 0,
              HivePosition (- 1) (- 1) 0],
              [HivePosition 2 (- 1) 0, HivePosition 2 0 0, HivePosition 1 1 0,
               HivePosition 0 1 0, HivePosition 0 0 0, HivePosition 1 (- 1) 0,
               HivePosition 3 (- 1) 0, HivePosition 3 0 0, HivePosition 2 1 0,
               HivePosition 1 0 0]] \<rparr>,
       expansions = \<lparr> uses_mosquito = True, uses_ladybug = True,
         uses_pillbug = True \<rparr>,
       num_bug_types = 8,
       force_terminal = False,
       move_number = 4,
       history = [818, 3557, 228, 2871] \<rparr>"

definition game_s5 :: HiveState where
  "game_s5 =
     \<lparr> current_player = 1,
       board =
         \<lparr> hex_radius = 8, num_tiles = 28,
           tile_grid = (replicate 289 kNoneTile)[142 := wA2, 143 := wA1, 144 := wG1,
                        145 := bG1, 146 := bQ],
           played_tiles = [wG1, bG1, wA1, bQ, wA2],
           tile_positions = (replicate 28 kNullPosition)[wA1 := HivePosition (- 1) 0 0,
                             wA2 := HivePosition (- 2) 0 0, wG1 := HivePosition 0 0 0,
                             bQ := HivePosition 2 0 0, bG1 := HivePosition 1 0 0],
           covered_tiles = replicate 7 kNoneTile,
           articulation_points = [HivePosition 1 0 (- 1), HivePosition (- 1) 0 (- 1),
                                  HivePosition 0 0 (- 1)],
           largest_radius = 2,
           last_moved = wA2,
           last_moved_from = HivePosition 0 0 (- 1),
           colour_influence =
             [[HivePosition 1 (- 1) 0, HivePosition 1 0 0, HivePosition 0 1 0,
              HivePosition (- 1) 1 0, HivePosition (- 1) 0 0, HivePosition 0 (- 1) 0,
              HivePosition 0 0 0, HivePosition (- 2) 1 0, HivePosition (- 2) 0 0,
              HivePosition (- 1) (- 1) 0, HivePosition (- 3) 1 0, HivePosition (- 3) 0 0,
              HivePosition (- 2) (- 1) 0],
              [HivePosition 2 (- 1) 0, HivePosition 2 0 0, HivePosition 1 1 0,
               HivePosition 0 1 0, HivePosition 0 0 0, HivePosition 1 (- 1) 0,
               HivePosition 3 (- 1) 0, HivePosition 3 0 0, HivePosition 2 1 0,
               HivePosition 1 0 0]] \<rparr>,
       expansions = \<lparr> uses_mosquito = True, uses_ladybug = True,
         uses_pillbug = True \<rparr>,
       num_bug_types = 8,
       force_terminal = False,
       move_number = 5,
       history = [818, 3557, 228, 2871, 403] \<rparr>"

definition game_s6 :: HiveState where
  "game_s6 =
     \<lparr> current_player = 0,
       board =
         \<lparr> hex_radius = 8, num_tiles = 28,
           tile_grid = (replicate 289 kNoneTile)[141 := bG1, 142 := wA2, 143 := wA1,
                        144 := wG1, 146 := bQ],
           played_tiles = [wG1, bG1, wA1, bQ, wA2],
           tile_positions = (replicate 28 kNullPosition)[wA1 := HivePosition (- 1) 0 0,
                             wA2 := HivePosition (- 2) 0 0, wG1 := HivePosition 0 0 0,
                             bQ := HivePosition 2 0 0, bG1 := HivePosition (- 3) 0 0],
           covered_tiles = replicate 7 kNoneTile,
           articulation_points = [HivePosition (- 2) 0 (- 1), HivePosition (- 1) 0 (- 1)],
           largest_radius = 3,
           last_moved = bG1,
           last_moved_from = HivePosition 1 0 0,
           colour_influence =
             [[HivePosition 1 (- 1) 0, HivePosition 1 0 0, HivePosition 0 1 0,
              HivePosition (- 1) 1 0, HivePosition (- 1) 0 0, HivePosition 0 (- 1) 0,
              HivePosition 0 0 0, HivePosition (- 2) 1 0, HivePosition (- 2) 0 0,
              HivePosition (- 1) (- 1) 0, HivePosition (- 3) 1 0, HivePosition (- 3) 0 0,
              HivePosition (- 2) (- 1) 0],
              [HivePosition (- 2) (- 1) 0, HivePosition (- 2) 0 0, HivePosition (- 3) 1 0,
               HivePosition (- 4) 1 0, HivePosition (- 4) 0 0, HivePosition (- 3) (- 1) 0,
               HivePosition 3 (- 1) 0, HivePosition 3 0 0, HivePosition 2 1 0,
               HivePosition 1 1 0, HivePosition 1 0 0, HivePosition 2 (- 1) 0]] \<rparr>,
       expansions = \<lparr> uses_mosquito = True, uses_ladybug = True,
         uses_pillbug = True \<rparr>,
       num_bug_types = 8,
       force_terminal = False,
       move_number = 6,
       history = [818, 3557, 228, 2871, 403, 3546] \<rparr>"


text \<open>
  A board on which White's Queen is at the origin with a black tile on each of its six
  neighbouring cells (the moves \<open>wQ; bA1 wQ/; bA2 wQ-; bA3 wQ\\; bG1 /wQ; bG2 -wQ;
  bG3 \\wQ\<close> made on the board of a new game).
\<close>

definition surrounded_state :: HiveState where
  "surrounded_state =
     \<lparr> current_player = 1,
       board =
         \<lparr> hex_radius = 8, num_tiles = 28,
           tile_grid = (replicate 289 kNoneTile)[127 := bG3, 128 := bA1, 143 := bG2, 144 := wQ,
                        145 := bA2, 160 := bG1, 161 := bA3],
           played_tiles = [wQ, bA1, bA2, bA3, bG1, bG2, bG3],
           tile_positions = (replicate 28 kNullPosition)[wQ := HivePosition 0 0 0,
                             bA1 := HivePosition 1 (- 1) 0, bA2 := HivePosition 1 0 0,
                             bA3 := HivePosition 0 1 0, bG1 := HivePosition (- 1) 1 0,
                             bG2 := HivePosition (- 1) 0 0, bG3 := HivePosition 0 (- 1) 0],
           covered_tiles = replicate 7 kNoneTile,
           articulation_points = [],
           largest_radius = 1,
           last_moved = bG3,
           last_moved_from = HivePosition 0 0 (- 1),
           colour_influence =
             [[HivePosition 1 (- 1) 0, HivePosition 1 0 0, HivePosition 0 1 0,
              HivePosition (- 1) 1 0, HivePosition (- 1) 0 0, HivePosition 0 (- 1) 0],
              [HivePosition 2 (- 2) 0, HivePosition 2 (- 1) 0, HivePosition 1 0 0,
               HivePosition 0 0 0, HivePosition 0 (- 1) 0, HivePosition 1 (- 2) 0,
               HivePosition 2 0 0, HivePosition 1 1 0, HivePosition 0 1 0,
               HivePosition 1 (- 1) 0, HivePosition 0 2 0, HivePosition (- 1) 2 0,
               HivePosition (- 1) 1 0, HivePosition (- 2) 2 0, HivePosition (- 2) 1 0,
               HivePosition (- 1) 0 0, HivePosition (- 2) 0 0, HivePosition (- 1) (- 1) 0,
               HivePosition 0 (- 2) 0]] \<rparr>,
       expansions = \<lparr> uses_mosquito = True, uses_ladybug = True,
         uses_pillbug = True \<rparr>,
       num_bug_types = 8,
       force_terminal = False,
       move_number = 7,
       history = [6, 2940, 3137, 3334, 3531, 3728, 3925] \<rparr>"


text \<open>
  A state on a board of radius 1, after the moves \<open>wG1; bG1 wG1-; wA1 -wG1\<close>: every
  cell on which Black may place a tile is at distance 2 from the origin.
\<close>

definition overflow_state :: HiveState where
  "overflow_state =
     \<lparr> current_player = 1,
       board =
         \<lparr> hex_radius = 1, num_tiles = 28,
           tile_grid = (replicate 9 kNoneTile)[3 := wA1, 4 := wG1, 5 := bG1],
           played_tiles = [wG1, bG1, wA1],
           tile_positions = (replicate 28 kNullPosition)[wA1 := HivePosition (- 1) 0 0,
                             wG1 := HivePosition 0 0 0, bG1 := HivePosition 1 0 0],
           covered_tiles = replicate 7 kNoneTile,
           articulation_points = [HivePosition 0 0 (- 1)],
           largest_radius = 1,
           last_moved = wA1,
           last_moved_from = HivePosition 0 0 (- 1),
           colour_influence =
             [[HivePosition 1 (- 1) 0, HivePosition 1 0 0, HivePosition 0 1 0,
              HivePosition (- 1) 1 0, HivePosition (- 1) 0 0, HivePosition 0 (- 1) 0,
              HivePosition 0 0 0, HivePosition (- 2) 1 0, HivePosition (- 2) 0 0,
              HivePosition (- 1) (- 1) 0],
              [HivePosition 2 (- 1) 0, HivePosition 2 0 0, HivePosition 1 1 0,
               HivePosition 0 1 0, HivePosition 0 0 0, HivePosition 1 (- 1) 0]] \<rparr>,
       expansions = \<lparr> uses_mosquito = True, uses_ladybug = True,
         uses_pillbug = True \<rparr>,
       num_bug_types = 8,
       force_terminal = False,
       move_number = 3,
       history = [818, 3557, 228] \<rparr>"

text \<open>
  The state after \<open>wG1; bG1 wG1-; wA1 -wG1; bQ bG1-; wA2 -wA1; bA1 bQ-\<close>: six moves
  are made, it is White's fourth turn and White's Queen is not placed.
\<close>

definition queen_turn_state :: HiveState where
  "queen_turn_state =
     \<lparr> current_player = 0,
       board =
         \<lparr> hex_radius = 8, num_tiles = 28,
           tile_grid = (replicate 289 kNoneTile)[142 := wA2, 143 := wA1, 144 := wG1,
                        145 := bG1, 146 := bQ, 147 := bA1],
           played_tiles = [wG1, bG1, wA1, bQ, wA2, bA1],
           tile_positions = (replicate 28 kNullPosition)[wA1 := HivePosition (- 1) 0 0,
                             wA2 := HivePosition (- 2) 0 0, wG1 := HivePosition 0 0 0,
                             bQ := HivePosition 2 0 0, bA1 := HivePosition 3 0 0,
                             bG1 := HivePosition 1 0 0],
           covered_tiles = replicate 7 kNoneTile,
           articulation_points = [HivePosition 2 0 (- 1), HivePosition 1 0 (- 1),
                                  HivePosition (- 1) 0 (- 1), HivePosition 0 0 (- 1)],
           largest_radius = 3,
           last_moved = bA1,
           last_moved_from = HivePosition 0 0 (- 1),
           colour_influence =
             [[HivePosition 1 (- 1) 0, HivePosition 1 0 0, HivePosition 0 1 0,
              HivePosition (- 1) 1 0, HivePosition (- 1) 0 0, HivePosition 0 (- 1) 0,
              HivePosition 0 0 0, HivePosition (- 2) 1 0, HivePosition (- 2) 0 0,
              HivePosition (- 1) (- 1) 0, HivePosition (- 3) 1 0, HivePosition (- 3) 0 0,
              HivePosition (- 2) (- 1) 0],
              [HivePosition 2 (- 1) 0, HivePosition 2 0 0, HivePosition 1 1 0,
               HivePosition 0 1 0, HivePosition 0 0 0, HivePosition 1 (- 1) 0,
               HivePosition 3 (- 1) 0, HivePosition 3 0 0, HivePosition 2 1 0,
               HivePosition 1 0 0, HivePosition 4 (- 1) 0, HivePosition 4 0 0,
               HivePosition 3 1 0]] \<rparr>,
       expansions = \<lparr> uses_mosquito = True, uses_ladybug = True,
         uses_pillbug = True \<rparr>,
       num_bug_types = 8,
       force_terminal = False,
       move_number = 6,
       history = [818, 3557, 228, 2871, 403, 3039] \<rparr>"

text \<open>The moves of a placement of the Queen: the tile is the Queen of the colour to move,
  the reference is a tile and the direction is a cardinal one.\<close>

definition queen_placement :: "Colour \<Rightarrow> Move \<Rightarrow> bool" where
  "queen_placement c m \<longleftrightarrow>
     from_tile m = (if c = kWhite then wQ else bQ) \<and> HasValue (to_tile m)
     \<and> direction m < kNumCardinalDirections"

text \<open>
  The One-Hive invariant in the words of the specification: the played tiles that are not
  covered form a single connected component under cardinal adjacency. Two cells are
  adjacent when one is among the six neighbours of the other, seen from above; the
  component is written with the reflexive transitive closure of adjacency between the
  cells of the hive.
\<close>

definition cardinal_adjacent :: "HivePosition \<Rightarrow> HivePosition \<Rightarrow> bool" where
  "cardinal_adjacent p q \<longleftrightarrow> Grounded q \<in> set (Neighbours p)"

definition hive_positions :: "HexBoard \<Rightarrow> HivePosition list" where
  "hive_positions b = map (GetPositionOf b) (filter (\<lambda>t. \<not> IsCovered b t) (played_tiles b))"

definition hive_adjacency :: "HexBoard \<Rightarrow> (HivePosition \<times> HivePosition) set" where
  "hive_adjacency b =
     {(p, q). p \<in> set (hive_positions b) \<and> q \<in> set (hive_positions b) \<and> cardinal_adjacent p q}"

definition one_hive :: "HexBoard \<Rightarrow> bool" where
  "one_hive b \<longleftrightarrow>
     set (hive_positions b) \<times> set (hive_positions b) \<subseteq> (hive_adjacency b)\<^sup>*"

text \<open>
  The ground slide in the words of the specification. A cell counts as occupied when a
  tile stands on it and it is not the start cell of the moving tile. A slide from \<open>pos\<close>
  in the direction \<open>d\<close> is legal when the cell entered is empty, the edge is not gated
  (the two cells beside it, clockwise and counter-clockwise of \<open>d\<close>, are not both
  occupied), exactly one of these two cells is occupied, and the cell entered has an
  occupied neighbour.
\<close>

definition cell_occupied :: "HexBoard \<Rightarrow> HivePosition \<Rightarrow> HivePosition \<Rightarrow> bool" where
  "cell_occupied b start x \<longleftrightarrow> x \<noteq> start \<and> HasValue (GetTopTileAt b x)"

definition ground_slide :: "HexBoard \<Rightarrow> HivePosition \<Rightarrow> HivePosition \<Rightarrow> Direction \<Rightarrow> bool" where
  "ground_slide b start pos d \<longleftrightarrow>
     (let cw = NeighbourAt pos (ClockwiseDirection d);
          ccw = NeighbourAt pos (CounterClockwiseDirection d)
      in \<not> cell_occupied b start (NeighbourAt pos d)
         \<and> \<not> (cell_occupied b start cw \<and> cell_occupied b start ccw)
         \<and> (cell_occupied b start cw \<noteq> cell_occupied b start ccw)
         \<and> list_ex (cell_occupied b start) (Neighbours (NeighbourAt pos d)))"

text \<open>
  The paths of exactly \<open>n\<close> further steps that extend a path (its last cell first), every
  step allowed by \<open>ok\<close> and entering a cell that the path has not visited; and the cells
  a Spider reaches: the ends of the paths of exactly three ground slides from its start.
\<close>

fun slide_paths ::
  "(HivePosition \<Rightarrow> Direction \<Rightarrow> bool) \<Rightarrow> nat \<Rightarrow> HivePosition list \<Rightarrow> HivePosition list list" where
  "slide_paths ok 0 path = [path]"
| "slide_paths ok (Suc n) path =
     concat (map (\<lambda>d. if ok (hd path) d \<and> NeighbourAt (hd path) d \<notin> set path
                       then slide_paths ok n (NeighbourAt (hd path) d # path) else [])
                 [0 ..< kNumCardinalDirections])"

definition spider_destinations :: "HexBoard \<Rightarrow> HivePosition \<Rightarrow> HivePosition list" where
  "spider_destinations b start = map hd (slide_paths (ground_slide b start) 3 [start])"

text \<open>
  The board is well formed when every tile that the grid holds has a position whose
  height is not negative, as \<open>MoveTile\<close> writes the grid and the position together.
\<close>

definition grid_tiles_placed :: "HexBoard \<Rightarrow> bool" where
  "grid_tiles_placed b \<longleftrightarrow>
     list_all (\<lambda>t. 0 \<le> sint (H (tile_positions b ! t))) (filter HasValue (tile_grid b))"

text \<open>The cells that the search of \<open>GenerateValidSlides\<close> reaches, as a set.\<close>

fun slide_ends ::
  "(HivePosition \<Rightarrow> Direction \<Rightarrow> bool) \<Rightarrow> nat \<Rightarrow> HivePosition \<Rightarrow> HivePosition set
     \<Rightarrow> HivePosition set" where
  "slide_ends ok 0 p V = {p}"
| "slide_ends ok (Suc n) p V =
     (\<Union>d \<in> {0 ..< kNumCardinalDirections}.
        if ok p d \<and> NeighbourAt p d \<notin> insert p V
        then slide_ends ok n (NeighbourAt p d) (insert p V) else {})"

definition slide_ok :: "HexBoard \<Rightarrow> HivePosition \<Rightarrow> HivePosition \<Rightarrow> Direction \<Rightarrow> bool" where
  "slide_ok b start_pos pos dir \<longleftrightarrow> \<not> slide_blocked b start_pos pos dir"

text \<open>
  The state of the default game after the moves \<open>wG1; bG1 wG1-; wQ -wG1; bQ bG1-;
  wS1 -wQ; bA1 bQ-\<close>: the hive is a row of six tiles, and the Spider \<open>wS1\<close> stands
  at its western end.
\<close>

definition spider_state :: HiveState where
  "spider_state =
     \<lparr> current_player = 0,
       board =
         \<lparr> hex_radius = 8, num_tiles = 28,
           tile_grid = (replicate 289 kNoneTile)[142 := wS1, 143 := wQ, 144 := wG1, 145 := bG1,
                        146 := bQ, 147 := bA1],
           played_tiles = [wG1, bG1, wQ, bQ, wS1, bA1],
           tile_positions = (replicate 28 kNullPosition)[wQ := HivePosition (- 1) 0 0,
                             wG1 := HivePosition 0 0 0, wS1 := HivePosition (- 2) 0 0,
                             bQ := HivePosition 2 0 0, bA1 := HivePosition 3 0 0,
                             bG1 := HivePosition 1 0 0],
           covered_tiles = replicate 7 kNoneTile,
           articulation_points = [HivePosition 2 0 0, HivePosition 1 0 0, HivePosition 0 0 0,
                                  HivePosition (- 1) 0 0],
           largest_radius = 3,
           last_moved = bA1,
           last_moved_from = HivePosition 0 0 (- 1),
           colour_influence =
             [[HivePosition 1 (- 1) 0, HivePosition 1 0 0, HivePosition 0 1 0,
              HivePosition (- 1) 1 0, HivePosition (- 1) 0 0, HivePosition 0 (- 1) 0,
              HivePosition 0 0 0, HivePosition (- 2) 1 0, HivePosition (- 2) 0 0,
              HivePosition (- 1) (- 1) 0, HivePosition (- 3) 1 0, HivePosition (- 3) 0 0,
              HivePosition (- 2) (- 1) 0],
              [HivePosition 2 (- 1) 0, HivePosition 2 0 0, HivePosition 1 1 0,
               HivePosition 0 1 0, HivePosition 0 0 0, HivePosition 1 (- 1) 0,
               HivePosition 3 (- 1) 0, HivePosition 3 0 0, HivePosition 2 1 0,
               HivePosition 1 0 0, HivePosition 4 (- 1) 0, HivePosition 4 0 0,
               HivePosition 3 1 0]] \<rparr>,
       expansions = \<lparr> uses_mosquito = True, uses_ladybug = True,
         uses_pillbug = True \<rparr>,
       num_bug_types = 8,
       force_terminal = False,
       move_number = 6,
       history = [818, 3557, 32, 2871, 1376, 3039] \<rparr>"

text \<open>
  The invariant behind \<open>grid_tiles_placed\<close>: the array of positions has its 28 entries,
  and the tiles of the grid and the covered tiles have positions of height at least 0.
\<close>

definition board_placed :: "HexBoard \<Rightarrow> bool" where
  "board_placed b \<longleftrightarrow>
     length (tile_positions b) = 28 \<and> grid_tiles_placed b
     \<and> list_all (\<lambda>t. 0 \<le> sint (H (tile_positions b ! t))) (filter HasValue (covered_tiles b))"

section \<open>Bounds of the grid\<close>

lemma DistanceTo_origin:
  "DistanceTo pos kOriginPosition =
     (\<bar>sint (Q pos)\<bar> + \<bar>sint (Q pos) + sint (R pos)\<bar> + \<bar>sint (R pos)\<bar>) div 2"
  by (simp add: DistanceTo_def kOriginPosition_def pos_sub_def)

lemma within_radius_coords:
  assumes "DistanceTo pos kOriginPosition \<le> r"
  shows "\<bar>sint (Q pos)\<bar> \<le> r" and "\<bar>sint (R pos)\<bar> \<le> r"
  using assms unfolding DistanceTo_origin by linarith+

lemma index_in_square:
  fixes q r rad :: int
  assumes "\<bar>q\<bar> \<le> rad" and "\<bar>r\<bar> \<le> rad"
  shows "0 \<le> q + rad + (r + rad) * (rad * 2 + 1)"
    and "q + rad + (r + rad) * (rad * 2 + 1) < (rad * 2 + 1) * (rad * 2 + 1)"
proof -
  have rad0: "0 \<le> rad" using assms by linarith
  have a: "0 \<le> r + rad" and b: "r + rad \<le> rad * 2" using assms by linarith+
  have "0 \<le> (r + rad) * (rad * 2 + 1)" using a rad0 by simp
  then show "0 \<le> q + rad + (r + rad) * (rad * 2 + 1)" using assms by linarith
  have "(r + rad) * (rad * 2 + 1) \<le> (rad * 2) * (rad * 2 + 1)"
    using b rad0 by (intro mult_right_mono) simp_all
  moreover have "q + rad \<le> rad * 2" using assms by linarith
  ultimately show "q + rad + (r + rad) * (rad * 2 + 1) < (rad * 2 + 1) * (rad * 2 + 1)"
    by (simp add: algebra_simps)
qed

lemma HexBoard_new_grid_shape: "grid_shape (HexBoard_new r m l p)"
  by (simp add: grid_shape_def HexBoard_new_def Let_def SquareDimensions_def Radius_def)

text \<open>
  Claim C9. \<open>GetTopTileAt\<close> is total: beyond the radius it answers the none-tile whatever
  the grid array holds (the array is not read), and within the radius the flat index
  computed by \<open>AxialToIndex\<close> is below the size of the grid array, so the read is in bounds.
\<close>

theorem GetTopTileAt_total:
  "(Radius b < DistanceTo pos kOriginPosition \<longrightarrow>
      (\<forall>g. GetTopTileAt (b\<lparr>tile_grid := g\<rparr>) pos = kNoneTile))
   \<and> (grid_shape b \<and> DistanceTo pos kOriginPosition \<le> Radius b \<longrightarrow>
      AxialToIndex b pos < length (tile_grid b)
      \<and> GetTopTileAt b pos = tile_grid b ! AxialToIndex b pos)"
proof (intro conjI impI allI)
  fix g assume "Radius b < DistanceTo pos kOriginPosition"
  then show "GetTopTileAt (b\<lparr>tile_grid := g\<rparr>) pos = kNoneTile"
    by (simp add: GetTopTileAt_def Radius_def)
next
  assume h: "grid_shape b \<and> DistanceTo pos kOriginPosition \<le> Radius b"
  let ?rad = "Radius b"
  let ?i = "sint (Q pos) + ?rad + (sint (R pos) + ?rad) * (?rad * 2 + 1)"
  have q: "\<bar>sint (Q pos)\<bar> \<le> ?rad" and r: "\<bar>sint (R pos)\<bar> \<le> ?rad"
    using h within_radius_coords by blast+
  have lo: "0 \<le> ?i" and hi: "?i < (?rad * 2 + 1) * (?rad * 2 + 1)"
    using index_in_square [OF q r] by blast+
  have "?rad \<le> 14" using h by (simp add: grid_shape_def Radius_def kMaxBoardRadius_def)
  moreover have "0 \<le> ?rad" using q by linarith
  ultimately have "(?rad * 2 + 1) * (?rad * 2 + 1) \<le> 29 * 29"
    by (intro mult_mono) simp_all
  then have "?i < 2 ^ 64" using hi by simp
  then have "?i mod 2 ^ 64 = ?i" using lo by simp
  then have idx: "AxialToIndex b pos = nat ?i"
    by (simp add: AxialToIndex_def SquareDimensions_def)
  have "nat ?i < nat ((?rad * 2 + 1) * (?rad * 2 + 1))" using lo hi by linarith
  then show "AxialToIndex b pos < length (tile_grid b)"
    using h idx by (simp add: grid_shape_def SquareDimensions_def)
  show "GetTopTileAt b pos = tile_grid b ! AxialToIndex b pos"
    using h by (simp add: GetTopTileAt_def)
qed

theorem GetTopTileAt_total_witness:
  "Radius (HexBoard_new 8 True True True) < DistanceTo (HivePosition 9 0 0) kOriginPosition
   \<and> GetTopTileAt ((HexBoard_new 8 True True True)\<lparr>tile_grid := []\<rparr>) (HivePosition 9 0 0)
       = kNoneTile
   \<and> grid_shape (HexBoard_new 8 True True True)
   \<and> DistanceTo (HivePosition 3 (- 2) 0) kOriginPosition \<le> Radius (HexBoard_new 8 True True True)
   \<and> AxialToIndex (HexBoard_new 8 True True True) (HivePosition 3 (- 2) 0)
       < length (tile_grid (HexBoard_new 8 True True True))"
proof -
  let ?b = "HexBoard_new 8 True True True"
  have far: "Radius ?b < DistanceTo (HivePosition 9 0 0) kOriginPosition"
    by (simp add: DistanceTo_origin HexBoard_new_def Radius_def kMaxBoardRadius_def Let_def)
  have near: "DistanceTo (HivePosition 3 (- 2) 0) kOriginPosition \<le> Radius ?b"
    by (simp add: DistanceTo_origin HexBoard_new_def Radius_def kMaxBoardRadius_def Let_def)
  have shape: "grid_shape ?b" by (rule HexBoard_new_grid_shape)
  from GetTopTileAt_total [of ?b "HivePosition 9 0 0"] far
  have "GetTopTileAt (?b\<lparr>tile_grid := []\<rparr>) (HivePosition 9 0 0) = kNoneTile" by blast
  moreover from GetTopTileAt_total [of ?b "HivePosition 3 (- 2) 0"] near shape
  have "AxialToIndex ?b (HivePosition 3 (- 2) 0) < length (tile_grid ?b)" by blast
  ultimately show ?thesis using far near shape by blast
qed

section \<open>The position overload of IsCovered\<close>

lemma IsCovered_pos_always: "IsCovered_pos b pos"
  by (simp add: IsCovered_pos_def find_if_def)

text \<open>
  Claim C4. The claim says the position overload answers true exactly when a tile sits
  above the position, so false on an empty cell. The code returns the iterator of
  \<open>find_if\<close> converted to \<open>bool\<close>, without the comparison with \<open>end()\<close> that the tile
  overload makes: on the board of a new game, where no tile is played and the origin cell
  is empty, it answers true for the origin.
\<close>

theorem IsCovered_pos_empty_board:
  "IsCovered_pos (HexBoard_new 8 True True True) (HivePosition 0 0 0)
   \<and> GetTopTileAt (HexBoard_new 8 True True True) (HivePosition 0 0 0) = kNoneTile
   \<and> played_tiles (HexBoard_new 8 True True True) = []
   \<and> \<not> IsCovered (HexBoard_new 8 True True True) wQ"
  by (simp add: IsCovered_pos_def IsCovered_def find_if_def array_end_def HasValue_def
      HexBoard_new_def GetTopTileAt_def DistanceTo_origin Radius_def kMaxBoardRadius_def
      AxialToIndex_def SquareDimensions_def Let_def)

section \<open>Termination by surrounding a Queen\<close>

lemma GetTopTileAt_height:
  "GetTopTileAt b (HivePosition q r h) = GetTopTileAt b (HivePosition q r h')"
  by (simp add: GetTopTileAt_def DistanceTo_def pos_sub_def kOriginPosition_def AxialToIndex_def)

lemma all_directions:
  "(\<forall>d < (6::nat). P d) \<longleftrightarrow> P 0 \<and> P 1 \<and> P 2 \<and> P 3 \<and> P 4 \<and> P 5"
proof
  assume "\<forall>d < (6::nat). P d"
  then show "P 0 \<and> P 1 \<and> P 2 \<and> P 3 \<and> P 4 \<and> P 5" by simp
next
  assume r: "P 0 \<and> P 1 \<and> P 2 \<and> P 3 \<and> P 4 \<and> P 5"
  show "\<forall>d < (6::nat). P d"
  proof (intro allI impI)
    fix d :: nat
    assume "d < 6"
    then have "d = 0 \<or> d = 1 \<or> d = 2 \<or> d = 3 \<or> d = 4 \<or> d = 5" by arith
    with r show "P d" by auto
  qed
qed

lemma IsQueenSurrounded_iff: "IsQueenSurrounded b c \<longleftrightarrow> queen_surrounded b c"
proof -
  obtain q r h where p: "tile_positions b ! (if c = kWhite then wQ else bQ) = HivePosition q r h"
    by (cases "tile_positions b ! (if c = kWhite then wQ else bQ)") auto
  have n: "\<And>q' r'. GetTopTileAt b (HivePosition q' r' h) = GetTopTileAt b (HivePosition q' r' 0)"
    by (rule GetTopTileAt_height)
  show ?thesis
    using p
    by (cases c)
       (auto simp: IsQueenSurrounded_def queen_surrounded_def Let_def GetTileFrom_def
          tiles_before_def IsInPlay_def GetPositionOf_def HasValue_def Neighbours_def
          all_directions NeighbourAt_def kNeighbourOffsets_def pos_add_def n)
qed

text \<open>
  Claim C6. In every state in which the Queen of at least one colour is in play with all
  six neighbouring cells occupied, the state is terminal. The returns (White's first) are
  +1 for the player whose opponent's Queen is surrounded and -1 for the other when exactly
  one Queen is surrounded, and 0 for both when both Queens are.
\<close>

theorem queen_surrounded_terminal:
  assumes "queen_surrounded (board s) kWhite \<or> queen_surrounded (board s) kBlack"
  shows "IsTerminal s
         \<and> Returns s =
             (if queen_surrounded (board s) kWhite \<and> queen_surrounded (board s) kBlack
              then [0, 0]
              else if queen_surrounded (board s) kBlack then [1, - 1] else [- 1, 1])"
  using assms
  by (auto simp: IsTerminal_def Returns_def WinConditionMet_def IsQueenSurrounded_iff
        PlayerToColour_def OtherColour_def Let_def)


theorem queen_surrounded_terminal_witness:
  "queen_surrounded (board surrounded_state) kWhite
   \<and> \<not> queen_surrounded (board surrounded_state) kBlack
   \<and> IsTerminal surrounded_state
   \<and> Returns surrounded_state = [- 1, 1]"
proof -
  have w: "queen_surrounded (board surrounded_state) kWhite"
    unfolding queen_surrounded_def Let_def all_directions by code_simp
  have b: "\<not> queen_surrounded (board surrounded_state) kBlack"
    unfolding queen_surrounded_def Let_def all_directions by code_simp
  from queen_surrounded_terminal [of surrounded_state] w b show ?thesis by simp
qed

section \<open>Deserialising a state\<close>

lemma game_step1: "ApplyAction (NewInitialState default_game) 818 = Some game_s1"
  by code_simp

lemma game_step2: "ApplyAction game_s1 3557 = Some game_s2"
  by code_simp

lemma NewInitialState_move_number: "move_number (NewInitialState g) = 0"
  by (simp add: NewInitialState_def HiveState_new_def)

text \<open>
  Claim C10. \<open>DeserializeState\<close> returns the initial state of the game for every
  string. In particular it does not give back a state in which a move has been made from
  the session string that \<open>Serialize\<close> produced for that state.
\<close>

theorem DeserializeState_fresh:
  "DeserializeState g str = NewInitialState g
   \<and> (move_number s \<noteq> 0 \<longrightarrow>
        (\<forall>session. Serialize s = Some session \<longrightarrow> DeserializeState g session \<noteq> s))"
  using NewInitialState_move_number [of g] by (auto simp: DeserializeState_def)

theorem DeserializeState_fresh_witness:
  "move_number game_s2 \<noteq> 0
   \<and> Serialize game_s2 = Some ''Base+PLM;InProgress;White[2];wG1;bG1 wG1-''
   \<and> DeserializeState default_game ''Base+PLM;InProgress;White[2];wG1;bG1 wG1-''
        = NewInitialState default_game
   \<and> DeserializeState default_game ''Base+PLM;InProgress;White[2];wG1;bG1 wG1-'' \<noteq> game_s2"
proof -
  have m: "move_number game_s2 \<noteq> 0" by (simp add: game_s2_def)
  have s: "Serialize game_s2 = Some ''Base+PLM;InProgress;White[2];wG1;bG1 wG1-''"
    by code_simp
  from DeserializeState_fresh
         [of default_game "''Base+PLM;InProgress;White[2];wG1;bG1 wG1-''" game_s2]
    m s show ?thesis by blast
qed

section \<open>The session string\<close>

lemma c_div_nonneg: "0 \<le> a \<Longrightarrow> 0 < b \<Longrightarrow> c_div a b = a div b"
  by (cases "a = 0") (simp_all add: c_div_def)

lemma c_mod_nonneg: "0 \<le> a \<Longrightarrow> 0 < b \<Longrightarrow> c_mod a b = a mod b"
  by (simp add: c_mod_def c_div_nonneg minus_mult_div_eq_mod)

lemma tile_names_ok: "\<forall>t \<in> set [0 ..< 28]. tile_name_ok t"
  by code_simp

lemma tile_name_okD:
  assumes "HasValue t"
  obtains n where "Tile_ToUHP t = Some n" "n \<noteq> []"
    "\<forall>c \<in> set n. \<not> is_direction_char c \<and> c \<noteq> CHR '' ''"
    "n \<noteq> ''pass''" "UHPToTile n = Some t"
proof -
  from assms have "t \<in> set [0 ..< 28]" by (simp add: HasValue_def)
  with tile_names_ok have "tile_name_ok t" by blast
  then show ?thesis
    by (auto simp: tile_name_ok_def list_all_iff split: option.splits intro: that)
qed

lemma direction_cases:
  "d \<le> (6::nat) \<Longrightarrow> d = 0 \<or> d = 1 \<or> d = 2 \<or> d = 3 \<or> d = 4 \<or> d = 5 \<or> d = 6"
  by arith

lemma Move_ToUHP_total:
  assumes "IsPass m \<or> direction m \<le> kAbove"
  shows "\<exists>str. Move_ToUHP m = Some str"
proof (cases "IsPass m")
  case True
  then show ?thesis by (simp add: Move_ToUHP_def)
next
  case False
  then have f: "HasValue (from_tile m)" and d: "direction m \<le> 6"
    using assms by (simp_all add: IsPass_def)
  from f obtain nf where nf: "Tile_ToUHP (from_tile m) = Some nf" by (rule tile_name_okD)
  show ?thesis
  proof (cases "HasValue (to_tile m)")
    case False
    then show ?thesis using f nf by (simp add: Move_ToUHP_def IsPass_def)
  next
    case True
    then obtain nt where nt: "Tile_ToUHP (to_tile m) = Some nt" by (rule tile_name_okD)
    from direction_cases [OF d] show ?thesis
      using f nf nt True by (auto simp: Move_ToUHP_def IsPass_def)
  qed
qed

lemma ActionToMove_direction:
  assumes "0 \<le> a" and "a \<noteq> PassAction"
  shows "direction (ActionToMove a) \<le> kAbove"
proof -
  have "a mod 7 < 7" by simp
  moreover have "0 \<le> a mod 7" by simp
  ultimately have "a mod 7 mod 256 = a mod 7" by simp
  moreover have "nat (a mod 7) \<le> 6" by simp
  ultimately show ?thesis
    using assms by (simp add: ActionToMove_def c_mod_nonneg Let_def)
qed

lemma ActionToString_total:
  assumes "0 \<le> a"
  shows "\<exists>str. ActionToString p a = Some str"
proof (cases "a = PassAction")
  case True
  then show ?thesis
    by (simp add: ActionToString_def ActionToMove_def Move_ToUHP_def IsPass_def HasValue_def)
next
  case False
  with assms have "direction (ActionToMove a) \<le> kAbove" by (rule ActionToMove_direction)
  then show ?thesis unfolding ActionToString_def by (intro Move_ToUHP_total) simp
qed

lemma ActionsToStrings_total:
  "\<forall>a \<in> set as. 0 \<le> a \<Longrightarrow> \<exists>strs. ActionsToStrings as = Some strs"
proof (induction as)
  case Nil
  then show ?case by simp
next
  case (Cons a as)
  then obtain strs where "ActionsToStrings as = Some strs" by auto
  moreover obtain str where "ActionToString kPlayerWhite a = Some str"
    using ActionToString_total [of a kPlayerWhite] Cons.prems by auto
  ultimately show ?case by simp
qed

lemma first_field_join:
  "CHR '';'' \<notin> set x \<Longrightarrow> first_field (StrJoin [x, y, z, w] '';'') = x"
  by (auto simp: first_field_def takeWhile_tail)

lemma Serialize_fields:
  assumes "\<forall>a \<in> set (history s). 0 \<le> a"
  shows "\<exists>moves. MovesString s = Some moves
           \<and> Serialize s
               = Some (StrJoin [kDefaultUHPGameType, ProgressString s, TurnString s, moves] '';'')
           \<and> first_field (the (Serialize s)) = kDefaultUHPGameType"
proof -
  from ActionsToStrings_total [OF assms] obtain strs where
    strs: "ActionsToStrings (history s) = Some strs" by blast
  have semi: "CHR '';'' \<notin> set kDefaultUHPGameType" by (simp add: kDefaultUHPGameType_def)
  have ms: "MovesString s = Some (StrJoin strs '';'')" by (simp add: MovesString_def strs)
  have ser: "Serialize s
      = Some (StrJoin [kDefaultUHPGameType, ProgressString s, TurnString s, StrJoin strs '';''] '';'')"
    by (simp add: Serialize_def ms)
  have f: "first_field (the (Serialize s)) = kDefaultUHPGameType"
    unfolding ser option.sel by (rule first_field_join [OF semi])
  show ?thesis using ms ser f by simp
qed

text \<open>
  Claim C8 fails in the code. \<open>Serialize\<close> writes the constant \<open>kDefaultUHPGameType\<close>,
  which is \<open>Base+PLM\<close>, as the first field, whatever the expansion flags of the game are.
  For none of the eight combinations of the flags is this the game-type string of the
  specification: for the default game (the three expansions enabled) the specification
  gives \<open>Base+MLP\<close>, the letters in another order, and for the game without expansions
  it gives \<open>Base\<close>.
\<close>

theorem Serialize_game_type_diverges:
  "(\<forall>m l p. first_field (the (Serialize (NewInitialState (HiveGame_new
               \<lparr> param_board_size = 8, param_m = m, param_l = l, param_p = p \<rparr>))))
             = ''Base+PLM''
           \<and> spec_game_type_string (expansions (NewInitialState (HiveGame_new
               \<lparr> param_board_size = 8, param_m = m, param_l = l, param_p = p \<rparr>)))
             \<noteq> ''Base+PLM'')
   \<and> Serialize (NewInitialState default_game) = Some ''Base+PLM;NotStarted;White[1];''
   \<and> spec_game_type_string (expansions (NewInitialState default_game)) = ''Base+MLP''
   \<and> Serialize (NewInitialState (HiveGame_new \<lparr> param_board_size = 8, param_m = False,
        param_l = False, param_p = False \<rparr>)) = Some ''Base+PLM;NotStarted;White[1];''
   \<and> spec_game_type_string (expansions (NewInitialState (HiveGame_new
        \<lparr> param_board_size = 8, param_m = False, param_l = False, param_p = False \<rparr>)))
      = ''Base''"
proof -
  have field: "first_field (the (Serialize (NewInitialState (HiveGame_new
                 \<lparr> param_board_size = 8, param_m = m, param_l = l, param_p = p \<rparr>))))
               = ''Base+PLM''" for m l p
  proof -
    let ?s = "NewInitialState (HiveGame_new
                 \<lparr> param_board_size = 8, param_m = m, param_l = l, param_p = p \<rparr>)"
    have "history ?s = []"
      by (simp add: NewInitialState_def HiveState_new_def)
    then have "\<forall>a \<in> set (history ?s). 0 \<le> a" by simp
    from Serialize_fields [OF this]
    have "first_field (the (Serialize ?s)) = kDefaultUHPGameType" by blast
    then show ?thesis by (simp only: kDefaultUHPGameType_def)
  qed
  have spec: "spec_game_type_string (expansions (NewInitialState (HiveGame_new
                 \<lparr> param_board_size = 8, param_m = m, param_l = l, param_p = p \<rparr>)))
               \<noteq> ''Base+PLM''" for m l p
    by (simp add: NewInitialState_def HiveState_new_def HiveGame_new_def
                  spec_game_type_string_def)
  have on: "Serialize (NewInitialState default_game) = Some ''Base+PLM;NotStarted;White[1];''"
    by code_simp
  have on_spec: "spec_game_type_string (expansions (NewInitialState default_game)) = ''Base+MLP''"
    by code_simp
  have off: "Serialize (NewInitialState (HiveGame_new \<lparr> param_board_size = 8, param_m = False,
        param_l = False, param_p = False \<rparr>)) = Some ''Base+PLM;NotStarted;White[1];''"
    by code_simp
  have off_spec: "spec_game_type_string (expansions (NewInitialState (HiveGame_new
        \<lparr> param_board_size = 8, param_m = False, param_l = False, param_p = False \<rparr>)))
      = ''Base''"
    by code_simp
  from field spec on on_spec off off_spec show ?thesis by blast
qed

section \<open>The UHP round trip\<close>

lemma StrSplit_no_sep: "c \<notin> set u \<Longrightarrow> StrSplit u c = [u]"
  by (induction u) auto

lemma StrSplit_one_sep:
  "c \<notin> set u \<Longrightarrow> c \<notin> set v \<Longrightarrow> StrSplit (u @ c # v) c = [u, v]"
  by (induction u) (auto simp: StrSplit_no_sep)

lemma decode_parts:
  fixes F T D :: int
  assumes "0 \<le> F" "0 \<le> T" "T < 28" "0 \<le> D" "D < 7"
  shows "c_mod (F * 196 + T * 7 + D) 7 = D"
    and "c_mod (c_div (F * 196 + T * 7 + D) 7) 28 = T"
    and "c_div (F * 196 + T * 7 + D) 196 = F"
proof -
  let ?a = "F * 196 + T * 7 + D"
  have a0: "0 \<le> ?a" using assms by simp
  have d7: "?a div 7 = F * 28 + T"
    using assms by (intro int_div_pos_eq [where r = D]) simp_all
  have m7: "?a mod 7 = D"
    using assms by (intro int_mod_pos_eq [where q = "F * 28 + T"]) simp_all
  show "c_mod ?a 7 = D" using a0 m7 by (simp add: c_mod_nonneg)
  have "(F * 28 + T) mod 28 = T"
    using assms by (intro int_mod_pos_eq [where q = F]) simp_all
  moreover have "0 \<le> F * 28 + T" using assms by simp
  ultimately show "c_mod (c_div ?a 7) 28 = T"
    using a0 d7 by (simp add: c_div_nonneg c_mod_nonneg)
  have "?a div 196 = F"
    using assms by (intro int_div_pos_eq [where r = "T * 7 + D"]) simp_all
  then show "c_div ?a 196 = F" using a0 by (simp add: c_div_nonneg)
qed

lemma ActionToMove_encoded:
  assumes f: "f < 28" and t: "t < 28" and d: "d \<le> 6"
  shows "ActionToMove (int f * 196 + int t * 7 + int d)
         = \<lparr> from_tile = f, to_tile = (if f = t \<and> d = 6 then kNoneTile else t), direction = d \<rparr>"
proof -
  let ?a = "int f * 196 + int t * 7 + int d"
  have bounds: "0 \<le> int f" "0 \<le> int t" "int t < 28" "0 \<le> int d" "int d < 7"
    using t d by simp_all
  have "?a \<le> 27 * 196 + 27 * 7 + 6" using f t d by simp
  then have np: "?a \<noteq> PassAction" by (simp add: PassAction_def NumDistinctActions_def)
  have small: "int f mod 256 = int f" "int t mod 256 = int t" "int d mod 256 = int d"
    using f t d by simp_all
  show ?thesis
    using np small
    by (simp add: ActionToMove_def Let_def decode_parts [OF bounds])
qed


lemma takeWhile_direction_name:
  assumes "\<forall>c \<in> set n. \<not> is_direction_char c \<and> c \<noteq> CHR '' ''" and "n \<noteq> []"
  shows "takeWhile is_direction_char n = []"
    and "takeWhile is_direction_char (rev n) = []"
    and "\<not> is_direction_char (hd n)" and "\<not> is_direction_char (last n)"
proof -
  from assms obtain x xs where n: "n = x # xs" by (cases n) auto
  from assms obtain y ys where n': "n = ys @ [y]" by (cases n rule: rev_cases) auto
  show "takeWhile is_direction_char n = []" using assms(1) n by simp
  show "takeWhile is_direction_char (rev n) = []" using assms(1) n' by simp
  show "\<not> is_direction_char (hd n)" using assms(1) n by simp
  show "\<not> is_direction_char (last n)" using assms(1) n' by simp
qed


lemma reference_suffix:
  assumes n: "\<forall>c \<in> set n. \<not> is_direction_char c \<and> c \<noteq> CHR '' ''" "n \<noteq> []"
    and c: "is_direction_char c"
  shows "reference_tile_name (n @ [c]) = Some n"
    and "reference_direction (n @ [c])
         = (if c = backslash then kSE else if c = CHR ''-'' then kE else kNE)"
proof -
  note tw = takeWhile_direction_name [OF n]
  from n obtain x xs where x: "n = x # xs" by (cases n) auto
  have "takeWhile is_direction_char (n @ [c]) = []" using tw(3) x by simp
  moreover have "takeWhile is_direction_char (rev (n @ [c])) = [c]" using c tw(2) by simp
  ultimately show "reference_tile_name (n @ [c]) = Some n"
    using n(2) by (simp add: reference_tile_name_def)
  have "hd (n @ [c]) = hd n" using n(2) by simp
  then show "reference_direction (n @ [c])
         = (if c = backslash then kSE else if c = CHR ''-'' then kE else kNE)"
    using tw(3) c by (auto simp: reference_direction_def is_direction_char_def)
qed

lemma reference_prefix:
  assumes n: "\<forall>c \<in> set n. \<not> is_direction_char c \<and> c \<noteq> CHR '' ''" "n \<noteq> []"
    and c: "is_direction_char c"
  shows "reference_tile_name (c # n) = Some n"
    and "reference_direction (c # n)
         = (if c = backslash then kNW else if c = CHR ''-'' then kW else kSW)"
proof -
  note tw = takeWhile_direction_name [OF n]
  from n obtain y ys where y: "n = ys @ [y]" by (cases n rule: rev_cases) auto
  have "takeWhile is_direction_char (c # n) = [c]" using c tw(1) by simp
  moreover have "takeWhile is_direction_char (rev (c # n)) = []" using tw(4) y by simp
  ultimately show "reference_tile_name (c # n) = Some n"
    using n(2) by (simp add: reference_tile_name_def)
  show "reference_direction (c # n)
         = (if c = backslash then kNW else if c = CHR ''-'' then kW else kSW)"
    using c by (auto simp: reference_direction_def is_direction_char_def)
qed

lemma reference_above:
  assumes n: "\<forall>c \<in> set n. \<not> is_direction_char c \<and> c \<noteq> CHR '' ''" "n \<noteq> []"
  shows "reference_tile_name n = Some n" and "reference_direction n = kAbove"
proof -
  note tw = takeWhile_direction_name [OF n]
  show "reference_tile_name n = Some n"
    using n(2) tw(1,2) by (simp add: reference_tile_name_def)
  show "reference_direction n = kAbove"
    using tw(3,4) by (auto simp: reference_direction_def is_direction_char_def)
qed


lemma has_space_not_pass: "CHR '' '' \<in> set s \<Longrightarrow> s \<noteq> ''pass''"
  by auto

lemma StringToAction_one:
  assumes "UHPToTile nf = Some f" and "HasValue f"
    and "\<forall>c \<in> set nf. \<not> is_direction_char c \<and> c \<noteq> CHR '' ''" and "nf \<noteq> ''pass''"
  shows "StringToAction p nf = Some (int f * 196 + int f * 7 + 6)"
proof -
  have split: "StrSplit nf (CHR '' '') = [nf]" using assms(3) by (intro StrSplit_no_sep) auto
  have act: "MoveToAction \<lparr> from_tile = f, to_tile = kNoneTile, direction = kNumAllDirections \<rparr>
             = int f * 196 + int f * 7 + 6"
    using assms(2) by (simp add: MoveToAction_def IsPass_def HasValue_def)
  show ?thesis
    unfolding StringToAction_def split Let_def
    using assms(1,2,4) by (simp add: act)
qed

lemma StringToAction_two:
  assumes uf: "UHPToTile nf = Some f" and hf: "HasValue f"
    and nf: "\<forall>c \<in> set nf. \<not> is_direction_char c \<and> c \<noteq> CHR '' ''"
    and r: "CHR '' '' \<notin> set r" "r \<noteq> []"
    and name: "reference_tile_name r = Some n" and ut: "UHPToTile n = Some t"
  shows "StringToAction p (nf @ '' '' @ r)
         = Some (MoveToAction \<lparr> from_tile = f, to_tile = t, direction = reference_direction r \<rparr>)"
proof -
  have "CHR '' '' \<notin> set nf" using nf by auto
  then have split: "StrSplit (nf @ '' '' @ r) (CHR '' '') = [nf, r]"
    using r(1) by (simp add: StrSplit_one_sep)
  have notpass: "nf @ '' '' @ r \<noteq> ''pass''"
    by (rule has_space_not_pass) simp
  show ?thesis
    unfolding StringToAction_def split Let_def
    using notpass uf hf r(2) name ut by simp
qed

text \<open>
  Claim C7. For every move that is not the pass and whose direction is one of the seven
  (every move of the generator is such a move), the UHP string of its action id exists
  and \<open>StringToAction\<close> maps that string back to the same action id.
\<close>

theorem UHP_round_trip:
  assumes np: "\<not> IsPass m" and dir: "direction m \<le> kAbove"
  shows "\<exists>str. ActionToString p (MoveToAction m) = Some str
               \<and> StringToAction p str = Some (MoveToAction m)"
proof -
  let ?f = "from_tile m" and ?t = "to_tile m" and ?d = "direction m"
  from np have hf: "HasValue ?f" by (simp add: IsPass_def)
  then have f28: "?f < 28" by (simp add: HasValue_def)
  from hf obtain nf where nf: "Tile_ToUHP ?f = Some nf" "nf \<noteq> []"
      "\<forall>c \<in> set nf. \<not> is_direction_char c \<and> c \<noteq> CHR '' ''" "nf \<noteq> ''pass''"
      "UHPToTile nf = Some ?f"
    by (rule tile_name_okD)
  show ?thesis
  proof (cases "\<not> HasValue ?t \<or> (?t = ?f \<and> ?d = 6)")
    case True
    then have act: "MoveToAction m = int ?f * 196 + int ?f * 7 + 6"
      using np by (auto simp: MoveToAction_def Let_def)
    have "ActionToMove (int ?f * 196 + int ?f * 7 + int 6)
          = \<lparr> from_tile = ?f, to_tile = kNoneTile, direction = 6 \<rparr>"
      using ActionToMove_encoded [OF f28 f28, of 6] by simp
    then have "ActionToString p (MoveToAction m) = Some nf"
      using hf nf(1) by (simp add: act ActionToString_def Move_ToUHP_def IsPass_def HasValue_def)
    moreover have "StringToAction p nf = Some (MoveToAction m)"
      unfolding act using nf(5) hf nf(3) nf(4) by (rule StringToAction_one)
    ultimately show ?thesis by blast
  next
    case False
    then have ht: "HasValue ?t" and ne: "\<not> (?f = ?t \<and> ?d = 6)" by auto
    from ht have t28: "?t < 28" by (simp add: HasValue_def)
    from ht obtain nt where nt: "Tile_ToUHP ?t = Some nt" "nt \<noteq> []"
        "\<forall>c \<in> set nt. \<not> is_direction_char c \<and> c \<noteq> CHR '' ''" "nt \<noteq> ''pass''"
        "UHPToTile nt = Some ?t"
      by (rule tile_name_okD)
    have act: "MoveToAction m = int ?f * 196 + int ?t * 7 + int ?d"
      using np ht by (simp add: MoveToAction_def Let_def)
    have mv: "ActionToMove (MoveToAction m) = \<lparr> from_tile = ?f, to_tile = ?t, direction = ?d \<rparr>"
      unfolding act using ActionToMove_encoded [OF f28 t28 dir] ne by simp
    have m_eq: "\<lparr> from_tile = ?f, to_tile = ?t, direction = ?d \<rparr> = m" by (cases m) simp
    have sp: "CHR '' '' \<notin> set nt" using nt(3) by auto
    have key: "?thesis"
      if "Move_ToUHP m = Some (nf @ '' '' @ r)" and "reference_tile_name r = Some nt"
        and "reference_direction r = ?d" and "CHR '' '' \<notin> set r" and "r \<noteq> []" for r
    proof -
      have "StringToAction p (nf @ '' '' @ r)
            = Some (MoveToAction \<lparr> from_tile = ?f, to_tile = ?t, direction = ?d \<rparr>)"
        using StringToAction_two [OF nf(5) hf nf(3) that(4) that(5) that(2) nt(5)] that(3)
        by simp
      then have "StringToAction p (nf @ '' '' @ r) = Some (MoveToAction m)"
        by (simp only: m_eq)
      moreover have "ActionToString p (MoveToAction m) = Some (nf @ '' '' @ r)"
        using that(1) by (simp add: ActionToString_def mv m_eq)
      ultimately show ?thesis by blast
    qed
    have dc: "is_direction_char (CHR ''/'')" "is_direction_char (CHR ''-'')"
      "is_direction_char backslash"
      by (simp_all add: is_direction_char_def)
    have uhp: "Move_ToUHP m =
       (if ?d = kNE then Some (nf @ '' '' @ nt @ ''/'')
        else if ?d = kE then Some (nf @ '' '' @ nt @ ''-'')
        else if ?d = kSE then Some (nf @ '' '' @ nt @ [backslash])
        else if ?d = kSW then Some (nf @ '' '' @ ''/'' @ nt)
        else if ?d = kW then Some (nf @ '' '' @ ''-'' @ nt)
        else if ?d = kNW then Some (nf @ '' '' @ [backslash] @ nt)
        else if ?d = kAbove then Some (nf @ '' '' @ nt) else None)"
      using np ht nf(1) nt(1) by (simp add: Move_ToUHP_def)
    from direction_cases [OF dir] consider
      "?d = kNE" | "?d = kE" | "?d = kSE" | "?d = kSW" | "?d = kW" | "?d = kNW" | "?d = kAbove"
      by auto
    then show ?thesis
    proof cases
      case 1
      show ?thesis
        using uhp 1 reference_suffix [OF nt(3) nt(2) dc(1)] sp nt(2)
        by (intro key [of "nt @ ''/''"]) simp_all
    next
      case 2
      show ?thesis
        using uhp 2 reference_suffix [OF nt(3) nt(2) dc(2)] sp nt(2)
        by (intro key [of "nt @ ''-''"]) simp_all
    next
      case 3
      show ?thesis
        using uhp 3 reference_suffix [OF nt(3) nt(2) dc(3)] sp nt(2)
        by (intro key [of "nt @ [backslash]"]) simp_all
    next
      case 4
      show ?thesis
        using uhp 4 reference_prefix [OF nt(3) nt(2) dc(1)] sp nt(2)
        by (intro key [of "''/'' @ nt"]) simp_all
    next
      case 5
      show ?thesis
        using uhp 5 reference_prefix [OF nt(3) nt(2) dc(2)] sp nt(2)
        by (intro key [of "''-'' @ nt"]) simp_all
    next
      case 6
      show ?thesis
        using uhp 6 reference_prefix [OF nt(3) nt(2) dc(3)] sp nt(2)
        by (intro key [of "[backslash] @ nt"]) simp_all
    next
      case 7
      show ?thesis
        using uhp 7 reference_above [OF nt(3) nt(2)] sp nt(2)
        by (intro key [of nt]) simp_all
    qed
  qed
qed

theorem UHP_round_trip_witness:
  "ActionToString kPlayerBlack
      (MoveToAction \<lparr> from_tile = bG1, to_tile = wA2, direction = kW \<rparr>) = Some ''bG1 -wA2''
   \<and> StringToAction kPlayerBlack ''bG1 -wA2''
       = Some (MoveToAction \<lparr> from_tile = bG1, to_tile = wA2, direction = kW \<rparr>)
   \<and> MoveToAction \<lparr> from_tile = bG1, to_tile = wA2, direction = kW \<rparr> = 3546"
proof -
  let ?m = "\<lparr> from_tile = bG1, to_tile = wA2, direction = kW \<rparr>"
  have np: "\<not> IsPass ?m" by (simp add: IsPass_def HasValue_def)
  have d: "direction ?m \<le> kAbove" by simp
  have s: "ActionToString kPlayerBlack (MoveToAction ?m) = Some ''bG1 -wA2''" by code_simp
  have a: "MoveToAction ?m = 3546" by code_simp
  from UHP_round_trip [OF np d, of kPlayerBlack] s a show ?thesis by simp
qed

section \<open>A move that leaves the board\<close>

lemma IsQueenSurrounded_largest_radius:
  "IsQueenSurrounded (b\<lparr>largest_radius := x\<rparr>) c = IsQueenSurrounded b c"
  by (simp add: IsQueenSurrounded_def IsInPlay_def GetTopTileAt_def Radius_def AxialToIndex_def
      SquareDimensions_def)

lemma MoveTile_overflow:
  assumes "HasValue (from_tile m)"
    and "Radius b < DistanceTo (MoveTile_new_pos b m) kOriginPosition"
  shows "MoveTile b m
         = Some (False, b\<lparr>largest_radius :=
                   max (largest_radius b) (DistanceTo (MoveTile_new_pos b m) kOriginPosition)\<rparr>)"
  using assms by (simp add: MoveTile_def Let_def Radius_def)

text \<open>
  Claim C3. When the destination of a move, applied to a state that is not terminal, is
  farther from the origin than the radius of the board, \<open>MoveTile\<close> returns failure and
  leaves the grid, the tile positions, the played tiles, the covered tiles, the influence
  sets and the articulation points as they were (\<open>largest_radius\<close> alone is updated);
  the state latches \<open>force_terminal\<close>, is terminal, and its returns are 0 and 0.
\<close>

theorem overflow_is_draw:
  assumes np: "action \<noteq> PassAction"
    and hv: "HasValue (from_tile (ActionToMove action))"
    and far: "Radius (board s)
                < DistanceTo (MoveTile_new_pos (board s) (ActionToMove action)) kOriginPosition"
    and nt: "\<not> IsTerminal s"
  shows "\<exists>b' s'. MoveTile (board s) (ActionToMove action) = Some (False, b')
           \<and> tile_grid b' = tile_grid (board s)
           \<and> tile_positions b' = tile_positions (board s)
           \<and> played_tiles b' = played_tiles (board s)
           \<and> covered_tiles b' = covered_tiles (board s)
           \<and> colour_influence b' = colour_influence (board s)
           \<and> articulation_points b' = articulation_points (board s)
           \<and> b' = (board s)\<lparr>largest_radius := largest_radius b'\<rparr>
           \<and> ApplyAction s action = Some s'
           \<and> board s' = b'
           \<and> force_terminal s'
           \<and> IsTerminal s'
           \<and> Returns s' = [0, 0]"
proof -
  let ?d = "DistanceTo (MoveTile_new_pos (board s) (ActionToMove action)) kOriginPosition"
  let ?b = "(board s)\<lparr>largest_radius := max (largest_radius (board s)) ?d\<rparr>"
  let ?s = "s\<lparr> board := ?b, force_terminal := True,
               current_player := (current_player s + 1) mod kNumPlayers,
               history := history s @ [action], move_number := move_number s + 1 \<rparr>"
  have mt: "MoveTile (board s) (ActionToMove action) = Some (False, ?b)"
    using hv far by (rule MoveTile_overflow)
  have ap: "ApplyAction s action = Some ?s"
    using np by (simp add: ApplyAction_def DoApplyAction_def mt)
  have win: "\<not> WinConditionMet ?s kPlayerWhite" "\<not> WinConditionMet ?s kPlayerBlack"
    using nt by (simp_all add: IsTerminal_def WinConditionMet_def IsQueenSurrounded_largest_radius)
  have "IsTerminal ?s" by (simp add: IsTerminal_def)
  moreover have "Returns ?s = [0, 0]" using win by (simp add: Returns_def)
  ultimately show ?thesis using mt ap by simp
qed

theorem overflow_is_draw_witness:
  "3067 \<in> set (the (LegalActions overflow_state))
   \<and> Radius (board overflow_state) = 1
   \<and> DistanceTo (MoveTile_new_pos (board overflow_state) (ActionToMove 3067)) kOriginPosition = 2
   \<and> ActionToString kPlayerBlack 3067 = Some ''bA1 bG1-''
   \<and> MoveTile (board overflow_state) (ActionToMove 3067)
       = Some (False, (board overflow_state)\<lparr>largest_radius := 2\<rparr>)
   \<and> ApplyAction overflow_state 3067
       = Some (overflow_state\<lparr> board := (board overflow_state)\<lparr>largest_radius := 2\<rparr>,
                 force_terminal := True, current_player := 0,
                 history := [818, 3557, 228, 3067], move_number := 4 \<rparr>)
   \<and> IsTerminal (the (ApplyAction overflow_state 3067))
   \<and> Returns (the (ApplyAction overflow_state 3067)) = [0, 0]"
proof -
  have np: "(3067 :: int) \<noteq> PassAction" by (simp add: PassAction_def NumDistinctActions_def)
  have hv: "HasValue (from_tile (ActionToMove 3067))" by code_simp
  have r: "Radius (board overflow_state) = 1" by code_simp
  have d: "DistanceTo (MoveTile_new_pos (board overflow_state) (ActionToMove 3067)) kOriginPosition = 2"
    by code_simp
  have far: "Radius (board overflow_state)
       < DistanceTo (MoveTile_new_pos (board overflow_state) (ActionToMove 3067)) kOriginPosition"
    by (simp add: r d)
  have nt: "\<not> IsTerminal overflow_state" by code_simp
  have str: "ActionToString kPlayerBlack 3067 = Some ''bA1 bG1-''" by code_simp
  have ap: "ApplyAction overflow_state 3067
       = Some (overflow_state\<lparr> board := (board overflow_state)\<lparr>largest_radius := 2\<rparr>,
                 force_terminal := True, current_player := 0,
                 history := [818, 3557, 228, 3067], move_number := 4 \<rparr>)"
    by code_simp
  have mt: "MoveTile (board overflow_state) (ActionToMove 3067)
       = Some (False, (board overflow_state)\<lparr>largest_radius := 2\<rparr>)"
    by code_simp
  have legal: "3067 \<in> set (the (LegalActions overflow_state))" by code_simp
  from overflow_is_draw [OF np hv far nt] r d str ap mt legal show ?thesis by auto
qed

section \<open>The Queen on the fourth turn\<close>

lemma fold_invariant:
  assumes "P a" and "\<And>x acc. x \<in> set xs \<Longrightarrow> P acc \<Longrightarrow> P (f x acc)"
  shows "P (fold f xs a)"
  using assms by (induction xs arbitrary: a) auto

lemma GetTileFrom_queen: "GetTileFrom c kQueen 1 = (if c = kWhite then wQ else bQ)"
  by (simp add: GetTileFrom_def tiles_before_def)

lemma queen_of_colour:
  "tile \<in> set (GetTilesForColour c) \<Longrightarrow> GetBugType tile = kQueen
     \<Longrightarrow> tile = (if c = kWhite then wQ else bQ)"
  by (cases c) (auto simp: GetTilesForColour_def GetBugType_def)

lemma OppositeDirection_less: "OppositeDirection i < 6"
  by (simp add: OppositeDirection_def)

lemma placement_references_queen:
  assumes "list_all (queen_placement c) out" and "tile = (if c = kWhite then wQ else bQ)"
  shows "list_all (queen_placement c) (placement_references b tile pos out)"
  unfolding placement_references_def using assms(1)
  by (rule fold_invariant)
     (auto simp: Let_def queen_placement_def assms(2) OppositeDirection_less)

lemma placement_positions_queen:
  assumes "list_all (queen_placement c) out" and "tile = (if c = kWhite then wQ else bQ)"
  shows "list_all (queen_placement c) (placement_positions b c tile out)"
  unfolding placement_positions_def using assms(1)
  by (rule fold_invariant) (auto intro: placement_references_queen [OF _ assms(2)])

lemma placements_on_queen_turn:
  assumes mn: "n = 6 \<or> n = (7::nat)"
    and q: "\<not> IsInPlay b (if c = kWhite then wQ else bQ)"
  shows "list_all (queen_placement c) (GeneratePlacementMoves b [] c n)"
proof -
  have two: "n \<noteq> 0" "n \<noteq> 1" "\<not> 8 \<le> n"
    using mn by auto
  have "list_all (queen_placement c)
          (fold (\<lambda>tile out.
                   if IsInPlay b tile then out
                   else if (n = 6 \<or> n = 7)
                           \<and> \<not> (n \<ge> 8 \<or> IsInPlay b (if c = kWhite then wQ else bQ))
                           \<and> GetBugType tile \<noteq> kQueen
                   then out
                   else placement_positions b c tile out)
                (GetTilesForColour c) [])"
  proof (rule fold_invariant)
    show "list_all (queen_placement c) []" by simp
  next
    fix tile acc
    assume t: "tile \<in> set (GetTilesForColour c)" and acc: "list_all (queen_placement c) acc"
    show "list_all (queen_placement c)
            (if IsInPlay b tile then acc
             else if (n = 6 \<or> n = 7)
                     \<and> \<not> (n \<ge> 8 \<or> IsInPlay b (if c = kWhite then wQ else bQ))
                     \<and> GetBugType tile \<noteq> kQueen
             then acc
             else placement_positions b c tile acc)"
    proof (cases "GetBugType tile = kQueen")
      case True
      with t have "tile = (if c = kWhite then wQ else bQ)" by (rule queen_of_colour)
      with acc show ?thesis by (simp add: placement_positions_queen)
    next
      case False
      with acc mn q two show ?thesis by simp
    qed
  qed
  then show ?thesis
    by (simp only: GeneratePlacementMoves_def Let_def two(1,2) if_False)
qed


lemma queen_placement_action:
  assumes "queen_placement c m"
  shows "MoveToAction m \<noteq> PassAction" and "ActionToMove (MoveToAction m) = m"
proof -
  let ?f = "from_tile m" and ?t = "to_tile m" and ?d = "direction m"
  have f: "?f < 28" and t: "?t < 28" and d: "?d < 6"
    using assms by (auto simp: queen_placement_def HasValue_def)
  have enc: "MoveToAction m = int ?f * 196 + int ?t * 7 + int ?d"
    using f t by (simp add: MoveToAction_def IsPass_def HasValue_def Let_def)
  have "int ?f * 196 + int ?t * 7 + int ?d \<le> 27 * 196 + 27 * 7 + 6"
    using f t d by simp
  then show "MoveToAction m \<noteq> PassAction"
    by (simp add: enc PassAction_def NumDistinctActions_def)
  have "ActionToMove (MoveToAction m)
        = \<lparr> from_tile = ?f, to_tile = (if ?f = ?t \<and> ?d = 6 then kNoneTile else ?t),
            direction = ?d \<rparr>"
    unfolding enc using f t d by (intro ActionToMove_encoded) simp_all
  then show "ActionToMove (MoveToAction m) = m"
    using d by simp
qed

text \<open>
  Claim C5. In a state whose move number is 6 or 7 and in which the Queen of the player
  to move is not in play, the generator returns the placement moves alone (no movement is
  generated), every one of them places that Queen next to a reference tile in a cardinal
  direction, the list of legal actions is produced, and every legal action other than the
  pass decodes to such a placement of the Queen.
\<close>

theorem queen_on_fourth_turn:
  assumes mn: "move_number s = 6 \<or> move_number s = 7"
    and q: "\<not> IsInPlay (board s) (GetTileFrom (PlayerToColour (current_player s)) kQueen 1)"
  shows "\<exists>actions.
           GenerateAllMoves (board s) [] (PlayerToColour (current_player s)) (move_number s)
             = Some (GeneratePlacementMoves (board s) []
                       (PlayerToColour (current_player s)) (move_number s))
           \<and> list_all (\<lambda>m. from_tile m = GetTileFrom (PlayerToColour (current_player s)) kQueen 1
                            \<and> HasValue (to_tile m) \<and> direction m < kNumCardinalDirections)
               (GeneratePlacementMoves (board s) []
                  (PlayerToColour (current_player s)) (move_number s))
           \<and> LegalActions s = Some actions
           \<and> list_all (\<lambda>a. a = PassAction
                            \<or> (from_tile (ActionToMove a)
                                 = GetTileFrom (PlayerToColour (current_player s)) kQueen 1
                               \<and> HasValue (to_tile (ActionToMove a))
                               \<and> direction (ActionToMove a) < kNumCardinalDirections))
               actions"
proof -
  let ?c = "PlayerToColour (current_player s)"
  let ?moves = "GeneratePlacementMoves (board s) [] ?c (move_number s)"
  let ?sorted = "sort (remdups (map MoveToAction ?moves))"
  let ?actions = "if length ?sorted = 0 then ?sorted @ [PassAction] else ?sorted"
  have q': "\<not> IsInPlay (board s) (if ?c = kWhite then wQ else bQ)"
    using q unfolding GetTileFrom_queen .
  have gen: "GenerateAllMoves (board s) [] ?c (move_number s) = Some ?moves"
    using q by (simp add: GenerateAllMoves_def Let_def)
  have moves: "list_all (queen_placement ?c) ?moves"
    using mn q' by (rule placements_on_queen_turn)
  then have shape: "list_all (\<lambda>m. from_tile m = GetTileFrom ?c kQueen 1
                            \<and> HasValue (to_tile m) \<and> direction m < kNumCardinalDirections) ?moves"
    by (auto simp: list_all_iff queen_placement_def GetTileFrom_queen simp del: One_nat_def)
  have legal: "LegalActions s = Some ?actions"
    by (simp only: LegalActions_def gen Let_def option.case)
  have "a = PassAction \<or> queen_placement ?c (ActionToMove a)" if "a \<in> set ?actions" for a
  proof (cases "a \<in> set ?sorted")
    case True
    then obtain m where m: "m \<in> set ?moves" and a: "a = MoveToAction m" by auto
    from moves m have "queen_placement ?c m" by (simp add: list_all_iff)
    then show ?thesis by (simp add: a queen_placement_action)
  next
    case False
    with that show ?thesis by (auto split: if_splits)
  qed
  then have "list_all (\<lambda>a. a = PassAction
                            \<or> (from_tile (ActionToMove a) = GetTileFrom ?c kQueen 1
                               \<and> HasValue (to_tile (ActionToMove a))
                               \<and> direction (ActionToMove a) < kNumCardinalDirections)) ?actions"
    unfolding list_all_iff
    by (auto simp: queen_placement_def GetTileFrom_queen simp del: One_nat_def)
  with gen shape legal show ?thesis by blast
qed


theorem queen_on_fourth_turn_witness:
  "ApplyAction game_s5 3039 = Some queen_turn_state
   \<and> move_number queen_turn_state = 6
   \<and> GetTileFrom (PlayerToColour (current_player queen_turn_state)) kQueen 1 = wQ
   \<and> \<not> IsInPlay (board queen_turn_state) wQ
   \<and> LegalActions queen_turn_state = Some [7, 9, 10, 12, 14, 16, 17, 18, 19, 31, 33]
   \<and> list_all (\<lambda>a. from_tile (ActionToMove a) = wQ)
        [7, 9, 10, 12, 14, 16, 17, 18, 19, 31, 33]"
proof -
  have reach: "ApplyAction game_s5 3039 = Some queen_turn_state" by code_simp
  have mn6: "move_number queen_turn_state = 6" by code_simp
  then have mn: "move_number queen_turn_state = 6 \<or> move_number queen_turn_state = 7" ..
  have c: "GetTileFrom (PlayerToColour (current_player queen_turn_state)) kQueen 1 = wQ"
    by code_simp
  have q': "\<not> IsInPlay (board queen_turn_state) wQ" by code_simp
  have q: "\<not> IsInPlay (board queen_turn_state)
               (GetTileFrom (PlayerToColour (current_player queen_turn_state)) kQueen 1)"
    unfolding c by (rule q')
  have legal: "LegalActions queen_turn_state = Some [7, 9, 10, 12, 14, 16, 17, 18, 19, 31, 33]"
    by code_simp
  from queen_on_fourth_turn [OF mn q] obtain actions where
    la: "LegalActions queen_turn_state = Some actions" and
    queen: "list_all (\<lambda>a. a = PassAction
                 \<or> (from_tile (ActionToMove a)
                      = GetTileFrom (PlayerToColour (current_player queen_turn_state)) kQueen 1
                    \<and> HasValue (to_tile (ActionToMove a))
                    \<and> direction (ActionToMove a) < kNumCardinalDirections)) actions"
    by blast
  from la legal have "actions = [7, 9, 10, 12, 14, 16, 17, 18, 19, 31, 33]" by simp
  with queen have "list_all (\<lambda>a. a = PassAction \<or> (from_tile (ActionToMove a) = wQ
                    \<and> HasValue (to_tile (ActionToMove a))
                    \<and> direction (ActionToMove a) < kNumCardinalDirections))
                 [7, 9, 10, 12, 14, 16, 17, 18, 19, 31, 33]"
    by (simp only: c)
  moreover have "list_all (\<lambda>a. a \<noteq> PassAction) [7, 9, 10, 12, 14, 16, 17, 18, 19, 31, 33]"
    by (simp add: PassAction_def NumDistinctActions_def)
  ultimately have "list_all (\<lambda>a. from_tile (ActionToMove a) = wQ)
                     [7, 9, 10, 12, 14, 16, 17, 18, 19, 31, 33]"
    unfolding list_all_iff by blast
  with reach mn6 c q' legal show ?thesis by (simp only: simp_thms)
qed

section \<open>The One-Hive invariant before White's Queen is placed\<close>

lemma game_step3: "ApplyAction game_s2 228 = Some game_s3"
  by code_simp

lemma game_step4: "ApplyAction game_s3 2871 = Some game_s4"
  by code_simp

lemma game_step5: "ApplyAction game_s4 403 = Some game_s5"
  by code_simp

lemma game_step6: "ApplyAction game_s5 3546 = Some game_s6"
  by code_simp

lemma game_legal1: "818 \<in> set (the (LegalActions (NewInitialState default_game)))"
  by code_simp

lemma game_legal2: "3557 \<in> set (the (LegalActions game_s1))"
  by code_simp

lemma game_legal3: "228 \<in> set (the (LegalActions game_s2))"
  by code_simp

lemma game_legal4: "2871 \<in> set (the (LegalActions game_s3))"
  by code_simp

lemma game_legal5: "403 \<in> set (the (LegalActions game_s4))"
  by code_simp

lemma game_legal6: "3546 \<in> set (the (LegalActions game_s5))"
  by code_simp

lemma game_names:
  "map (ActionToString kPlayerWhite) [818, 3557, 228, 2871, 403, 3546]
   = [Some ''wG1'', Some ''bG1 wG1-'', Some ''wA1 -wG1'', Some ''bQ bG1-'',
      Some ''wA2 -wA1'', Some ''bG1 -wA2'']"
  by code_simp

text \<open>
  After five moves the hive is the row of the cells \<open>(-2, 0)\<close> to \<open>(2, 0)\<close>; White's Queen
  is not placed, so the search for the articulation points starts at the null position
  \<open>(0, 0, -1)\<close> and the points it finds have the height \<open>-1\<close>: no tile is pinned.
\<close>

lemma game_s5_pins:
  "\<not> IsInPlay (board game_s5) wQ
   \<and> articulation_points (board game_s5)
       = [HivePosition 1 0 (- 1), HivePosition (- 1) 0 (- 1), HivePosition 0 0 (- 1)]
   \<and> GetPositionOf (board game_s5) bG1 = HivePosition 1 0 0
   \<and> \<not> IsPinned (board game_s5) bG1"
  by code_simp

lemma game_s5_one_hive: "one_hive (board game_s5)"
proof -
  let ?o = "HivePosition 0 0 0" and ?e1 = "HivePosition 1 0 0" and ?e2 = "HivePosition 2 0 0"
    and ?w1 = "HivePosition (- 1) 0 0" and ?w2 = "HivePosition (- 2) 0 0"
  let ?R = "hive_adjacency (board game_s5)"
  have cells: "hive_positions (board game_s5) = [?o, ?e1, ?w1, ?e2, ?w2]"
    by code_simp
  have adj: "cardinal_adjacent ?o ?e1" "cardinal_adjacent ?e1 ?o"
    "cardinal_adjacent ?e1 ?e2" "cardinal_adjacent ?e2 ?e1"
    "cardinal_adjacent ?o ?w1" "cardinal_adjacent ?w1 ?o"
    "cardinal_adjacent ?w1 ?w2" "cardinal_adjacent ?w2 ?w1"
    by code_simp+
  have edges: "(?o, ?e1) \<in> ?R" "(?e1, ?o) \<in> ?R" "(?e1, ?e2) \<in> ?R" "(?e2, ?e1) \<in> ?R"
    "(?o, ?w1) \<in> ?R" "(?w1, ?o) \<in> ?R" "(?w1, ?w2) \<in> ?R" "(?w2, ?w1) \<in> ?R"
    by (simp_all add: hive_adjacency_def cells adj)
  have e1: "(?o, ?e1) \<in> ?R\<^sup>*" "(?e1, ?o) \<in> ?R\<^sup>*"
    using edges by blast+
  have e2: "(?o, ?e2) \<in> ?R\<^sup>*" "(?e2, ?o) \<in> ?R\<^sup>*"
    using e1 edges by (blast intro: rtrancl_into_rtrancl converse_rtrancl_into_rtrancl)+
  have w1: "(?o, ?w1) \<in> ?R\<^sup>*" "(?w1, ?o) \<in> ?R\<^sup>*"
    using edges by blast+
  have w2: "(?o, ?w2) \<in> ?R\<^sup>*" "(?w2, ?o) \<in> ?R\<^sup>*"
    using w1 edges by (blast intro: rtrancl_into_rtrancl converse_rtrancl_into_rtrancl)+
  have root: "(?o, p) \<in> ?R\<^sup>* \<and> (p, ?o) \<in> ?R\<^sup>*" if "p \<in> set (hive_positions (board game_s5))" for p
    using that e1 e2 w1 w2 unfolding cells by auto
  have "(p, q) \<in> ?R\<^sup>*"
    if "p \<in> set (hive_positions (board game_s5))" "q \<in> set (hive_positions (board game_s5))"
    for p q
    using root [OF that(1)] root [OF that(2)] by (blast intro: rtrancl_trans)
  then show ?thesis
    unfolding one_hive_def by blast
qed

lemma game_s6_not_one_hive: "\<not> one_hive (board game_s6)"
proof
  let ?o = "HivePosition 0 0 0" and ?e2 = "HivePosition 2 0 0"
    and ?w1 = "HivePosition (- 1) 0 0" and ?w2 = "HivePosition (- 2) 0 0"
    and ?w3 = "HivePosition (- 3) 0 0"
  let ?R = "hive_adjacency (board game_s6)"
  assume hive: "one_hive (board game_s6)"
  have cells: "hive_positions (board game_s6) = [?o, ?w3, ?w1, ?e2, ?w2]"
    by code_simp
  have alone: "list_all (\<lambda>q. \<not> cardinal_adjacent ?e2 q) [?o, ?w3, ?w1, ?e2, ?w2]"
    by code_simp
  have "(?e2, ?o) \<in> set (hive_positions (board game_s6)) \<times> set (hive_positions (board game_s6))"
    unfolding cells by simp
  with hive have "(?e2, ?o) \<in> ?R\<^sup>*"
    unfolding one_hive_def by blast
  then show False
  proof (cases rule: converse_rtranclE)
    case base
    then show False by simp
  next
    case (step z)
    then have "z \<in> set [?o, ?w3, ?w1, ?e2, ?w2]" and "cardinal_adjacent ?e2 z"
      by (simp_all add: hive_adjacency_def cells)
    with alone show False
      unfolding list_all_iff by blast
  qed
qed

text \<open>
  Claim C1 fails in the code. In the default game, after the legal moves \<open>wG1\<close>,
  \<open>bG1 wG1-\<close>, \<open>wA1 -wG1\<close>, \<open>bQ bG1-\<close> and \<open>wA2 -wA1\<close> the hive is one row of five tiles
  and satisfies the invariant; the game is not over and White's Queen is not placed. The
  enumerated legal actions of Black hold \<open>bG1 -wA2\<close>: the Grasshopper \<open>bG1\<close>, which stands
  between \<open>wG1\<close> and Black's Queen and is not reported as pinned, jumps over the row.
  Applying the action succeeds, and in the state it yields Black's Queen has no neighbour:
  the played, uncovered tiles are no longer one connected component.
\<close>

theorem one_hive_broken_before_white_queen:
  "ApplyAction (NewInitialState default_game) 818 = Some game_s1
   \<and> ApplyAction game_s1 3557 = Some game_s2
   \<and> ApplyAction game_s2 228 = Some game_s3
   \<and> ApplyAction game_s3 2871 = Some game_s4
   \<and> ApplyAction game_s4 403 = Some game_s5
   \<and> 818 \<in> set (the (LegalActions (NewInitialState default_game)))
   \<and> 3557 \<in> set (the (LegalActions game_s1))
   \<and> 228 \<in> set (the (LegalActions game_s2))
   \<and> 2871 \<in> set (the (LegalActions game_s3))
   \<and> 403 \<in> set (the (LegalActions game_s4))
   \<and> \<not> IsTerminal game_s5
   \<and> one_hive (board game_s5)
   \<and> 3546 \<in> set (the (LegalActions game_s5))
   \<and> ActionToString kPlayerBlack 3546 = Some ''bG1 -wA2''
   \<and> ApplyAction game_s5 3546 = Some game_s6
   \<and> \<not> one_hive (board game_s6)"
proof -
  have nt: "\<not> IsTerminal game_s5" by code_simp
  have name: "ActionToString kPlayerBlack 3546 = Some ''bG1 -wA2''" by code_simp
  from game_step1 game_step2 game_step3 game_step4 game_step5 game_step6
    game_legal1 game_legal2 game_legal3 game_legal4 game_legal5 game_legal6
    nt name game_s5_one_hive game_s6_not_one_hive
  show ?thesis by (simp only: simp_thms)
qed

section \<open>The three steps of the Spider\<close>

lemma NeighbourAt_back:
  "d < 6 \<Longrightarrow> NeighbourAt (NeighbourAt p d) (OppositeDirection d) = p"
proof -
  assume "d < 6"
  then consider "d = 0" | "d = 1" | "d = 2" | "d = 3" | "d = 4" | "d = 5" by linarith
  then show ?thesis
    by cases (simp_all add: NeighbourAt_def OppositeDirection_def kNeighbourOffsets_def pos_add_def)
qed

lemma NeighbourAt_neq: "d < 6 \<Longrightarrow> NeighbourAt p d \<noteq> p"
proof -
  assume "d < 6"
  then consider "d = 0" | "d = 1" | "d = 2" | "d = 3" | "d = 4" | "d = 5" by linarith
  then show ?thesis
    by cases (cases p; simp add: NeighbourAt_def kNeighbourOffsets_def pos_add_def)+
qed

lemma NeighbourAt_H: "d < 6 \<Longrightarrow> H (NeighbourAt p d) = H p"
proof -
  assume "d < 6"
  then consider "d = 0" | "d = 1" | "d = 2" | "d = 3" | "d = 4" | "d = 5" by linarith
  then show ?thesis
    by cases (simp_all add: NeighbourAt_def kNeighbourOffsets_def pos_add_def)
qed

lemma slide_scan_skip:
  "depth \<noteq> distance \<Longrightarrow> \<not> distance < 0 \<Longrightarrow>
     slide_scan b start_pos distance visited pos frm depth out = out"
  by (simp add: slide_scan_def Let_def upt_rec numeral_eq_Suc)

lemma slide_scan_fold:
  "set (fold (\<lambda>dir out.
             let to_test = pos_add pos (kNeighbourOffsets ! dir)
             in if dir = frm then out
                else if hs_contains visited to_test then out
                else if slide_blocked b start_pos pos dir then out
                else if depth = distance \<or> distance < 0 then hs_insert to_test out
                else out) ds out)
   = set out \<union> (if depth = distance \<or> distance < 0
                 then {NeighbourAt pos d | d. d \<in> set ds \<and> d \<noteq> frm
                         \<and> NeighbourAt pos d \<notin> set visited \<and> slide_ok b start_pos pos d}
                 else {})"
  by (induction ds arbitrary: out)
     (auto simp: Let_def hs_contains_def NeighbourAt_def slide_ok_def)

lemma slide_scan_emit:
  "set (slide_scan b start_pos distance visited pos frm distance out)
   = set out \<union> {NeighbourAt pos d | d. d < 6 \<and> d \<noteq> frm
                    \<and> NeighbourAt pos d \<notin> set visited \<and> slide_ok b start_pos pos d}"
  unfolding slide_scan_def slide_scan_fold by simp

declare slide_dfs.simps [simp del] slide_loop.simps [simp del]

lemma slide_ends_one:
  assumes "frm < 6 \<longrightarrow> NeighbourAt pos frm \<in> V"
  shows "slide_ends ok (Suc 0) pos V
         = {NeighbourAt pos d | d. d < 6 \<and> d \<noteq> frm \<and> NeighbourAt pos d \<notin> V \<and> ok pos d}"
  using assms NeighbourAt_neq [of _ pos] by (auto split: if_splits)

lemma upt_6_split: "dir < 6 \<Longrightarrow> {dir ..< 6} = insert dir {dir + 1 ..< (6::nat)}"
  by auto

lemma slide_dfs_ends:
  "\<not> distance < 0 \<Longrightarrow> depth \<le> distance \<Longrightarrow> pos \<notin> set (snd ov) \<Longrightarrow>
   (frm < 6 \<longrightarrow> NeighbourAt pos frm \<in> set (snd ov)) \<Longrightarrow>
     set (fst (slide_dfs b start_pos distance ov pos frm depth))
       = set (fst ov) \<union> slide_ends (slide_ok b start_pos) (Suc (nat (distance - depth))) pos
                          (set (snd ov))
     \<and> set (snd (slide_dfs b start_pos distance ov pos frm depth))
       = (if depth = distance then set (snd ov) else insert pos (set (snd ov)))"
  and slide_loop_ends:
  "\<not> distance < 0 \<Longrightarrow> depth < distance \<Longrightarrow> pos \<in> set (snd ov) \<Longrightarrow>
   (frm < 6 \<longrightarrow> NeighbourAt pos frm \<in> set (snd ov)) \<Longrightarrow>
     set (fst (slide_loop b start_pos distance ov pos frm depth dir))
       = set (fst ov)
         \<union> (\<Union>d \<in> {dir ..< 6}.
              if slide_ok b start_pos pos d \<and> NeighbourAt pos d \<notin> set (snd ov)
              then slide_ends (slide_ok b start_pos) (nat (distance - depth))
                     (NeighbourAt pos d) (set (snd ov))
              else {})
     \<and> set (snd (slide_loop b start_pos distance ov pos frm depth dir)) = set (snd ov)"
proof (induction b start_pos distance ov pos frm depth and b start_pos distance ov pos frm depth dir
       rule: slide_dfs_slide_loop.induct)
  case (1 b start_pos distance ov pos frm depth)
  note nn = \<open>\<not> distance < 0\<close> and le = \<open>depth \<le> distance\<close> and nv = \<open>pos \<notin> set (snd ov)\<close>
    and fr = \<open>frm < 6 \<longrightarrow> NeighbourAt pos frm \<in> set (snd ov)\<close>
  have cond: "\<not> (hs_contains (snd ov) pos \<or> \<not> distance < 0 \<and> distance < depth)"
    using nn le nv by (simp add: hs_contains_def)
  show ?case
  proof (cases "depth = distance")
    case True
    have eq: "slide_dfs b start_pos distance ov pos frm depth
              = (slide_scan b start_pos distance (snd ov) pos frm distance (fst ov), snd ov)"
      using cond True by (subst slide_dfs.simps) (simp add: Let_def)
    have z: "Suc (nat (distance - depth)) = Suc 0" using True by simp
    show ?thesis
      unfolding eq z slide_ends_one [OF fr] using True by (simp add: slide_scan_emit)
  next
    case False
    then have lt: "depth < distance" using le by simp
    have eq: "slide_dfs b start_pos distance ov pos frm depth
              = slide_loop b start_pos distance (fst ov, hs_insert pos (snd ov)) pos frm depth 0"
      using cond False nn by (subst slide_dfs.simps) (simp add: Let_def slide_scan_skip)
    have scan: "slide_scan b start_pos distance (snd ov) pos frm depth (fst ov) = fst ov"
      using False nn by (rule slide_scan_skip)
    have ih: "set (fst (slide_loop b start_pos distance (fst ov, hs_insert pos (snd ov)) pos frm depth 0))
        = set (fst ov)
          \<union> (\<Union>d \<in> {0 ..< 6}.
               if slide_ok b start_pos pos d \<and> NeighbourAt pos d \<notin> insert pos (set (snd ov))
               then slide_ends (slide_ok b start_pos) (nat (distance - depth))
                      (NeighbourAt pos d) (insert pos (set (snd ov)))
               else {})
      \<and> set (snd (slide_loop b start_pos distance (fst ov, hs_insert pos (snd ov)) pos frm depth 0))
        = insert pos (set (snd ov))"
      using "1.IH" [OF cond refl False nn lt] fr by (simp add: scan)
    have ends: "slide_ends (slide_ok b start_pos) (Suc (nat (distance - depth))) pos (set (snd ov))
        = (\<Union>d \<in> {0 ..< 6}.
               if slide_ok b start_pos pos d \<and> NeighbourAt pos d \<notin> insert pos (set (snd ov))
               then slide_ends (slide_ok b start_pos) (nat (distance - depth))
                      (NeighbourAt pos d) (insert pos (set (snd ov)))
               else {})"
      by (rule slide_ends.simps(2))
    show ?thesis
      unfolding eq ends using ih False by simp
  qed
next
  case (2 b start_pos distance ov pos frm depth dir)
  note nn = \<open>\<not> distance < 0\<close> and lt = \<open>depth < distance\<close> and pv = \<open>pos \<in> set (snd ov)\<close>
    and fr = \<open>frm < 6 \<longrightarrow> NeighbourAt pos frm \<in> set (snd ov)\<close>
  let ?part = "\<lambda>d. if slide_ok b start_pos pos d \<and> NeighbourAt pos d \<notin> set (snd ov)
              then slide_ends (slide_ok b start_pos) (nat (distance - depth))
                     (NeighbourAt pos d) (set (snd ov))
              else {}"
  show ?case
  proof (cases "6 \<le> dir")
    case True
    then show ?thesis by (subst (1 2) slide_loop.simps) simp
  next
    case nd: False
    define x where "x = pos_add pos (kNeighbourOffsets ! dir)"
    have xN: "x = NeighbourAt pos dir" by (simp add: x_def NeighbourAt_def)
    have split: "(\<Union>d \<in> {dir ..< 6}. ?part d) = ?part dir \<union> (\<Union>d \<in> {dir + 1 ..< 6}. ?part d)"
      using nd by (subst upt_6_split) simp_all
    show ?thesis
    proof (cases "dir = frm \<or> hs_contains (snd ov) x \<or> slide_blocked b start_pos pos dir")
      case True
      then have skip: "slide_loop b start_pos distance ov pos frm depth dir
                       = slide_loop b start_pos distance ov pos frm depth (dir + 1)"
        using nd by (subst slide_loop.simps) (auto simp: Let_def x_def)
      have empty: "?part dir = {}"
        using True fr nd by (auto simp: xN hs_contains_def slide_ok_def)
      have ih: "set (fst (slide_loop b start_pos distance ov pos frm depth (dir + 1)))
                  = set (fst ov) \<union> (\<Union>d \<in> {dir + 1 ..< 6}. ?part d)
                \<and> set (snd (slide_loop b start_pos distance ov pos frm depth (dir + 1)))
                  = set (snd ov)"
      proof (cases "dir = frm")
        case True
        from "2.IH"(1) [OF nd x_def True nn lt pv fr] show ?thesis .
      next
        case nf: False
        show ?thesis
        proof (cases "hs_contains (snd ov) x")
          case True
          from "2.IH"(2) [OF nd x_def nf True nn lt pv fr] show ?thesis .
        next
          case nc: False
          with True nf have bl: "slide_blocked b start_pos pos dir" by simp
          from "2.IH"(3) [OF nd x_def nf nc bl nn lt pv fr] show ?thesis .
        qed
      qed
      show ?thesis
        unfolding skip split empty using ih by simp
    next
      case False
      then have nf: "dir \<noteq> frm" and nc: "\<not> hs_contains (snd ov) x"
        and nb: "\<not> slide_blocked b start_pos pos dir" by simp_all
      define out1 where
        "out1 = (if depth = distance \<or> distance < 0 then hs_insert x (fst ov) else fst ov)"
      define ov2 where
        "ov2 = slide_dfs b start_pos distance (out1, snd ov) x (OppositeDirection dir) (depth + 1)"
      define visited3 where
        "visited3 = (if \<not> distance < 0 then hs_erase x (snd ov2) else snd ov2)"
      have out1: "out1 = fst ov" using lt nn by (simp add: out1_def)
      have xv: "x \<notin> set (snd ov)" using nc by (simp add: hs_contains_def)
      have bk: "OppositeDirection dir < 6 \<longrightarrow> NeighbourAt x (OppositeDirection dir) \<in> set (snd ov)"
        using nd pv by (simp add: xN NeighbourAt_back)
      have dfs: "set (fst ov2)
                   = set (fst ov) \<union> slide_ends (slide_ok b start_pos)
                                      (Suc (nat (distance - (depth + 1)))) x (set (snd ov))
                 \<and> set (snd ov2)
                   = (if depth + 1 = distance then set (snd ov) else insert x (set (snd ov)))"
        using "2.IH"(4) [OF nd x_def nf nc nb out1_def nn _ _ _] lt xv bk
        by (simp add: ov2_def out1)
      have v3: "set visited3 = set (snd ov)"
        using dfs xv nn by (auto simp: visited3_def hs_erase_def)
      have ih: "set (fst (slide_loop b start_pos distance (fst ov2, visited3) pos frm depth (dir + 1)))
                  = set (fst ov2) \<union> (\<Union>d \<in> {dir + 1 ..< 6}. ?part d)
                \<and> set (snd (slide_loop b start_pos distance (fst ov2, visited3) pos frm depth (dir + 1)))
                  = set (snd ov)"
        using "2.IH"(5) [OF nd x_def nf nc nb out1_def ov2_def visited3_def nn lt] pv fr
        by (simp add: v3)
      have step: "slide_loop b start_pos distance ov pos frm depth dir
                  = slide_loop b start_pos distance (fst ov2, visited3) pos frm depth (dir + 1)"
        using nd nf nc nb
        by (subst slide_loop.simps) (simp add: Let_def x_def ov2_def out1_def visited3_def)
      have n: "Suc (nat (distance - (depth + 1))) = nat (distance - depth)"
        using lt by linarith
      have here: "?part dir = slide_ends (slide_ok b start_pos) (nat (distance - depth)) x (set (snd ov))"
        using nb xv by (simp add: xN [symmetric] slide_ok_def)
      show ?thesis
        unfolding step split here using ih dfs by (auto simp: n)
    qed
  qed
qed

lemma slide_paths_ends:
  "path \<noteq> [] \<Longrightarrow> hd ` set (slide_paths ok n path) = slide_ends ok n (hd path) (set (tl path))"
proof (induction n arbitrary: path)
  case 0
  then show ?case by simp
next
  case (Suc n)
  from Suc.prems have sp: "insert (hd path) (set (tl path)) = set path"
    by (cases path) auto
  have "hd ` set (slide_paths ok n (NeighbourAt (hd path) d # path))
        = slide_ends ok n (NeighbourAt (hd path) d) (set path)" for d
    using Suc.IH [of "NeighbourAt (hd path) d # path"] by simp
  then show ?case
    by (auto simp: sp image_UN split: if_splits)
qed

lemma slide_ends_cong:
  assumes agree: "\<And>p d. d < 6 \<Longrightarrow> H p = 0 \<Longrightarrow> NeighbourAt p d \<noteq> start \<Longrightarrow> ok1 p d = ok2 p d"
    and "H p = 0" and "start \<in> insert p V"
  shows "slide_ends ok1 n p V = slide_ends ok2 n p V"
  using assms(2,3)
proof (induction n arbitrary: p V)
  case 0
  then show ?case by simp
next
  case (Suc n)
  have "(if ok1 p d \<and> NeighbourAt p d \<notin> insert p V
         then slide_ends ok1 n (NeighbourAt p d) (insert p V) else {})
      = (if ok2 p d \<and> NeighbourAt p d \<notin> insert p V
         then slide_ends ok2 n (NeighbourAt p d) (insert p V) else {})"
    if d: "d \<in> {0 ..< 6}" for d
  proof (cases "NeighbourAt p d \<in> insert p V")
    case True
    then show ?thesis by simp
  next
    case False
    from d have d6: "d < 6" by simp
    from False Suc.prems(2) have "NeighbourAt p d \<noteq> start" by auto
    with d6 Suc.prems(1) have ok: "ok1 p d = ok2 p d" by (intro agree)
    have "slide_ends ok1 n (NeighbourAt p d) (insert p V)
          = slide_ends ok2 n (NeighbourAt p d) (insert p V)"
      using Suc.prems d6 by (intro Suc.IH) (simp_all add: NeighbourAt_H)
    with ok show ?thesis by simp
  qed
  then show ?case by simp
qed

lemma AxialToIndex_in_grid:
  assumes "grid_shape b" and inside: "DistanceTo x kOriginPosition \<le> Radius b"
  shows "AxialToIndex b x < length (tile_grid b)"
proof -
  let ?rad = "Radius b"
  let ?i = "sint (Q x) + ?rad + (sint (R x) + ?rad) * (?rad * 2 + 1)"
  have q: "\<bar>sint (Q x)\<bar> \<le> ?rad" and r: "\<bar>sint (R x)\<bar> \<le> ?rad"
    using inside within_radius_coords by blast+
  have lo: "0 \<le> ?i" and hi: "?i < (?rad * 2 + 1) * (?rad * 2 + 1)"
    using index_in_square [OF q r] by blast+
  have "?rad \<le> 14" using assms(1) by (simp add: grid_shape_def Radius_def kMaxBoardRadius_def)
  moreover have "0 \<le> ?rad" using q by linarith
  ultimately have "(?rad * 2 + 1) * (?rad * 2 + 1) \<le> 29 * 29"
    by (intro mult_mono) simp_all
  then have "?i < 2 ^ 64" using hi by simp
  then have "?i mod 2 ^ 64 = ?i" using lo by simp
  then have idx: "AxialToIndex b x = nat ?i"
    by (simp add: AxialToIndex_def SquareDimensions_def)
  have "nat ?i < nat ((?rad * 2 + 1) * (?rad * 2 + 1))" using lo hi by linarith
  then show ?thesis
    using assms(1) idx by (simp add: grid_shape_def SquareDimensions_def)
qed

lemma GetTopTileAt_in_grid:
  assumes "grid_shape b" and "HasValue (GetTopTileAt b x)"
  shows "GetTopTileAt b x \<in> set (tile_grid b)"
proof -
  from assms(2) have inside: "DistanceTo x kOriginPosition \<le> Radius b"
    by (auto simp: GetTopTileAt_def HasValue_def split: if_splits)
  with assms(1) have "AxialToIndex b x < length (tile_grid b)"
    by (rule AxialToIndex_in_grid)
  moreover have "GetTopTileAt b x = tile_grid b ! AxialToIndex b x"
    using inside by (simp add: GetTopTileAt_def)
  ultimately show ?thesis by simp
qed

lemma tile_exists_iff:
  assumes "grid_shape b" and "grid_tiles_placed b"
  shows "0 \<le> sint (H (GetPositionOf b (GetTopTileAt b x))) \<longleftrightarrow> HasValue (GetTopTileAt b x)"
proof (cases "HasValue (GetTopTileAt b x)")
  case True
  with assms(1) have "GetTopTileAt b x \<in> set (filter HasValue (tile_grid b))"
    by (simp add: GetTopTileAt_in_grid)
  with assms(2) have "0 \<le> sint (H (tile_positions b ! GetTopTileAt b x))"
    unfolding grid_tiles_placed_def list_all_iff by blast
  with True show ?thesis by (simp add: GetPositionOf_def)
next
  case False
  then show ?thesis by (simp add: GetPositionOf_def kNullPosition_def)
qed

lemma beside_edge_neighbours:
  assumes "d < 6" and "H p = 0"
  shows "NeighbourAt p (ClockwiseDirection d) \<in> set (Neighbours (NeighbourAt p d))"
    and "NeighbourAt p (CounterClockwiseDirection d) \<in> set (Neighbours (NeighbourAt p d))"
proof -
  from assms(1) consider "d = 0" | "d = 1" | "d = 2" | "d = 3" | "d = 4" | "d = 5" by linarith
  then show "NeighbourAt p (ClockwiseDirection d) \<in> set (Neighbours (NeighbourAt p d))"
    using assms(2)
    by cases (simp_all add: NeighbourAt_def ClockwiseDirection_def kNeighbourOffsets_def
                pos_add_def Neighbours_def)
  from assms(1) consider "d = 0" | "d = 1" | "d = 2" | "d = 3" | "d = 4" | "d = 5" by linarith
  then show "NeighbourAt p (CounterClockwiseDirection d) \<in> set (Neighbours (NeighbourAt p d))"
    using assms(2)
    by cases (simp_all add: NeighbourAt_def CounterClockwiseDirection_def kNeighbourOffsets_def
                pos_add_def Neighbours_def)
qed

lemma slide_ok_ground_slide:
  assumes shape: "grid_shape b" and placed: "grid_tiles_placed b"
    and d: "d < 6" and ground: "H p = 0" and ns: "NeighbourAt p d \<noteq> start"
  shows "slide_ok b start p d = ground_slide b start p d"
proof -
  let ?q = "NeighbourAt p d"
  let ?cw = "NeighbourAt p (ClockwiseDirection d)"
  let ?ccw = "NeighbourAt p (CounterClockwiseDirection d)"
  note ex = tile_exists_iff [OF shape placed]
  have gated: "IsGated b p d start
               = (cell_occupied b start ?cw = cell_occupied b start ?ccw)"
    using ground by (simp add: IsGated_def Let_def NeighbourAt_def [symmetric] ex cell_occupied_def)
  have q: "cell_occupied b start ?q = HasValue (GetTopTileAt b ?q)"
    using ns by (simp add: cell_occupied_def)
  have touch: "IsConnected b ?q start \<and> list_ex (cell_occupied b start) (Neighbours ?q)"
    if "cell_occupied b start ?cw \<noteq> cell_occupied b start ?ccw"
  proof -
    from that obtain c where c: "c = ?cw \<or> c = ?ccw" and occ: "cell_occupied b start c"
      by auto
    from c have mem: "c \<in> set (Neighbours ?q)"
      using beside_edge_neighbours [OF d ground] by auto
    from occ have hv: "HasValue (GetTopTileAt b c)" by (simp add: cell_occupied_def)
    from mem hv have "GetTopTileAt b c \<in> set (NeighboursOf b ?q start)"
      by (simp add: NeighboursOf_def)
    then have "IsConnected b ?q start"
      by (auto simp: IsConnected_def)
    moreover from mem occ have "list_ex (cell_occupied b start) (Neighbours ?q)"
      unfolding list_ex_iff by blast
    ultimately show ?thesis by simp
  qed
  have "slide_ok b start p d
        \<longleftrightarrow> \<not> HasValue (GetTopTileAt b ?q) \<and> \<not> IsGated b p d start \<and> IsConnected b ?q start"
    by (simp add: slide_ok_def slide_blocked_def Let_def NeighbourAt_def)
  also have "\<dots> \<longleftrightarrow> ground_slide b start p d"
    unfolding ground_slide_def Let_def gated q using touch by blast
  finally show ?thesis .
qed

lemma spider_state_reached:
  "Option.bind (Option.bind (Option.bind (ApplyAction game_s2 32)
       (\<lambda>s. ApplyAction s 2871)) (\<lambda>s. ApplyAction s 1376)) (\<lambda>s. ApplyAction s 3039)
   = Some spider_state"
  by code_simp

subsection \<open>The well-formed board is kept by the moves\<close>

lemma HexBoard_new_placed: "board_placed (HexBoard_new r m l p)"
  by (simp add: board_placed_def grid_tiles_placed_def HexBoard_new_def Let_def HasValue_def
                list_all_iff)

lemma cover_tile_subset: "set (cover_tile t cs) \<subseteq> insert t (set cs)"
  by (induction cs) auto

lemma reinstate_covered_fields:
  "tile_positions (reinstate_covered b p i n) = tile_positions b"
  "hex_radius (reinstate_covered b p i n) = hex_radius b"
  "length (tile_grid (reinstate_covered b p i n)) = length (tile_grid b)"
  by (induction n) (simp_all add: Let_def)

lemma reinstate_covered_grid:
  "n \<le> length (covered_tiles b) \<Longrightarrow>
     set (tile_grid (reinstate_covered b p i n)) \<subseteq> set (tile_grid b) \<union> set (covered_tiles b)"
proof (induction n)
  case 0
  then show ?case by simp
next
  case (Suc n)
  have "set ((tile_grid b)[i := covered_tiles b ! n])
        \<subseteq> insert (covered_tiles b ! n) (set (tile_grid b))"
    by (rule set_update_subset_insert)
  moreover have "covered_tiles b ! n \<in> set (covered_tiles b)"
    using Suc.prems by simp
  ultimately show ?case
    using Suc by auto
qed

lemma reinstate_covered_covered:
  "n \<le> length (covered_tiles b) \<Longrightarrow>
     set (covered_tiles (reinstate_covered b p i n)) \<subseteq> insert kNoneTile (set (covered_tiles b))"
proof (induction n)
  case 0
  then show ?case by auto
next
  case (Suc n)
  let ?cs = "(covered_tiles b)[n := kNoneTile]"
  have "set (take n ?cs @ rotate1 (drop n ?cs)) = set ?cs"
    by (metis append_take_drop_id set_append set_rotate1)
  moreover have "set ?cs \<subseteq> insert kNoneTile (set (covered_tiles b))"
    by (rule set_update_subset_insert)
  ultimately show ?case
    using Suc by (auto simp: Let_def)
qed


lemma UpdateInfluence_fields:
  "tile_grid (UpdateInfluence b c) = tile_grid b"
  "tile_positions (UpdateInfluence b c) = tile_positions b"
  "covered_tiles (UpdateInfluence b c) = covered_tiles b"
  "hex_radius (UpdateInfluence b c) = hex_radius b"
  by (simp_all add: UpdateInfluence_def)

lemma UpdateArticulationPoints_fields:
  "tile_grid (UpdateArticulationPoints b) = tile_grid b"
  "tile_positions (UpdateArticulationPoints b) = tile_positions b"
  "covered_tiles (UpdateArticulationPoints b) = covered_tiles b"
  "hex_radius (UpdateArticulationPoints b) = hex_radius b"
  by (simp_all add: UpdateArticulationPoints_def Let_def)

text \<open>
  A move made by \<open>MoveTile\<close> keeps the shape of the grid and the invariant, provided the
  position the move leads to has a height of at least 0 (the reference of a generated move
  is a tile of the grid).
\<close>

lemma MoveTile_placed:
  assumes shape: "grid_shape b" and placed: "board_placed b"
    and height: "0 \<le> sint (H (MoveTile_new_pos b m))"
    and move: "MoveTile b m = Some (moved, b')"
  shows "grid_shape b' \<and> board_placed b'"
proof (cases "hex_radius b < DistanceTo (MoveTile_new_pos b m) kOriginPosition")
  case True
  with move have "b' = b\<lparr>largest_radius :=
      max (largest_radius b) (DistanceTo (MoveTile_new_pos b m) kOriginPosition)\<rparr>"
    by (auto simp: MoveTile_def Let_def split: if_splits)
  with shape placed show ?thesis
    by (simp add: grid_shape_def board_placed_def grid_tiles_placed_def SquareDimensions_def
                  Radius_def)
next
  case False
  define new_pos where "new_pos = MoveTile_new_pos b m"
  define dist where "dist = DistanceTo new_pos kOriginPosition"
  define b1 where "b1 = b\<lparr>largest_radius := max (largest_radius b) dist\<rparr>"
  define old_pos where "old_pos = tile_positions b1 ! from_tile m"
  define b2 where "b2 = (if old_pos = kNullPosition
                       then b1\<lparr>played_tiles := played_tiles b1 @ [from_tile m]\<rparr>
                       else b1)"
  define b3 where "b3 = (if new_pos \<noteq> old_pos then b2\<lparr>last_moved_from := old_pos\<rparr> else b2)"
  define old_idx where "old_idx = AxialToIndex b3 old_pos"
  define new_idx where "new_idx = AxialToIndex b3 new_pos"
  define b4 where "b4 = (if HasValue (tile_grid b3 ! new_idx)
                       then b3\<lparr>covered_tiles :=
                                cover_tile (tile_grid b3 ! new_idx) (covered_tiles b3)\<rparr>
                       else b3)"
  define b5 where "b5 = b4\<lparr> tile_grid := (tile_grid b4)[new_idx := from_tile m],
                          tile_positions := (tile_positions b4)[from_tile m := new_pos],
                          last_moved := from_tile m \<rparr>"
  define b6 where "b6 = (if sint (H old_pos) > 0
                       then reinstate_covered b5 old_pos old_idx (length (covered_tiles b5))
                       else if old_pos \<noteq> kNullPosition
                       then b5\<lparr>tile_grid := (tile_grid b5)[old_idx := kNoneTile]\<rparr>
                       else b5)"
  define b7 where "b7 = UpdateInfluence b6 (GetColour (from_tile m))"
  define b8 where "b8 = (if sint (H old_pos) > 0 \<or> sint (H new_pos) > 0
                       then UpdateInfluence b7 (OtherColour (GetColour (from_tile m)))
                       else b7)"
  have hv: "HasValue (from_tile m)"
    using move by (auto simp: MoveTile_def split: if_splits)
  have c1: "(\<not> HasValue (from_tile m)) = False" using hv by simp
  have c2: "(hex_radius b1 < dist) = False"
    using False by (simp add: b1_def dist_def new_pos_def)
  have "MoveTile b m = Some (True, UpdateArticulationPoints b8)"
    unfolding MoveTile_def Let_def
    unfolding b8_def b7_def b6_def b5_def b4_def new_idx_def old_idx_def b3_def b2_def old_pos_def
    using c1 c2 unfolding b1_def dist_def new_pos_def
    by (simp only: if_False)
  with move have b': "b' = UpdateArticulationPoints b8" by simp
  have f3: "tile_grid b3 = tile_grid b" "tile_positions b3 = tile_positions b"
    "covered_tiles b3 = covered_tiles b" "hex_radius b3 = hex_radius b"
    by (simp_all add: b3_def b2_def b1_def)
  have f5: "tile_grid b5 = (tile_grid b)[new_idx := from_tile m]"
    "tile_positions b5 = (tile_positions b)[from_tile m := new_pos]"
    "hex_radius b5 = hex_radius b"
    by (simp_all add: b5_def b4_def f3)
  have cov5: "set (covered_tiles b5) \<subseteq> insert (tile_grid b ! new_idx) (set (covered_tiles b))"
    using cover_tile_subset [of "tile_grid b ! new_idx" "covered_tiles b"]
    by (auto simp: b5_def b4_def f3)
  have f6: "tile_positions b6 = tile_positions b5" "hex_radius b6 = hex_radius b5"
    "length (tile_grid b6) = length (tile_grid b5)"
    by (simp_all add: b6_def reinstate_covered_fields)
  have grid6: "set (tile_grid b6) \<subseteq> insert kNoneTile (set (tile_grid b5) \<union> set (covered_tiles b5))"
    using reinstate_covered_grid [of "length (covered_tiles b5)" b5 old_pos old_idx]
      set_update_subset_insert [of "tile_grid b5" old_idx kNoneTile]
    by (auto simp: b6_def)
  have cov6: "set (covered_tiles b6) \<subseteq> insert kNoneTile (set (covered_tiles b5))"
    using reinstate_covered_covered [of "length (covered_tiles b5)" b5 old_pos old_idx]
    by (auto simp: b6_def)
  have f': "tile_grid b' = tile_grid b6" "tile_positions b' = tile_positions b6"
    "covered_tiles b' = covered_tiles b6" "hex_radius b' = hex_radius b6"
    by (simp_all add: b' b8_def b7_def UpdateArticulationPoints_fields UpdateInfluence_fields)
  have "DistanceTo new_pos kOriginPosition \<le> Radius b"
    using False by (simp add: new_pos_def Radius_def)
  with shape have "AxialToIndex b new_pos < length (tile_grid b)"
    by (rule AxialToIndex_in_grid)
  moreover have "new_idx = AxialToIndex b new_pos"
    by (simp add: new_idx_def AxialToIndex_def Radius_def SquareDimensions_def f3)
  ultimately have "tile_grid b ! new_idx \<in> set (tile_grid b)" by simp
  with cov5 have cov5': "set (covered_tiles b5) \<subseteq> set (tile_grid b) \<union> set (covered_tiles b)"
    by auto
  have grid5: "set (tile_grid b5) \<subseteq> insert (from_tile m) (set (tile_grid b))"
    unfolding f5 by (rule set_update_subset_insert)
  have len: "length (tile_positions b) = 28"
    using placed by (simp add: board_placed_def)
  have old: "0 \<le> sint (H (tile_positions b ! t))"
    if "t \<in> set (tile_grid b) \<union> set (covered_tiles b)" "HasValue t" for t
    using placed that by (auto simp: board_placed_def grid_tiles_placed_def list_all_iff)
  have new: "0 \<le> sint (H (tile_positions b' ! t))"
    if t: "t \<in> insert (from_tile m) (set (tile_grid b) \<union> set (covered_tiles b))" "HasValue t"
    for t
  proof (cases "t = from_tile m")
    case True
    then show ?thesis
      using height hv len by (simp add: f' f6 f5 new_pos_def HasValue_def)
  next
    case False
    with t old show ?thesis
      by (simp add: f' f6 f5)
  qed
  have all: "set (tile_grid b') \<union> set (covered_tiles b')
             \<subseteq> insert kNoneTile (insert (from_tile m) (set (tile_grid b) \<union> set (covered_tiles b)))"
    using grid6 cov6 grid5 cov5' unfolding f' by blast
  have "0 \<le> sint (H (tile_positions b' ! t))"
    if "t \<in> set (tile_grid b') \<union> set (covered_tiles b')" "HasValue t" for t
  proof -
    from that(2) have "t \<noteq> kNoneTile" by (auto simp: HasValue_def)
    with that(1) all have "t \<in> insert (from_tile m) (set (tile_grid b) \<union> set (covered_tiles b))"
      by blast
    then show ?thesis using that(2) by (rule new)
  qed
  then have "board_placed b'"
    using len by (auto simp: board_placed_def grid_tiles_placed_def list_all_iff f' f6 f5)
  moreover have "grid_shape b'"
    using shape by (simp add: grid_shape_def SquareDimensions_def Radius_def f' f6 f5)
  ultimately show ?thesis by simp
qed

lemma Pass_placed: "grid_shape b \<Longrightarrow> board_placed b \<Longrightarrow> grid_shape (Pass b) \<and> board_placed (Pass b)"
  by (simp add: Pass_def grid_shape_def board_placed_def grid_tiles_placed_def
                SquareDimensions_def Radius_def)

text \<open>
  The board of a new game is well formed, and applying an action keeps it so when the
  position the action leads to has a height of at least 0.
\<close>

lemma NewInitialState_placed:
  "grid_shape (board (NewInitialState g)) \<and> board_placed (board (NewInitialState g))"
  by (simp add: NewInitialState_def HiveState_new_def HexBoard_new_grid_shape HexBoard_new_placed)

lemma ApplyAction_placed:
  assumes shape: "grid_shape (board s)" and placed: "board_placed (board s)"
    and height: "action \<noteq> PassAction \<Longrightarrow>
                   0 \<le> sint (H (MoveTile_new_pos (board s) (ActionToMove action)))"
    and ap: "ApplyAction s action = Some s'"
  shows "grid_shape (board s') \<and> board_placed (board s')"
proof (cases "action = PassAction")
  case True
  with ap have "board s' = Pass (board s)"
    by (auto simp: ApplyAction_def DoApplyAction_def)
  with Pass_placed [OF shape placed] show ?thesis by simp
next
  case False
  with ap obtain moved b' where
    move: "MoveTile (board s) (ActionToMove action) = Some (moved, b')" and b': "board s' = b'"
    by (auto simp: ApplyAction_def DoApplyAction_def split: option.splits if_splits)
  from MoveTile_placed [OF shape placed height [OF False] move] b' show ?thesis by simp
qed

lemma board_placed_grid: "board_placed b \<Longrightarrow> grid_tiles_placed b"
  by (simp add: board_placed_def)

text \<open>
  Claim C2. On a well-formed board (the grid has the size the constructor gave it, and
  every tile in the grid has a position of height at least 0: both hold for the board of a
  new game and are kept by the moves, see \<open>NewInitialState_placed\<close> and
  \<open>ApplyAction_placed\<close>), for a tile that stands on the ground and is neither pinned nor
  covered, the positions that \<open>GenerateValidSlides\<close> enumerates at the distance 3 of the
  Spider are exactly the ends of the paths of exactly three ground slides from the start
  cell on which no cell is visited twice. A position reached only by paths of one or two
  steps is therefore not emitted. These positions are the ones that \<open>GenerateMovesFor\<close>
  turns into the moves of a Spider.
\<close>

theorem spider_three_steps:
  assumes unpinned: "\<not> IsPinned b tile" and uncovered: "\<not> IsCovered b tile"
    and ground: "H (tile_positions b ! tile) = 0"
    and shape: "grid_shape b" and placed: "grid_tiles_placed b"
  shows "set (GenerateValidSlides b [] tile (tile_positions b ! tile) 3)
         = set (spider_destinations b (tile_positions b ! tile))
         \<and> GenerateMovesFor b out tile kSpider to_move
           = Some (fold (position_to_moves b tile (tile_positions b ! tile))
                        (GenerateValidSlides b [] tile (tile_positions b ! tile) 3) out)"
proof -
  let ?start = "tile_positions b ! tile"
  have moves: "GenerateMovesFor b out tile kSpider to_move
               = Some (fold (position_to_moves b tile ?start)
                            (GenerateValidSlides b [] tile ?start 3) out)"
    by (subst GenerateMovesFor.simps) (simp add: Let_def)
  have gen: "GenerateValidSlides b [] tile ?start 3
             = fst (slide_dfs b ?start 3 ([], []) ?start kNumAllDirections 1)"
    using unpinned uncovered by (simp add: GenerateValidSlides_def)
  have dfs: "set (fst (slide_dfs b ?start 3 ([], []) ?start kNumAllDirections 1))
             = slide_ends (slide_ok b ?start) 3 ?start {}"
    using slide_dfs_ends [of 3 1 ?start "([], [])" kNumAllDirections b ?start]
    by (simp add: numeral_3_eq_3)
  have spec: "slide_ends (slide_ok b ?start) 3 ?start {}
              = slide_ends (ground_slide b ?start) 3 ?start {}"
    using ground by (intro slide_ends_cong slide_ok_ground_slide [OF shape placed]) simp_all
  have paths: "hd ` set (slide_paths (ground_slide b ?start) 3 [?start])
               = slide_ends (ground_slide b ?start) 3 ?start {}"
    using slide_paths_ends [of "[?start]" "ground_slide b ?start" 3] by simp
  have "set (spider_destinations b ?start) = slide_ends (ground_slide b ?start) 3 ?start {}"
    by (simp add: spider_destinations_def paths)
  then have "set (GenerateValidSlides b [] tile ?start 3) = set (spider_destinations b ?start)"
    unfolding gen dfs spec by (rule sym)
  then show ?thesis using moves by (rule conjI)
qed

theorem spider_three_steps_witness:
  "GetBugType wS1 = kSpider
   \<and> tile_positions (board spider_state) ! wS1 = HivePosition (- 2) 0 0
   \<and> GenerateValidSlides (board spider_state) [] wS1 (HivePosition (- 2) 0 0) 3
       = [HivePosition 1 (- 1) 0, HivePosition 0 1 0]
   \<and> set (spider_destinations (board spider_state) (HivePosition (- 2) 0 0))
       = {HivePosition 1 (- 1) 0, HivePosition 0 1 0}
   \<and> map hd (slide_paths (ground_slide (board spider_state) (HivePosition (- 2) 0 0)) 1
               [HivePosition (- 2) 0 0])
       = [HivePosition (- 1) (- 1) 0, HivePosition (- 2) 1 0]
   \<and> map hd (slide_paths (ground_slide (board spider_state) (HivePosition (- 2) 0 0)) 2
               [HivePosition (- 2) 0 0])
       = [HivePosition 0 (- 1) 0, HivePosition (- 1) 1 0]"
proof -
  have spider: "GetBugType wS1 = kSpider" by code_simp
  have pos: "tile_positions (board spider_state) ! wS1 = HivePosition (- 2) 0 0" by code_simp
  have unpinned: "\<not> IsPinned (board spider_state) wS1" by code_simp
  have uncovered: "\<not> IsCovered (board spider_state) wS1" by code_simp
  have ground: "H (tile_positions (board spider_state) ! wS1) = 0" by code_simp
  have shape: "grid_shape (board spider_state)" by code_simp
  have placed: "grid_tiles_placed (board spider_state)" by code_simp
  have gen: "GenerateValidSlides (board spider_state) [] wS1 (HivePosition (- 2) 0 0) 3
             = [HivePosition 1 (- 1) 0, HivePosition 0 1 0]"
    by code_simp
  have one: "map hd (slide_paths (ground_slide (board spider_state) (HivePosition (- 2) 0 0)) 1
               [HivePosition (- 2) 0 0])
             = [HivePosition (- 1) (- 1) 0, HivePosition (- 2) 1 0]"
    by code_simp
  have two: "map hd (slide_paths (ground_slide (board spider_state) (HivePosition (- 2) 0 0)) 2
               [HivePosition (- 2) 0 0])
             = [HivePosition 0 (- 1) 0, HivePosition (- 1) 1 0]"
    by code_simp
  from spider_three_steps [OF unpinned uncovered ground shape placed]
  have "set (GenerateValidSlides (board spider_state) [] wS1 (HivePosition (- 2) 0 0) 3)
        = set (spider_destinations (board spider_state) (HivePosition (- 2) 0 0))"
    unfolding pos by (rule conjunct1)
  then have "set (spider_destinations (board spider_state) (HivePosition (- 2) 0 0))
        = set (GenerateValidSlides (board spider_state) [] wS1 (HivePosition (- 2) 0 0) 3)"
    by (rule sym)
  then have "set (spider_destinations (board spider_state) (HivePosition (- 2) 0 0))
             = {HivePosition 1 (- 1) 0, HivePosition 0 1 0}"
    unfolding gen by simp
  with spider pos gen one two show ?thesis by (simp only: simp_thms)
qed

end
